theory Spec2Isabelle
  imports Complex_Main
begin

section \<open>Numbers, errors and tensors\<close>

text \<open>
  The detection head of \<^verbatim>\<open>yolov4/tf/model.py\<close> computes with Python floats and
  float32 tensors.  They are modelled as real numbers: the arithmetic of the model is
  exact, rounding is not part of it, except where a property is about the rounding
  itself; for that the decoder is given a second time, in binary32 arithmetic.  A tensor is a rectangular nested list, the last
  axis innermost: a raw head input has the axes (batch, height, width, channels), a
  decoded head output the axes (batch, boxes, channels).
\<close>

datatype error = ShapeError | IndexError | KeyError | ZeroDivisionError | TypeError

type_synonym tensor4 = "real list list list list"
type_synonym tensor3 = "real list list list"

text \<open>Python's \<^verbatim>\<open>xs[i]\<close>: a negative index counts from the end.\<close>

definition py_index :: "'a list \<Rightarrow> int \<Rightarrow> error + 'a" where
  "py_index xs i =
     (if 0 \<le> i \<and> i < int (length xs) then Inr (xs ! nat i)
      else if i < 0 \<and> - int (length xs) \<le> i then Inr (xs ! nat (int (length xs) + i))
      else Inl IndexError)"

text \<open>A loop that stops at the first error and collects the results otherwise.\<close>

fun map_err :: "('a \<Rightarrow> error + 'b) \<Rightarrow> 'a list \<Rightarrow> error + 'b list" where
  "map_err f [] = Inr []"
| "map_err f (x # xs) =
     (case f x of
        Inl e \<Rightarrow> Inl e
      | Inr y \<Rightarrow> (case map_err f xs of Inl e \<Rightarrow> Inl e | Inr ys \<Rightarrow> Inr (y # ys)))"

section \<open>The detection head: construction and grid geometry\<close>

text \<open>
  The entries of the configuration that \<^verbatim>\<open>YOLOv3Head.__init__\<close> reads: the anchor
  table and the mask of the head's own entry, its \<^verbatim>\<open>scale_x_y\<close>, and the width and
  height of the \<^verbatim>\<open>net\<close> entry.
\<close>

record head_config =
  cfg_anchors :: "(real \<times> real) list"
  cfg_mask :: "int list"
  cfg_scale_x_y :: real
  net_width :: int
  net_height :: int

record head =
  anchors :: "(real \<times> real) list"
  inver_image_wh :: "real \<times> real"
  scale_x_y :: real

text \<open>
  \<^verbatim>\<open>build\<close> adds the grid geometry to the head.  \<^verbatim>\<open>_return_shape\<close> is
  \<^verbatim>\<open>(-1, grid_height * grid_width, filters // 3)\<close>; the record keeps its last two
  entries.
\<close>

record built_head = head +
  grid_coord :: "(real \<times> real) list list"
  inver_grid_wh :: "real \<times> real"
  return_shape :: "nat \<times> nat"

definition YOLOv3Head_init :: "head_config \<Rightarrow> error + head" where
  "YOLOv3Head_init config =
     (case map_err (py_index (cfg_anchors config)) (cfg_mask config) of
        Inl e \<Rightarrow> Inl e
      | Inr sel \<Rightarrow>
          if net_width config = 0 \<or> net_height config = 0 then Inl ZeroDivisionError
          else Inr \<lparr> anchors = sel,
                     inver_image_wh = (1 / real_of_int (net_width config),
                                       1 / real_of_int (net_height config)),
                     scale_x_y = cfg_scale_x_y config \<rparr>)"

text \<open>
  \<^verbatim>\<open>build(grid_shape)\<close> with \<^verbatim>\<open>grid_shape = (_, grid_height, grid_width, filters)\<close>.
  The two nested loops append \<^verbatim>\<open>(x / grid_width, y / grid_height)\<close> row by row;
  \<^verbatim>\<open>1 / grid_width\<close> and \<^verbatim>\<open>1 / grid_height\<close> raise for an empty grid.
\<close>

definition YOLOv3Head_build :: "head \<Rightarrow> nat \<times> nat \<times> nat \<times> nat \<Rightarrow> error + built_head" where
  "YOLOv3Head_build h grid_shape =
     (case grid_shape of (batch, grid_height, grid_width, filters) \<Rightarrow>
        if grid_width = 0 \<or> grid_height = 0 then Inl ZeroDivisionError
        else Inr (head.extend h
               \<lparr> grid_coord =
                   map (\<lambda>y. map (\<lambda>x. (real x / real grid_width, real y / real grid_height))
                                [0..<grid_width])
                       [0..<grid_height],
                 inver_grid_wh = (1 / real grid_width, 1 / real grid_height),
                 return_shape = (grid_height * grid_width, filters div 3) \<rparr>))"

section \<open>Tensor operations used by the head\<close>

text \<open>
  The operations of the tensor library that \<^verbatim>\<open>YOLOv3Head.call\<close> uses, on nested
  lists.  Each one first checks the shapes, as the library does, and then computes.
\<close>

definition bind_err :: "error + 'a \<Rightarrow> ('a \<Rightarrow> error + 'b) \<Rightarrow> error + 'b" where
  "bind_err m f = (case m of Inl e \<Rightarrow> Inl e | Inr v \<Rightarrow> f v)"

definition sigmoid :: "real \<Rightarrow> real" where
  "sigmoid v = 1 / (1 + exp (- v))"

text \<open>The channel vectors of a tensor, and a function applied to each of them.\<close>

definition cells :: "'a list list list \<Rightarrow> 'a list" where
  "cells x = concat (concat x)"

definition tmap :: "('a \<Rightarrow> 'b) \<Rightarrow> 'a list list list \<Rightarrow> 'b list list list" where
  "tmap f x = map (map (map f)) x"

definition zip_cells :: "('a \<Rightarrow> 'b \<Rightarrow> 'c) \<Rightarrow> 'a list list list \<Rightarrow> 'b list list list \<Rightarrow> 'c list list list" where
  "zip_cells f a b = map2 (map2 (map2 f)) a b"

definition same_grid :: "'a list list list \<Rightarrow> 'b list list list \<Rightarrow> bool" where
  "same_grid a b = list_all2 (list_all2 (\<lambda>r s. length r = length s)) a b"

text \<open>
  \<^verbatim>\<open>tf.split(x, n, axis=-1)\<close>: \<open>n\<close> equal parts of the channel axis; the channel
  count must be a multiple of \<open>n\<close>.  Part \<open>j\<close> of a channel vector is \<open>chunk_at n j\<close>.
\<close>

definition chunk_at :: "nat \<Rightarrow> nat \<Rightarrow> 'a list \<Rightarrow> 'a list" where
  "chunk_at n j c = take (length c div n) (drop (j * (length c div n)) c)"

definition tf_split :: "nat \<Rightarrow> tensor4 \<Rightarrow> error + tensor4 list" where
  "tf_split n x =
     (if n = 0 \<or> \<not> list_all (\<lambda>c. length c mod n = 0) (cells x) then Inl ShapeError
      else Inr (map (\<lambda>j. tmap (chunk_at n j) x) [0..<n]))"

text \<open>\<^verbatim>\<open>tf.split(t, [2, 2, -1], axis=-1)\<close>: two channels, two channels, the rest.\<close>

definition tf_split_2_2_rest :: "tensor4 \<Rightarrow> error + tensor4 \<times> tensor4 \<times> tensor4" where
  "tf_split_2_2_rest t =
     (if \<not> list_all (\<lambda>c. 4 \<le> length c) (cells t) then Inl ShapeError
      else Inr (tmap (take 2) t, tmap (\<lambda>c. take 2 (drop 2 c)) t, tmap (drop 4) t))"

text \<open>A tensor with two channels times a pair, the pair broadcast over every cell.\<close>

definition mul_pair :: "tensor4 \<Rightarrow> real \<times> real \<Rightarrow> tensor4" where
  "mul_pair t p = tmap (\<lambda>v. map2 (*) v [fst p, snd p]) t"

text \<open>
  Broadcasting along one axis: equal lengths pair up, an axis of length 1 is repeated,
  anything else is a shape error.
\<close>

definition bcast_ok :: "'a list \<Rightarrow> 'b list \<Rightarrow> bool" where
  "bcast_ok xs ys = (length xs = length ys \<or> length xs = 1 \<or> length ys = 1)"

definition bcast :: "('a \<Rightarrow> 'b \<Rightarrow> 'c) \<Rightarrow> 'a list \<Rightarrow> 'b list \<Rightarrow> 'c list" where
  "bcast f xs ys =
     (if length xs = length ys then map2 f xs ys
      else if length xs = 1 then map (f (hd xs)) ys
      else map (\<lambda>x. f x (hd ys)) xs)"

text \<open>
  \<^verbatim>\<open>xy += self._grid_coord\<close>: the grid table, of shape (height, width, 2), is
  broadcast over the batch axis and added.
\<close>

definition add_grid :: "tensor4 \<Rightarrow> (real \<times> real) list list \<Rightarrow> error + tensor4" where
  "add_grid xy grid =
     (if list_all (\<lambda>img. bcast_ok img grid
                      \<and> list_all (\<lambda>row. list_all (bcast_ok row) grid) img) xy
      then Inr (map (\<lambda>img. bcast (bcast (\<lambda>v g. map2 (+) v [fst g, snd g])) img grid) xy)
      else Inl ShapeError)"

text \<open>\<^verbatim>\<open>tf.concat(ts, axis=-1)\<close>: the tensors must agree on every other axis.\<close>

fun tf_concat_last :: "tensor4 list \<Rightarrow> error + tensor4" where
  "tf_concat_last [] = Inl ShapeError"
| "tf_concat_last [t] = Inr t"
| "tf_concat_last (t # u # ts) =
     (case tf_concat_last (u # ts) of
        Inl e \<Rightarrow> Inl e
      | Inr r \<Rightarrow> if same_grid t r then Inr (zip_cells (@) t r) else Inl ShapeError)"

text \<open>
  \<^verbatim>\<open>tf.reshape(t, (-1, n, k))\<close>: the entries in row-major order, cut into rows of
  \<open>k\<close> and the rows into groups of \<open>n\<close>; the number of entries must be a multiple
  of \<open>n * k\<close>.
\<close>

definition chunks :: "nat \<Rightarrow> 'a list \<Rightarrow> 'a list list" where
  "chunks k xs = map (\<lambda>i. take k (drop (i * k) xs)) [0..<length xs div k]"

definition tf_reshape :: "tensor4 \<Rightarrow> nat \<times> nat \<Rightarrow> error + tensor3" where
  "tf_reshape t rs =
     (let flat = concat (cells t); n = fst rs * snd rs
      in if n = 0 \<or> length flat mod n \<noteq> 0 then Inl ShapeError
         else Inr (chunks (fst rs) (chunks (snd rs) flat)))"

text \<open>
  \<^verbatim>\<open>tf.concat(ts, axis=1)\<close> of tensors (batch, boxes, channels): the batch sizes and
  the channel counts must agree.
\<close>

definition tf_concat_axis1 :: "tensor3 list \<Rightarrow> error + tensor3" where
  "tf_concat_axis1 ts =
     (case ts of
        [] \<Rightarrow> Inl ShapeError
      | t # us \<Rightarrow>
          if list_all (\<lambda>u. length u = length t) us
             \<and> length (remdups (map length (concat (concat ts)))) \<le> 1
          then Inr (map (\<lambda>b. concat (map (\<lambda>u. u ! b) ts)) [0..<length t])
          else Inl ShapeError)"

section \<open>The detection head: decoding\<close>

text \<open>
  The body of the loop of \<^verbatim>\<open>YOLOv3Head.call\<close> for anchor slot \<open>i\<close>, in the order
  of the source: the two sized splits, \<open>exp\<close>, the \<^verbatim>\<open>scale_x_y\<close> step, the grid
  placement, the anchor scaling (which reads \<^verbatim>\<open>self._anchors[i]\<close>), and the
  concatenation and reshape.
\<close>

definition head_anchor :: "built_head \<Rightarrow> tensor4 list \<Rightarrow> tensor4 list \<Rightarrow> nat \<Rightarrow> error + tensor3" where
  "head_anchor h raw_split sig_split i =
     bind_err (tf_split_2_2_rest (sig_split ! i)) (\<lambda>(xy, _, oc).
     bind_err (tf_split_2_2_rest (raw_split ! i)) (\<lambda>(_, wh, _).
       let wh = tmap (map exp) wh;
           xy = (if scale_x_y h \<noteq> 1
                 then tmap (map (\<lambda>v. (v - 0.5) * scale_x_y h + 0.5)) xy else xy);
           xy = mul_pair xy (inver_grid_wh h)
       in bind_err (add_grid xy (grid_coord h)) (\<lambda>xy.
          bind_err (py_index (anchors h) (int i)) (\<lambda>a.
            let wh = mul_pair (mul_pair wh a) (inver_image_wh h)
            in bind_err (tf_concat_last [xy, wh, oc]) (\<lambda>t.
               tf_reshape t (return_shape h))))))"

definition YOLOv3Head_call :: "built_head \<Rightarrow> tensor4 \<Rightarrow> error + tensor3" where
  "YOLOv3Head_call h x =
     bind_err (tf_split 3 x) (\<lambda>raw_split.
     bind_err (tf_split 3 (tmap (map sigmoid) x)) (\<lambda>sig_split.
     bind_err (map_err (head_anchor h raw_split sig_split) [0..<3]) (\<lambda>output.
       tf_concat_axis1 output)))"

text \<open>
  The shape of a tensor: \<open>wf_grid B H W t\<close> fixes the batch, height and width axes,
  \<open>chans C t\<close> the channel axis.
\<close>

definition wf_grid :: "nat \<Rightarrow> nat \<Rightarrow> nat \<Rightarrow> 'a list list list \<Rightarrow> bool" where
  "wf_grid B H W t =
     (length t = B \<and> list_all (\<lambda>img. length img = H \<and> list_all (\<lambda>row. length row = W) img) t)"

definition chans :: "nat \<Rightarrow> 'a list list list list \<Rightarrow> bool" where
  "chans C t = list_all (\<lambda>c. length c = C) (cells t)"

definition wf_tensor :: "nat \<Rightarrow> nat \<Rightarrow> nat \<Rightarrow> nat \<Rightarrow> tensor4 \<Rightarrow> bool" where
  "wf_tensor B H W C t = (wf_grid B H W t \<and> chans C t)"

text \<open>
  A built head fits the grid \<open>H \<times> W\<close> with \<open>K\<close> channels per anchor when its grid
  table has that shape and its return shape is \<open>(-1, H * W, K)\<close>: the state that
  \<^verbatim>\<open>build\<close> leaves for an input of shape \<open>(_, H, W, 3 * K)\<close>.
\<close>

definition fits :: "built_head \<Rightarrow> nat \<Rightarrow> nat \<Rightarrow> nat \<Rightarrow> bool" where
  "fits h H W K =
     (length (grid_coord h) = H \<and> list_all (\<lambda>row. length row = W) (grid_coord h)
      \<and> return_shape h = (H * W, K))"

text \<open>
  The decoded box of the specification (section 4.2, steps 1 to 6) for anchor slot
  \<open>i\<close> at grid cell \<open>(cy, cx)\<close>, from the raw channel vector \<open>c\<close> of that cell.
\<close>

definition decode_box :: "built_head \<Rightarrow> nat \<Rightarrow> nat \<Rightarrow> nat \<Rightarrow> real list \<Rightarrow> real list" where
  "decode_box h i cy cx c =
     (let raw = chunk_at 3 i c;
          s = (\<lambda>v. if scale_x_y h \<noteq> 1 then (sigmoid v - 0.5) * scale_x_y h + 0.5
                    else sigmoid v);
          a = anchors h ! i;
          g = grid_coord h ! cy ! cx
      in [s (raw ! 0) * fst (inver_grid_wh h) + fst g,
          s (raw ! 1) * snd (inver_grid_wh h) + snd g,
          exp (raw ! 2) * fst a * fst (inver_image_wh h),
          exp (raw ! 3) * snd a * snd (inver_image_wh h)]
         @ map sigmoid (drop 4 raw))"

subsection \<open>Variants of the decoder that the specification compares it with\<close>

text \<open>
  The single-split decoder that activates after splitting: the raw tensor is split
  once, then sigmoid is applied to the x/y and the objectness/class parts and
  \<open>exp\<close> to the width/height part.
\<close>

definition head_anchor_single_split :: "built_head \<Rightarrow> tensor4 list \<Rightarrow> nat \<Rightarrow> error + tensor3" where
  "head_anchor_single_split h raw_split i =
     bind_err (tf_split_2_2_rest (raw_split ! i)) (\<lambda>(xy, wh, oc).
       let xy = tmap (map sigmoid) xy;
           oc = tmap (map sigmoid) oc;
           wh = tmap (map exp) wh;
           xy = (if scale_x_y h \<noteq> 1
                 then tmap (map (\<lambda>v. (v - 0.5) * scale_x_y h + 0.5)) xy else xy);
           xy = mul_pair xy (inver_grid_wh h)
       in bind_err (add_grid xy (grid_coord h)) (\<lambda>xy.
          bind_err (py_index (anchors h) (int i)) (\<lambda>a.
            let wh = mul_pair (mul_pair wh a) (inver_image_wh h)
            in bind_err (tf_concat_last [xy, wh, oc]) (\<lambda>t.
               tf_reshape t (return_shape h)))))"

definition YOLOv3Head_call_single_split :: "built_head \<Rightarrow> tensor4 \<Rightarrow> error + tensor3" where
  "YOLOv3Head_call_single_split h x =
     bind_err (tf_split 3 x) (\<lambda>raw_split.
     bind_err (map_err (head_anchor_single_split h raw_split) [0..<3]) (\<lambda>output.
       tf_concat_axis1 output))"

text \<open>
  The conflated decoder: everything, the width/height part included, is taken from
  the one split of the sigmoid-activated tensor.
\<close>

definition head_anchor_conflated :: "built_head \<Rightarrow> tensor4 list \<Rightarrow> nat \<Rightarrow> error + tensor3" where
  "head_anchor_conflated h sig_split i =
     bind_err (tf_split_2_2_rest (sig_split ! i)) (\<lambda>(xy, wh, oc).
       let wh = tmap (map exp) wh;
           xy = (if scale_x_y h \<noteq> 1
                 then tmap (map (\<lambda>v. (v - 0.5) * scale_x_y h + 0.5)) xy else xy);
           xy = mul_pair xy (inver_grid_wh h)
       in bind_err (add_grid xy (grid_coord h)) (\<lambda>xy.
          bind_err (py_index (anchors h) (int i)) (\<lambda>a.
            let wh = mul_pair (mul_pair wh a) (inver_image_wh h)
            in bind_err (tf_concat_last [xy, wh, oc]) (\<lambda>t.
               tf_reshape t (return_shape h)))))"

definition YOLOv3Head_call_conflated :: "built_head \<Rightarrow> tensor4 \<Rightarrow> error + tensor3" where
  "YOLOv3Head_call_conflated h x =
     bind_err (tf_split 3 (tmap (map sigmoid) x)) (\<lambda>sig_split.
     bind_err (map_err (head_anchor_conflated h sig_split) [0..<3]) (\<lambda>output.
       tf_concat_axis1 output))"

section \<open>The decoder in binary32 arithmetic\<close>

text \<open>
  The tensors of the program hold 32-bit floating-point numbers.  \<open>fl32\<close> rounds a real
  number to the nearest number of that format, a tie going to the even significand: 24
  significant bits and no exponent below \<open>-149\<close>, so that the subnormal numbers are
  included.  Overflow to infinity is left out: the format is taken without a largest
  exponent.
\<close>

definition round_even :: "real \<Rightarrow> int" where
  "round_even r = (let f = \<lfloor>r\<rfloor> in
     if r - of_int f < 1 / 2 then f
     else if 1 / 2 < r - of_int f then f + 1
     else if even f then f else f + 1)"

definition fl32 :: "real \<Rightarrow> real" where
  "fl32 x = (if x = 0 then 0
     else let e = max (\<lfloor>log 2 \<bar>x\<bar>\<rfloor> - 23) (- 149)
          in of_int (round_even (x / 2 powr of_int e)) * 2 powr of_int e)"

text \<open>
  An operation of the tensor library on such numbers is the exact operation followed by
  the rounding; sigmoid and \<open>exp\<close> are taken as correctly rounded.  A Python float that
  meets a tensor (a constant of the head) is converted to the format first.
  \<open>scale_step_f32 s\<close> is the arithmetic \<^verbatim>\<open>(xy - 0.5) * s + 0.5\<close> on one entry, one
  operation after the other.
\<close>

definition sigmoid_f32 :: "real \<Rightarrow> real" where
  "sigmoid_f32 v = fl32 (sigmoid v)"

definition exp_f32 :: "real \<Rightarrow> real" where
  "exp_f32 v = fl32 (exp v)"

definition scale_step_f32 :: "real \<Rightarrow> real \<Rightarrow> real" where
  "scale_step_f32 s v = fl32 (fl32 (fl32 (v - 0.5) * fl32 s) + 0.5)"

definition mul_pair_f32 :: "tensor4 \<Rightarrow> real \<times> real \<Rightarrow> tensor4" where
  "mul_pair_f32 t p = tmap (\<lambda>v. map2 (\<lambda>a b. fl32 (a * b)) v [fl32 (fst p), fl32 (snd p)]) t"

definition add_grid_f32 :: "tensor4 \<Rightarrow> (real \<times> real) list list \<Rightarrow> error + tensor4" where
  "add_grid_f32 xy grid =
     (if list_all (\<lambda>img. bcast_ok img grid
                      \<and> list_all (\<lambda>row. list_all (bcast_ok row) grid) img) xy
      then Inr (map (\<lambda>img. bcast (bcast (\<lambda>v g. map2 (\<lambda>a b. fl32 (a + b)) v
                                                  [fl32 (fst g), fl32 (snd g)])) img grid) xy)
      else Inl ShapeError)"

text \<open>
  The loop body and the call of \<^verbatim>\<open>YOLOv3Head\<close> in this arithmetic.  Without \<open>forced\<close>
  it is the call of the source, which skips the scale correction when \<^verbatim>\<open>scale_x_y\<close> is
  1; with \<open>forced\<close> the correction is evaluated whatever the value of \<^verbatim>\<open>scale_x_y\<close>.
\<close>

definition head_anchor_f32 :: "bool \<Rightarrow> built_head \<Rightarrow> tensor4 list \<Rightarrow> tensor4 list \<Rightarrow> nat
    \<Rightarrow> error + tensor3" where
  "head_anchor_f32 forced h raw_split sig_split i =
     bind_err (tf_split_2_2_rest (sig_split ! i)) (\<lambda>(xy, _, oc).
     bind_err (tf_split_2_2_rest (raw_split ! i)) (\<lambda>(_, wh, _).
       let wh = tmap (map exp_f32) wh;
           xy = (if forced \<or> scale_x_y h \<noteq> 1
                 then tmap (map (scale_step_f32 (scale_x_y h))) xy else xy);
           xy = mul_pair_f32 xy (inver_grid_wh h)
       in bind_err (add_grid_f32 xy (grid_coord h)) (\<lambda>xy.
          bind_err (py_index (anchors h) (int i)) (\<lambda>a.
            let wh = mul_pair_f32 (mul_pair_f32 wh a) (inver_image_wh h)
            in bind_err (tf_concat_last [xy, wh, oc]) (\<lambda>t.
               tf_reshape t (return_shape h))))))"

definition YOLOv3Head_call_f32 :: "bool \<Rightarrow> built_head \<Rightarrow> tensor4 \<Rightarrow> error + tensor3" where
  "YOLOv3Head_call_f32 forced h x =
     bind_err (tf_split 3 x) (\<lambda>raw_split.
     bind_err (tf_split 3 (tmap (map sigmoid_f32) x)) (\<lambda>sig_split.
     bind_err (map_err (head_anchor_f32 forced h raw_split sig_split) [0..<3]) (\<lambda>output.
       tf_concat_axis1 output)))"

section \<open>Route layers with groups\<close>

text \<open>
  \<^verbatim>\<open>_split_and_get(groups, group_id)\<close> is
  \<^verbatim>\<open>lambda x: tf.split(x, groups, axis=-1)[group_id]\<close>.  A group count that is not
  positive is refused by the split (\<open>nat groups = 0\<close> then); the result list is
  indexed as a Python list.
\<close>

definition split_and_get :: "int \<Rightarrow> int \<Rightarrow> tensor4 \<Rightarrow> error + tensor4" where
  "split_and_get groups group_id x =
     bind_err (tf_split (nat groups) x) (\<lambda>parts. py_index parts group_id)"

text \<open>The direct channel slice \<^verbatim>\<open>c[lo:hi]\<close> of a channel vector.\<close>

definition channel_slice :: "nat \<Rightarrow> nat \<Rightarrow> 'a list \<Rightarrow> 'a list" where
  "channel_slice lo hi c = drop lo (take hi c)"

section \<open>The layer graph\<close>

text \<open>
  One entry of the layer configuration.  The field \<open>opt_k\<close> is the key \<open>k\<close> of the
  Python dictionary; \<open>opt_groups\<close> is \<open>None\<close> when the key \<^verbatim>\<open>groups\<close> is absent,
  which is what the code tests.
\<close>

record layer_option =
  opt_type :: string
  opt_count :: int
  opt_activation :: string
  opt_filters :: int
  opt_pad :: int
  opt_size :: int
  opt_stride :: int
  opt_groups :: "int option"
  opt_group_id :: int
  opt_layers :: "int list"
  opt_from :: "int list"
  opt_anchors :: "(real \<times> real) list"
  opt_mask :: "int list"
  opt_scale_x_y :: real
  opt_width :: int
  opt_height :: int
  opt_decay :: real

text \<open>
  A layer is called with one tensor or with a list of tensors.  The graph walk does
  not look into tensors, so it is generic in their type.
\<close>

datatype 'a arg = One 'a | Many "'a list"

type_synonym 'a layer_fn = "'a arg \<Rightarrow> error + 'a"

text \<open>
  The layer classes that \<^verbatim>\<open>YOLOv4Model.__init__\<close> instantiates.  The convolution and
  the Keras layers belong to the tensor library; \<open>split_layer\<close> and \<open>head_layer\<close>
  stand for \<^verbatim>\<open>_split_and_get\<close> and \<^verbatim>\<open>YOLOv3Head\<close> as callables on the tensors of
  the graph.
\<close>

record 'a layer_lib =
  YOLOConv2D :: "string \<Rightarrow> int \<Rightarrow> real option \<Rightarrow> string \<Rightarrow> int \<Rightarrow> int \<Rightarrow> int \<Rightarrow> 'a layer_fn"
  Concatenate :: "string \<Rightarrow> 'a layer_fn"
  Add :: "string \<Rightarrow> 'a layer_fn"
  MaxPooling2D :: "string \<Rightarrow> int \<Rightarrow> int \<Rightarrow> 'a layer_fn"
  UpSampling2D :: "string \<Rightarrow> 'a layer_fn"
  split_layer :: "int \<Rightarrow> int \<Rightarrow> 'a layer_fn"
  head_layer :: "head \<Rightarrow> 'a layer_fn"

record 'a model =
  model_config :: "(string \<times> layer_option) list"
  model_layers :: "'a layer_fn list"

text \<open>\<^verbatim>\<open>lambda x: x\<close>, the layer of a route with one source and no groups.\<close>

definition identity_layer :: "'a layer_fn" where
  "identity_layer a = (case a of One t \<Rightarrow> Inr t | Many ts \<Rightarrow> Inl TypeError)"

text \<open>
  What \<^verbatim>\<open>YOLOv3Head.__init__\<close> reads for the head named \<open>name\<close>, in the order in
  which it reads it: the head's own entry, its anchors by its mask (a mask entry outside
  the anchor table raises here), then the \<^verbatim>\<open>net\<close> entry.
\<close>

definition head_config_of :: "(string \<times> layer_option) list \<Rightarrow> string \<Rightarrow> error + head_config" where
  "head_config_of config name =
     (case map_of config name of
        None \<Rightarrow> Inl KeyError
      | Some own \<Rightarrow>
          (case map_err (py_index (opt_anchors own)) (opt_mask own) of
             Inl e \<Rightarrow> Inl e
           | Inr sel \<Rightarrow>
               (case map_of config ''net'' of
                  None \<Rightarrow> Inl KeyError
                | Some net \<Rightarrow>
                    Inr \<lparr> cfg_anchors = opt_anchors own, cfg_mask = opt_mask own,
                          cfg_scale_x_y = opt_scale_x_y own,
                          net_width = opt_width net, net_height = opt_height net \<rparr>)))"

text \<open>
  One round of the loop of \<^verbatim>\<open>YOLOv4Model.__init__\<close>; the state is the regularizer
  \<^verbatim>\<open>_l2\<close> and the list \<^verbatim>\<open>_model_layers\<close>.
\<close>

definition init_step :: "'a layer_lib \<Rightarrow> (string \<times> layer_option) list \<Rightarrow> string \<times> layer_option
    \<Rightarrow> real option \<times> 'a layer_fn list \<Rightarrow> error + real option \<times> 'a layer_fn list" where
  "init_step lib config item st =
     (case (item, st) of ((layer_name, layer_option), (l2, ml)) \<Rightarrow>
        if opt_type layer_option = ''convolutional'' then
          Inr (l2, ml @ [YOLOConv2D lib (opt_activation layer_option) (opt_filters layer_option) l2
                           layer_name (opt_pad layer_option) (opt_size layer_option)
                           (opt_stride layer_option)])
        else if opt_type layer_option = ''route'' then
          (case opt_groups layer_option of
             Some groups \<Rightarrow> Inr (l2, ml @ [split_layer lib groups (opt_group_id layer_option)])
           | None \<Rightarrow>
               if length (opt_layers layer_option) = 1 then Inr (l2, ml @ [identity_layer])
               else Inr (l2, ml @ [Concatenate lib layer_name]))
        else if opt_type layer_option = ''shortcut'' then Inr (l2, ml @ [Add lib layer_name])
        else if opt_type layer_option = ''maxpool'' then
          Inr (l2, ml @ [MaxPooling2D lib layer_name (opt_size layer_option)
                           (opt_stride layer_option)])
        else if opt_type layer_option = ''upsample'' then
          Inr (l2, ml @ [UpSampling2D lib layer_name])
        else if opt_type layer_option = ''yolo'' then
          bind_err (head_config_of config layer_name) (\<lambda>hc.
          bind_err (YOLOv3Head_init hc) (\<lambda>h. Inr (l2, ml @ [head_layer lib h])))
        else if opt_type layer_option = ''net'' then
          (case map_of config ''net'' of
             None \<Rightarrow> Inl KeyError
           | Some net \<Rightarrow> Inr (Some (opt_decay net), ml))
        else Inr (l2, ml))"

fun init_loop :: "'a layer_lib \<Rightarrow> (string \<times> layer_option) list \<Rightarrow> (string \<times> layer_option) list
    \<Rightarrow> real option \<times> 'a layer_fn list \<Rightarrow> error + real option \<times> 'a layer_fn list" where
  "init_loop lib config [] st = Inr st"
| "init_loop lib config (item # items) st =
     bind_err (init_step lib config item st) (init_loop lib config items)"

definition YOLOv4Model_init :: "'a layer_lib \<Rightarrow> (string \<times> layer_option) list \<Rightarrow> error + 'a model" where
  "YOLOv4Model_init lib config =
     bind_err (init_loop lib config config (None, [])) (\<lambda>(l2, ml).
       Inr \<lparr> model_config = config, model_layers = ml \<rparr>)"

text \<open>
  One round of the loop of \<^verbatim>\<open>YOLOv4Model.call\<close>; the state is the pair of the lists
  \<^verbatim>\<open>output\<close> and \<^verbatim>\<open>return_val\<close>.
\<close>

definition layer_step :: "'a layer_fn list \<Rightarrow> 'a \<Rightarrow> layer_option \<Rightarrow> 'a list \<times> 'a list
    \<Rightarrow> error + 'a list \<times> 'a list" where
  "layer_step ml x layer_option st =
     (case st of (output, return_val) \<Rightarrow>
        let layer_number = opt_count layer_option in
        if layer_number = - 1 then Inr (output, return_val)
        else
          bind_err (py_index ml layer_number) (\<lambda>layer_function.
            if opt_type layer_option = ''route'' then
              (if opt_groups layer_option \<noteq> None then
                 bind_err (py_index (opt_layers layer_option) 0) (\<lambda>index.
                 bind_err (py_index output index) (\<lambda>src.
                 bind_err (layer_function (One src)) (\<lambda>r. Inr (output @ [r], return_val))))
               else if length (opt_layers layer_option) = 1 then
                 bind_err (py_index (opt_layers layer_option) 0) (\<lambda>index.
                 bind_err (py_index output index) (\<lambda>src.
                 bind_err (layer_function (One src)) (\<lambda>r. Inr (output @ [r], return_val))))
               else
                 bind_err (map_err (py_index output) (opt_layers layer_option)) (\<lambda>srcs.
                 bind_err (layer_function (Many srcs)) (\<lambda>r. Inr (output @ [r], return_val))))
            else if opt_type layer_option = ''shortcut'' then
              bind_err (py_index output (layer_number - 1)) (\<lambda>prev.
              bind_err (map_err (py_index output) (opt_from layer_option)) (\<lambda>srcs.
              bind_err (layer_function (Many (prev # srcs))) (\<lambda>r.
                Inr (output @ [r], return_val))))
            else
              bind_err (if layer_number = 0 then layer_function (One x)
                        else bind_err (py_index output (layer_number - 1)) (\<lambda>prev.
                               layer_function (One prev))) (\<lambda>r.
                if opt_type layer_option = ''yolo'' then
                  bind_err (py_index (output @ [r]) layer_number) (\<lambda>y.
                    Inr (output @ [r], return_val @ [y]))
                else Inr (output @ [r], return_val))))"

fun run_layers :: "'a layer_fn list \<Rightarrow> 'a \<Rightarrow> layer_option list \<Rightarrow> 'a list \<times> 'a list
    \<Rightarrow> error + 'a list \<times> 'a list" where
  "run_layers ml x [] st = Inr st"
| "run_layers ml x (layer_option # rest) st =
     bind_err (layer_step ml x layer_option st) (run_layers ml x rest)"

definition YOLOv4Model_call :: "'a model \<Rightarrow> 'a \<Rightarrow> error + 'a list" where
  "YOLOv4Model_call m x =
     bind_err (run_layers (model_layers m) x (map snd (model_config m)) ([], []))
       (\<lambda>(output, return_val). Inr return_val)"

text \<open>The detection-head entries of a configuration that the walk executes.\<close>

definition executed_heads :: "layer_option list \<Rightarrow> layer_option list" where
  "executed_heads opts =
     filter (\<lambda>layer_option. opt_count layer_option \<noteq> - 1 \<and> opt_type layer_option = ''yolo'') opts"

text \<open>
  The same entries with their names.  An entry builds a layer when \<^verbatim>\<open>__init__\<close> appends
  to \<^verbatim>\<open>_model_layers\<close> for it.  A configuration is \<open>numbered\<close> from \<open>k\<close> when the entries
  that build a layer carry the counts \<open>k\<close>, \<open>k + 1\<close>, ... in the order of declaration
  and every other entry carries the count -1: then \<^verbatim>\<open>layer_number\<close> addresses the layer
  of an entry in \<^verbatim>\<open>_model_layers\<close> and its result in \<^verbatim>\<open>output\<close>.
\<close>

definition head_items :: "(string \<times> layer_option) list \<Rightarrow> (string \<times> layer_option) list" where
  "head_items config =
     filter (\<lambda>(layer_name, layer_option).
               opt_count layer_option \<noteq> - 1 \<and> opt_type layer_option = ''yolo'') config"





text \<open>
  The configuration in which the \<^verbatim>\<open>layers\<close> list of every route with groups is cut
  down to its first entry; every other entry is left as it is.
\<close>

definition trim_grouped :: "layer_option \<Rightarrow> layer_option" where
  "trim_grouped layer_option =
     (if opt_type layer_option = ''route'' \<and> opt_groups layer_option \<noteq> None
      then layer_option \<lparr> opt_layers := take 1 (opt_layers layer_option) \<rparr>
      else layer_option)"

definition trim_config :: "(string \<times> layer_option) list \<Rightarrow> (string \<times> layer_option) list" where
  "trim_config config = map (\<lambda>(name, layer_option). (name, trim_grouped layer_option)) config"

section \<open>The tflite front end: reshape and concatenate\<close>

text \<open>
  \<^verbatim>\<open>YOLOv4.predict\<close> reads the output tensors of the interpreter as numpy arrays of
  whatever rank the compiled model gives them.  An array is its shape and its entries
  in row-major order.
\<close>

record ndarray =
  shape :: "nat list"
  entries :: "real list"

definition wf_ndarray :: "ndarray \<Rightarrow> bool" where
  "wf_ndarray a = (length (entries a) = prod_list (shape a))"

text \<open>\<^verbatim>\<open>a[0]\<close>: the first slice along the first axis.\<close>

definition np_first :: "ndarray \<Rightarrow> error + ndarray" where
  "np_first a =
     (case shape a of
        [] \<Rightarrow> Inl IndexError
      | n # rest \<Rightarrow>
          if n = 0 then Inl IndexError
          else Inr \<lparr> shape = rest, entries = take (prod_list rest) (entries a) \<rparr>)"

text \<open>\<^verbatim>\<open>np.reshape(a, (1, n, -1))\<close>.\<close>

definition np_reshape_1_n_rest :: "ndarray \<Rightarrow> nat \<Rightarrow> error + ndarray" where
  "np_reshape_1_n_rest a n =
     (let total = prod_list (shape a)
      in if n = 0 \<or> total mod n \<noteq> 0 then Inl ShapeError
         else Inr \<lparr> shape = [1, n, total div n], entries = entries a \<rparr>)"


text \<open>
  The body of the loop over \<^verbatim>\<open>candidates\<close> in \<^verbatim>\<open>predict\<close>:
  \<^verbatim>\<open>grid_size = candidate.shape[1]\<close>, then
  \<^verbatim>\<open>np.reshape(candidate[0], (1, grid_size * grid_size * 3, -1))\<close>.
\<close>

definition predict_reshape :: "ndarray \<Rightarrow> error + ndarray" where
  "predict_reshape candidate =
     bind_err (py_index (shape candidate) 1) (\<lambda>grid_size.
     bind_err (np_first candidate) (\<lambda>first.
       np_reshape_1_n_rest first (grid_size * grid_size * 3)))"


section \<open>Concrete heads and inputs of the examples\<close>

text \<open>
  The head of the end-to-end scenario of the specification (anchors (10,13), (16,30),
  (33,23), \<^verbatim>\<open>scale_x_y = 1.0\<close>, image size 416 by 416), the same head built for one
  grid cell with five channels per anchor, a raw tensor of that shape, and the all-zero
  raw tensor of shape (1, 2, 2, 255).
\<close>

definition scenario_config :: head_config where
  "scenario_config = \<lparr> cfg_anchors = [(10, 13), (16, 30), (33, 23)], cfg_mask = [0, 1, 2],
                        cfg_scale_x_y = 1, net_width = 416, net_height = 416 \<rparr>"

definition scenario_head :: head where
  "scenario_head = \<lparr> anchors = [(10, 13), (16, 30), (33, 23)],
                      inver_image_wh = (1 / 416, 1 / 416), scale_x_y = 1 \<rparr>"

definition one_cell_head :: built_head where
  "one_cell_head = head.extend scenario_head
     \<lparr> grid_coord = [[(0, 0)]], inver_grid_wh = (1, 1), return_shape = (1, 5) \<rparr>"

definition one_cell_raw :: tensor4 where
  "one_cell_raw = [[[[1, - 1, 2, 0, 3, 0, 2, - 2, 1, 0, - 1, 0, 0, 3, 1]]]]"

definition zero_raw :: tensor4 where
  "zero_raw = [replicate 2 (replicate 2 (replicate 255 0))]"

text \<open>Further raw tensors: two cells of six channels, one cell of thirty channels whose
  second half is \<open>one_cell_raw\<close>, and one cell of sixteen channels.\<close>

definition two_cell_raw :: tensor4 where
  "two_cell_raw = [[[[1, 2, 3, 4, 5, 6], [7, 8, 9, 10, 11, 12]]]]"

definition two_group_raw :: tensor4 where
  "two_group_raw = [[[[0, 0, 0, 0, 0, 0, 0, 0, 0, 0, 0, 0, 0, 0, 0,
                       1, - 1, 2, 0, 3, 0, 2, - 2, 1, 0, - 1, 0, 0, 3, 1]]]]"

definition sixteen_channel_raw :: tensor4 where
  "sixteen_channel_raw = [[[replicate 16 0]]]"

text \<open>A raw tensor of one cell with fifteen channels whose first entry is \<open>-30\<close>.\<close>

definition saturated_raw :: tensor4 where
  "saturated_raw = [[[[- 30, 0, 0, 0, 0, 0, 0, 0, 0, 0, 0, 0, 0, 0, 0]]]]"

text \<open>The all-zero raw tensor of one cell with fifteen channels.\<close>

definition zero_cell_raw :: tensor4 where
  "zero_cell_raw = [[[[0, 0, 0, 0, 0, 0, 0, 0, 0, 0, 0, 0, 0, 0, 0]]]]"

text \<open>The decoded output of \<open>one_cell_raw\<close>, and a head built for one grid cell.\<close>

definition one_cell_decoded :: tensor3 where
  "one_cell_decoded =
     [[[sigmoid 1, sigmoid (- 1), exp 2 * 10 / 416, 13 / 416, sigmoid 3],
       [sigmoid 0, sigmoid 2, exp (- 2) * 16 / 416, exp 1 * 30 / 416, sigmoid 0],
       [sigmoid (- 1), sigmoid 0, 33 / 416, exp 3 * 23 / 416, sigmoid 1]]]"

definition one_cell_geometry :: "head \<Rightarrow> nat \<Rightarrow> built_head" where
  "one_cell_geometry h K = head.extend h
     \<lparr> grid_coord = [[(0, 0)]], inver_grid_wh = (1, 1), return_shape = (1, K) \<rparr>"

text \<open>Heads with four and with two anchors.\<close>

definition four_anchor_config :: head_config where
  "four_anchor_config = \<lparr> cfg_anchors = [(10, 13), (16, 30), (33, 23), (30, 61)],
       cfg_mask = [0, 1, 2, 3], cfg_scale_x_y = 1, net_width = 416, net_height = 416 \<rparr>"

definition four_anchor_head :: head where
  "four_anchor_head = \<lparr> anchors = [(10, 13), (16, 30), (33, 23), (30, 61)],
       inver_image_wh = (1 / 416, 1 / 416), scale_x_y = 1 \<rparr>"

definition two_anchor_head :: head where
  "two_anchor_head = \<lparr> anchors = [(10, 13), (16, 30)],
       inver_image_wh = (1 / 416, 1 / 416), scale_x_y = 1 \<rparr>"

text \<open>
  A small layer library and two small graphs.  The stand-in convolution passes its input
  through; \<open>keras_head\<close> builds the head for the shape of its input and calls it, as
  Keras does at the first call of a layer; \<open>shape4\<close> is the shape of a non-empty tensor.
\<close>

definition plain_option :: layer_option where
  "plain_option = \<lparr> opt_type = [], opt_count = - 1, opt_activation = [], opt_filters = 0,
       opt_pad = 0, opt_size = 0, opt_stride = 0, opt_groups = None, opt_group_id = 0,
       opt_layers = [], opt_from = [], opt_anchors = [], opt_mask = [], opt_scale_x_y = 1,
       opt_width = 0, opt_height = 0, opt_decay = 0 \<rparr>"

definition shape4 :: "tensor4 \<Rightarrow> nat \<times> nat \<times> nat \<times> nat" where
  "shape4 x = (length x, length (hd x), length (hd (hd x)), length (hd (hd (hd x))))"

definition keras_head :: "head \<Rightarrow> (tensor4 + tensor3) layer_fn" where
  "keras_head h a =
     (case a of
        One (Inl x) \<Rightarrow>
          bind_err (YOLOv3Head_build h (shape4 x)) (\<lambda>g.
          bind_err (YOLOv3Head_call g x) (\<lambda>out. Inr (Inr out)))
      | _ \<Rightarrow> Inl TypeError)"

definition keras_split :: "int \<Rightarrow> int \<Rightarrow> (tensor4 + tensor3) layer_fn" where
  "keras_split groups group_id a =
     (case a of
        One (Inl x) \<Rightarrow> bind_err (split_and_get groups group_id x) (\<lambda>part. Inr (Inl part))
      | _ \<Rightarrow> Inl TypeError)"

definition example_lib :: "(tensor4 + tensor3) layer_lib" where
  "example_lib = \<lparr> YOLOConv2D = (\<lambda>activation filters l2 name pad size stride. identity_layer),
       Concatenate = (\<lambda>name a. Inl TypeError),
       Add = (\<lambda>name a. Inl TypeError),
       MaxPooling2D = (\<lambda>name size stride. identity_layer),
       UpSampling2D = (\<lambda>name. identity_layer),
       split_layer = keras_split,
       head_layer = keras_head \<rparr>"

definition net_item :: "string \<times> layer_option" where
  "net_item = (''net'', plain_option \<lparr> opt_type := ''net'', opt_width := 416, opt_height := 416 \<rparr>)"

definition conv_item :: "string \<times> layer_option" where
  "conv_item = (''convolutional_0'', plain_option \<lparr> opt_type := ''convolutional'', opt_count := 0 \<rparr>)"

definition yolo_item :: "string \<Rightarrow> int \<Rightarrow> string \<times> layer_option" where
  "yolo_item name n = (name, plain_option \<lparr> opt_type := ''yolo'', opt_count := n,
       opt_anchors := [(10, 13), (16, 30), (33, 23)], opt_mask := [0, 1, 2] \<rparr>)"


definition grouped_route :: layer_option where
  "grouped_route = plain_option \<lparr> opt_type := ''route'', opt_count := 1, opt_groups := Some 2,
                                  opt_group_id := 1, opt_layers := [0, 5, 7] \<rparr>"

definition grouped_config :: "(string \<times> layer_option) list" where
  "grouped_config = [net_item, conv_item, (''route_1'', grouped_route), yolo_item ''yolo_2'' 2]"


text \<open>Output arrays of the interpreter, for the tflite front end.\<close>

definition square_candidate :: ndarray where
  "square_candidate = \<lparr> shape = [1, 2, 2, 3, 1], entries = [1, 2, 3, 4, 5, 6, 7, 8, 9, 10, 11, 12] \<rparr>"

definition wide_candidate :: ndarray where
  "wide_candidate = \<lparr> shape = [1, 1, 2, 3, 1], entries = [1, 2, 3, 4, 5, 6] \<rparr>"

definition tall_candidate :: ndarray where
  "tall_candidate = \<lparr> shape = [1, 2, 1, 3, 1], entries = [1, 2, 3, 4, 5, 6] \<rparr>"


section \<open>Grid geometry\<close>

lemma distinct_concat_rows:
  assumes "\<And>i j. i < n \<Longrightarrow> j < n \<Longrightarrow> i \<noteq> j \<Longrightarrow> set (f i) \<inter> set (f j) = {}"
    and "\<And>i. i < n \<Longrightarrow> distinct (f i)"
  shows "distinct (concat (map f [0..<n]))"
  using assms
proof (induction n)
  case 0
  then show ?case by simp
next
  case (Suc n)
  have "distinct (concat (map f [0..<n]))"
    using Suc by simp
  moreover have "distinct (f n)"
    using Suc.prems(2) by simp
  moreover have "set (f i) \<inter> set (f n) = {}" if "i < n" for i
    using Suc.prems(1) [of i n] that by simp
  then have "set (concat (map f [0..<n])) \<inter> set (f n) = {}"
    by fastforce
  ultimately show ?case by simp
qed

lemma grid_row_distinct:
  assumes "0 < W"
  shows "distinct (map (\<lambda>x. (real x / real W, c)) [0..<W])"
proof -
  have "inj_on (\<lambda>x. (real x / real W, c)) (set [0..<W])"
    using assms by (auto simp: inj_on_def)
  then show ?thesis by (simp add: distinct_map)
qed

lemma grid_distinct:
  assumes "0 < H" "0 < W"
  shows "distinct (concat (map (\<lambda>y. map (\<lambda>x. (real x / real W, real y / real H)) [0..<W]) [0..<H]))"
proof (rule distinct_concat_rows)
  fix i j assume "i < H" "j < H" "i \<noteq> j"
  then have "real i / real H \<noteq> real j / real H"
    using assms by simp
  then show "set (map (\<lambda>x. (real x / real W, real i / real H)) [0..<W]) \<inter>
             set (map (\<lambda>x. (real x / real W, real j / real H)) [0..<W]) = {}"
    by auto
next
  fix i assume "i < H"
  show "distinct (map (\<lambda>x. (real x / real W, real i / real H)) [0..<W])"
    using assms(2) by (rule grid_row_distinct)
qed

lemma length_concat_uniform:
  assumes "\<And>r. r \<in> set xss \<Longrightarrow> length r = n"
  shows "length (concat xss) = length xss * n"
  using assms by (induction xss) auto

text \<open>
  C3.  For every grid shape with height and width at least 1, \<^verbatim>\<open>build\<close> succeeds and
  the grid table has \<open>H\<close> rows of \<open>W\<close> pairs, \<open>H * W\<close> pairs in all, the pair at row
  \<open>y\<close> and column \<open>x\<close> is \<open>(x / W, y / H)\<close>, no pair occurs twice, and the inverse
  grid size is \<open>(1 / W, 1 / H)\<close>.  The result is a function of the grid shape alone.
\<close>

theorem build_grid_geometry:
  assumes "1 \<le> H" and "1 \<le> W"
  shows "\<exists>g. YOLOv3Head_build h (B, H, W, F) = Inr g
            \<and> length (grid_coord g) = H
            \<and> (\<forall>y<H. length (grid_coord g ! y) = W
                 \<and> (\<forall>x<W. grid_coord g ! y ! x = (real x / real W, real y / real H)))
            \<and> length (concat (grid_coord g)) = H * W
            \<and> distinct (concat (grid_coord g))
            \<and> inver_grid_wh g = (1 / real W, 1 / real H)
            \<and> (\<forall>h' B' F'. \<exists>g'. YOLOv3Head_build h' (B', H, W, F') = Inr g'
                   \<and> grid_coord g' = grid_coord g \<and> inver_grid_wh g' = inver_grid_wh g)"
proof -
  have pos: "0 < H" "0 < W" using assms by simp_all
  have len: "length (concat (map (\<lambda>y. map (\<lambda>x. (real x / real W, real y / real H)) [0..<W]) [0..<H])) = H * W"
    by (subst length_concat_uniform [where n = W]) auto
  show ?thesis
    using pos len grid_distinct [OF pos]
    by (simp add: YOLOv3Head_build_def head.extend_def)
qed

theorem build_grid_geometry_witness:
  "\<exists>g. YOLOv3Head_build \<lparr> anchors = [(10, 13), (16, 30), (33, 23)],
                            inver_image_wh = (1 / 416, 1 / 416), scale_x_y = 1 \<rparr> (1, 2, 2, 255) = Inr g
       \<and> grid_coord g = [[(0, 0), (1 / 2, 0)], [(0, 1 / 2), (1 / 2, 1 / 2)]]
       \<and> distinct (concat (grid_coord g))
       \<and> inver_grid_wh g = (1 / 2, 1 / 2)"
proof -
  have h: "(1::nat) \<le> 2" by simp
  obtain g where g: "YOLOv3Head_build \<lparr> anchors = [(10, 13), (16, 30), (33, 23)],
        inver_image_wh = (1 / 416, 1 / 416), scale_x_y = 1 \<rparr> (1, 2, 2, 255) = Inr g"
    and d: "distinct (concat (grid_coord g))"
    and i: "inver_grid_wh g = (1 / real (2::nat), 1 / real (2::nat))"
    using build_grid_geometry [OF h h, of _ 1 255] by blast
  have "grid_coord g = [[(0, 0), (1 / 2, 0)], [(0, 1 / 2), (1 / 2, 1 / 2)]]"
    using g by (auto simp: YOLOv3Head_build_def head.extend_def upt_conv_Cons)
  then show ?thesis using g d i by auto
qed

section \<open>Shapes and indexing of nested-list tensors\<close>

lemma list_all_cells:
  "list_all P (cells t) = (\<forall>img\<in>set t. \<forall>row\<in>set img. \<forall>c\<in>set row. P c)"
  by (auto simp: cells_def list_all_iff)

lemma wf_grid_iff:
  "wf_grid B H W t \<longleftrightarrow>
     length t = B \<and> (\<forall>b<B. length (t ! b) = H \<and> (\<forall>y<H. length (t ! b ! y) = W))"
  by (auto simp: wf_grid_def list_all_length)

lemma wf_grid_length: "wf_grid B H W t \<Longrightarrow> length t = B"
  by (simp add: wf_grid_iff)

lemma wf_grid_length_img: "wf_grid B H W t \<Longrightarrow> b < B \<Longrightarrow> length (t ! b) = H"
  by (simp add: wf_grid_iff)

lemma wf_grid_length_row: "wf_grid B H W t \<Longrightarrow> b < B \<Longrightarrow> y < H \<Longrightarrow> length (t ! b ! y) = W"
  by (simp add: wf_grid_iff)

lemma cells_all_nth:
  assumes "wf_grid B H W t"
  shows "list_all P (cells t) = (\<forall>b<B. \<forall>y<H. \<forall>x<W. P (t ! b ! y ! x))"
proof -
  have "list_all P (cells t) = list_all (list_all (list_all P)) t"
    by (auto simp: cells_def list_all_iff)
  also have "\<dots> = (\<forall>b<B. \<forall>y<H. \<forall>x<W. P (t ! b ! y ! x))"
    using assms by (auto simp: list_all_length wf_grid_iff)
  finally show ?thesis .
qed

lemma tensor_eqI:
  assumes "wf_grid B H W s" and "wf_grid B H W t"
    and "\<And>b y x. b < B \<Longrightarrow> y < H \<Longrightarrow> x < W \<Longrightarrow> s ! b ! y ! x = t ! b ! y ! x"
  shows "s = t"
  using assms by (auto simp: wf_grid_iff intro!: nth_equalityI)

lemma wf_grid_tmap [simp]: "wf_grid B H W (tmap f t) = wf_grid B H W t"
  by (auto simp: wf_grid_iff tmap_def)

lemma tmap_nth:
  "wf_grid B H W t \<Longrightarrow> b < B \<Longrightarrow> y < H \<Longrightarrow> x < W \<Longrightarrow> tmap f t ! b ! y ! x = f (t ! b ! y ! x)"
  by (simp add: wf_grid_iff tmap_def)

lemma tmap_tmap: "tmap f (tmap g t) = tmap (f \<circ> g) t"
  by (simp add: tmap_def)

lemma wf_grid_zip_cells:
  "wf_grid B H W s \<Longrightarrow> wf_grid B H W t \<Longrightarrow> wf_grid B H W (zip_cells f s t)"
  by (auto simp: wf_grid_iff zip_cells_def)

lemma zip_cells_nth:
  "wf_grid B H W s \<Longrightarrow> wf_grid B H W t \<Longrightarrow> b < B \<Longrightarrow> y < H \<Longrightarrow> x < W \<Longrightarrow>
     zip_cells f s t ! b ! y ! x = f (s ! b ! y ! x) (t ! b ! y ! x)"
  by (simp add: wf_grid_iff zip_cells_def)

lemma same_grid_wf: "wf_grid B H W s \<Longrightarrow> wf_grid B H W t \<Longrightarrow> same_grid s t"
  by (auto simp: same_grid_def wf_grid_iff list_all2_conv_all_nth)

lemma drop_concat_uniform:
  assumes "\<And>r. r \<in> set xss \<Longrightarrow> length r = k"
  shows "drop (i * k) (concat xss) = concat (drop i xss)"
  using assms
proof (induction xss arbitrary: i)
  case Nil
  then show ?case by simp
next
  case (Cons x xss)
  show ?case
  proof (cases i)
    case 0
    then show ?thesis by simp
  next
    case (Suc j)
    have "length x = k" using Cons.prems by simp
    then show ?thesis using Suc Cons by simp
  qed
qed

lemma chunks_concat:
  assumes "0 < k" and "\<And>r. r \<in> set xss \<Longrightarrow> length r = k"
  shows "chunks k (concat xss) = xss"
proof (rule nth_equalityI)
  have len: "length (concat xss) = length xss * k"
    using assms(2) by (rule length_concat_uniform)
  show l: "length (chunks k (concat xss)) = length xss"
    using assms(1) by (simp add: chunks_def len)
  fix i assume "i < length (chunks k (concat xss))"
  then have i: "i < length xss" using l by simp
  then obtain r rest where d: "drop i xss = r # rest"
    by (cases "drop i xss") auto
  have r: "r = xss ! i"
    using d i by (metis nth_via_drop)
  have "length r = k"
    using assms(2) i r by simp
  then have "take k (drop (i * k) (concat xss)) = r"
    using d by (simp add: drop_concat_uniform [OF assms(2)])
  then show "chunks k (concat xss) ! i = xss ! i"
    using i r assms(1) by (simp add: chunks_def len)
qed

lemma concat_concat_map: "concat (concat xsss) = concat (map concat xsss)"
  by (induction xsss) auto

lemma tf_reshape_wf:
  assumes "wf_tensor B H W K t" and "0 < K" and "0 < H * W"
  shows "tf_reshape t (H * W, K) = Inr (map concat t)"
proof -
  have g: "wf_grid B H W t" and c: "chans K t"
    using assms(1) by (simp_all add: wf_tensor_def)
  have cell_len: "\<And>r. r \<in> set (cells t) \<Longrightarrow> length r = K"
    using c by (simp add: chans_def list_all_iff)
  have img_len: "\<And>r. r \<in> set (map concat t) \<Longrightarrow> length r = H * W"
  proof -
    fix r assume "r \<in> set (map concat t)"
    then obtain img where img: "img \<in> set t" and r: "r = concat img" by auto
    have "length img = H" and "\<And>row. row \<in> set img \<Longrightarrow> length row = W"
      using g img by (auto simp: wf_grid_def list_all_iff)
    then show "length r = H * W"
      using r length_concat_uniform [of img W] by simp
  qed
  have n_cells: "length (cells t) = B * (H * W)"
    using length_concat_uniform [of "map concat t" "H * W"] img_len g
    by (simp add: cells_def concat_concat_map wf_grid_length)
  have flat_len: "length (concat (cells t)) = B * (H * W) * K"
    using length_concat_uniform [of "cells t" K] cell_len n_cells by simp
  have c1: "chunks K (concat (cells t)) = cells t"
    using assms(2) cell_len by (rule chunks_concat)
  have c2: "chunks (H * W) (cells t) = map concat t"
    unfolding cells_def concat_concat_map using assms(3) img_len by (rule chunks_concat)
  show ?thesis
    using assms(2,3) by (simp add: tf_reshape_def Let_def flat_len c1 c2)
qed

lemma tf_split_wf:
  assumes "wf_tensor B H W (n * K) t" and "0 < n"
  shows "tf_split n t = Inr (map (\<lambda>j. tmap (chunk_at n j) t) [0..<n])"
proof -
  have "list_all (\<lambda>c. length c mod n = 0) (cells t)"
    using assms(1) by (auto simp: wf_tensor_def chans_def list_all_iff)
  then show ?thesis using assms(2) by (simp add: tf_split_def)
qed

lemma chans_nth:
  "wf_tensor B H W C t \<Longrightarrow> b < B \<Longrightarrow> y < H \<Longrightarrow> x < W \<Longrightarrow> length (t ! b ! y ! x) = C"
proof -
  assume a: "wf_tensor B H W C t" and b: "b < B" "y < H" "x < W"
  have g: "wf_grid B H W t" and c: "list_all (\<lambda>c. length c = C) (cells t)"
    using a by (simp_all add: wf_tensor_def chans_def)
  show ?thesis
    using c b unfolding cells_all_nth [OF g] by blast
qed

lemma wf_tensor_tmap:
  assumes "wf_tensor B H W C t" and "\<And>c. length c = C \<Longrightarrow> length (f c) = D"
  shows "wf_tensor B H W D (tmap f t)"
proof -
  have g: "wf_grid B H W t" using assms(1) by (simp add: wf_tensor_def)
  show ?thesis
    using assms g chans_nth [OF assms(1)]
    by (simp add: wf_tensor_def chans_def cells_all_nth [where B = B and H = H and W = W] tmap_nth)
qed

lemma length_chunk_at:
  "length c = n * K \<Longrightarrow> 0 < n \<Longrightarrow> j < n \<Longrightarrow> length (chunk_at n j c) = K"
proof -
  assume a: "length c = n * K" "0 < n" "j < n"
  then have "j * K + K \<le> n * K"
    by (metis Suc_leI mult_Suc mult_le_mono1 add.commute)
  then show ?thesis using a by (simp add: chunk_at_def)
qed

lemma tf_split_2_2_rest_wf:
  assumes "wf_tensor B H W K t" and "4 \<le> K"
  shows "tf_split_2_2_rest t = Inr (tmap (take 2) t, tmap (\<lambda>c. take 2 (drop 2 c)) t, tmap (drop 4) t)"
proof -
  have "list_all (\<lambda>c. 4 \<le> length c) (cells t)"
    using assms by (auto simp: wf_tensor_def chans_def list_all_iff)
  then show ?thesis by (simp add: tf_split_2_2_rest_def)
qed

lemma map2_cong_nth:
  assumes "length xs = length ys"
    and "\<And>i. i < length xs \<Longrightarrow> f (xs ! i) (ys ! i) = g (xs ! i) (ys ! i)"
  shows "map2 f xs ys = map2 g xs ys"
  using assms by (intro nth_equalityI) simp_all

lemma bcast_same_length: "length xs = length ys \<Longrightarrow> bcast f xs ys = map2 f xs ys"
  by (simp add: bcast_def)

lemma add_grid_wf:
  assumes "wf_grid B H W xy" and "length grid = H" and "\<And>y. y < H \<Longrightarrow> length (grid ! y) = W"
  shows "add_grid xy grid =
           Inr (map (\<lambda>img. map2 (map2 (\<lambda>v g. map2 (+) v [fst g, snd g])) img grid) xy)"
proof -
  have img: "length img = H \<and> (\<forall>y<H. length (img ! y) = W)" if "img \<in> set xy" for img
    using assms(1) that by (auto simp: wf_grid_def list_all_iff list_all_length)
  have rows: "length row = W" if "img \<in> set xy" and "row \<in> set img" for img row
    using img [OF that(1)] that(2) by (auto simp: in_set_conv_nth)
  have grows: "length g = W" if "g \<in> set grid" for g
    using assms(2,3) that by (auto simp: in_set_conv_nth)
  have ok: "list_all (\<lambda>img. bcast_ok img grid
                \<and> list_all (\<lambda>row. list_all (bcast_ok row) grid) img) xy"
    unfolding list_all_iff bcast_ok_def
    using img assms(2) rows grows by simp
  have "bcast (bcast f) img grid = map2 (map2 f) img grid" if "img \<in> set xy" for img
    and f :: "real list \<Rightarrow> real \<times> real \<Rightarrow> real list"
  proof -
    have l: "length img = length grid" using img [OF that] assms(2) by simp
    have "map2 (bcast f) img grid = map2 (map2 f) img grid"
      using l img [OF that] assms(2,3) by (intro map2_cong_nth) (simp_all add: bcast_same_length)
    then show ?thesis using l by (simp add: bcast_same_length)
  qed
  then show ?thesis using ok by (simp add: add_grid_def)
qed

lemma add_grid_nth:
  assumes "wf_grid B H W xy" and "length grid = H" and "\<And>y. y < H \<Longrightarrow> length (grid ! y) = W"
    and "b < B" "y < H" "x < W"
  shows "map (\<lambda>img. map2 (map2 f) img grid) xy ! b ! y ! x = f (xy ! b ! y ! x) (grid ! y ! x)"
  using assms by (simp add: wf_grid_iff)

lemma add_grid_wf_grid:
  assumes "wf_grid B H W xy" and "length grid = H" and "\<And>y. y < H \<Longrightarrow> length (grid ! y) = W"
  shows "wf_grid B H W (map (\<lambda>img. map2 (map2 f) img grid) xy)"
  using assms by (simp add: wf_grid_iff)

lemma tf_concat_last3:
  assumes "wf_grid B H W a" "wf_grid B H W b" "wf_grid B H W c"
  shows "tf_concat_last [a, b, c] = Inr (zip_cells (@) a (zip_cells (@) b c))"
  using assms by (simp add: same_grid_wf wf_grid_zip_cells)

lemma nth_concat_uniform:
  assumes "\<And>r. r \<in> set xss \<Longrightarrow> length r = n" and "i < length xss" and "j < n"
  shows "concat xss ! (i * n + j) = xss ! i ! j"
proof -
  obtain r rest where d: "drop i xss = r # rest"
    using assms(2) by (cases "drop i xss") auto
  have r: "r = xss ! i" using d assms(2) by (metis nth_via_drop)
  have lr: "length r = n" using r assms(1,2) by simp
  have "i * n + j < length (concat xss)"
  proof -
    have "i * n + j < Suc i * n" using assms(3) by simp
    also have "\<dots> \<le> length xss * n" using assms(2) by (metis Suc_leI mult_le_mono1)
    finally show ?thesis using length_concat_uniform [of xss n] assms(1) by simp
  qed
  then have "concat xss ! (i * n + j) = drop (i * n) (concat xss) ! j"
    by simp
  also have "\<dots> = concat (drop i xss) ! j"
    using assms(1) by (simp add: drop_concat_uniform)
  also have "\<dots> = r ! j"
    using d lr assms(3) by (simp add: nth_append)
  finally show ?thesis using r by simp
qed

lemma length_remdups_const:
  assumes "\<And>v. v \<in> set xs \<Longrightarrow> v = k"
  shows "length (remdups xs) \<le> 1"
proof -
  have "set xs \<subseteq> {k}" using assms by auto
  then have "card (set xs) \<le> card {k}" by (intro card_mono) auto
  then show ?thesis by (simp add: length_remdups_card_conv)
qed

lemma take2_nth: "2 \<le> length xs \<Longrightarrow> take 2 xs = [xs ! 0, xs ! 1]"
  by (cases xs; cases "tl xs") auto

lemma chunk_at_map: "chunk_at n j (map f c) = map f (chunk_at n j c)"
  by (simp add: chunk_at_def take_map drop_map)

lemma fits_rows: "fits h H W K \<Longrightarrow> y < H \<Longrightarrow> length (grid_coord h ! y) = W"
  by (simp add: fits_def list_all_length)

lemma cell_decode:
  assumes "length raw = K" and "4 \<le> K"
  shows "map2 (+) (map2 (*) (map s (take 2 (map sigmoid raw))) [iw, ih]) [gx, gy]
         @ map2 (*) (map2 (*) (map exp (take 2 (drop 2 raw))) [aw, ah]) [mw, mh]
         @ drop 4 (map sigmoid raw)
       = [s (sigmoid (raw ! 0)) * iw + gx, s (sigmoid (raw ! 1)) * ih + gy,
          exp (raw ! 2) * aw * mw, exp (raw ! 3) * ah * mh] @ map sigmoid (drop 4 raw)"
proof -
  have a: "take 2 (map sigmoid raw) = [sigmoid (raw ! 0), sigmoid (raw ! 1)]"
    using assms by (simp add: take2_nth)
  have b: "take 2 (drop 2 raw) = [raw ! 2, raw ! 3]"
    using assms by (simp add: take2_nth numeral_3_eq_3)
  show ?thesis by (simp add: a b drop_map)
qed

lemma length_decode_box:
  assumes "length c = 3 * K" and "4 \<le> K" and "i < 3"
  shows "length (decode_box h i cy cx c) = K"
proof -
  have "length (chunk_at 3 i c) = K"
    using assms by (simp add: length_chunk_at)
  then show ?thesis using assms(2) by (simp add: decode_box_def Let_def)
qed

lemma head_anchor_decodes:
  assumes x: "wf_tensor B H W (3 * K) x" and K: "4 \<le> K" and HW: "0 < H" "0 < W"
    and f: "fits h H W K" and i: "i < 3" and a: "i < length (anchors h)"
  shows "\<exists>T. head_anchor h (map (\<lambda>j. tmap (chunk_at 3 j) x) [0..<3])
                 (map (\<lambda>j. tmap (chunk_at 3 j) (tmap (map sigmoid) x)) [0..<3]) i
               = Inr (map concat T)
             \<and> wf_tensor B H W K T
             \<and> (\<forall>b<B. \<forall>y<H. \<forall>x'<W. T ! b ! y ! x' = decode_box h i y x' (x ! b ! y ! x'))"
proof -
  define raw where "raw = tmap (chunk_at 3 i) x"
  define sg where "sg = tmap (chunk_at 3 i) (tmap (map sigmoid) x)"
  define s where "s = (\<lambda>v. if scale_x_y h \<noteq> 1 then (v - 0.5) * scale_x_y h + 0.5 else v)"
  have g: "wf_grid B H W x" using x by (simp add: wf_tensor_def)
  have raw_wf: "wf_tensor B H W K raw"
    unfolding raw_def using x i by (intro wf_tensor_tmap [OF x]) (simp add: length_chunk_at)
  have sg_eq: "sg = tmap (map sigmoid) raw"
    by (simp add: sg_def raw_def tmap_tmap chunk_at_map comp_def)
  have sg_wf: "wf_tensor B H W K sg"
    unfolding sg_eq by (intro wf_tensor_tmap [OF raw_wf]) simp
  have sel_raw: "map (\<lambda>j. tmap (chunk_at 3 j) x) [0..<3] ! i = raw"
    using i by (simp add: raw_def del: upt_Suc)
  have sel_sg: "map (\<lambda>j. tmap (chunk_at 3 j) (tmap (map sigmoid) x)) [0..<3] ! i = sg"
    using i by (simp add: sg_def del: upt_Suc)
  define xy0 where "xy0 = tmap (take 2) sg"
  define xy1 where "xy1 = mul_pair (tmap (map s) xy0) (inver_grid_wh h)"
  define xy2 where "xy2 = map (\<lambda>img. map2 (map2 (\<lambda>v g. map2 (+) v [fst g, snd g])) img (grid_coord h)) xy1"
  define wh where "wh = mul_pair (mul_pair (tmap (map exp) (tmap (\<lambda>c. take 2 (drop 2 c)) raw)) (anchors h ! i)) (inver_image_wh h)"
  define oc where "oc = tmap (drop 4) sg"
  define T where "T = zip_cells (@) xy2 (zip_cells (@) wh oc)"
  have rg: "wf_grid B H W raw" and sgg: "wf_grid B H W sg"
    using raw_wf sg_wf by (simp_all add: wf_tensor_def)
  have scale: "(if scale_x_y h \<noteq> 1 then tmap (map (\<lambda>v. (v - 0.5) * scale_x_y h + 0.5)) xy0 else xy0)
                 = tmap (map s) xy0"
    by (simp add: s_def tmap_def)
  have xy1g: "wf_grid B H W xy1"
    using sgg by (simp add: xy1_def xy0_def mul_pair_def)
  have gl: "length (grid_coord h) = H" using f by (simp add: fits_def)
  have add: "add_grid xy1 (grid_coord h) = Inr xy2"
    unfolding xy2_def using xy1g gl fits_rows [OF f] by (rule add_grid_wf)
  have xy2g: "wf_grid B H W xy2"
    unfolding xy2_def using xy1g gl fits_rows [OF f] by (rule add_grid_wf_grid)
  have whg: "wf_grid B H W wh" using rg by (simp add: wh_def mul_pair_def)
  have ocg: "wf_grid B H W oc" using sgg by (simp add: oc_def)
  have cat: "tf_concat_last [xy2, wh, oc] = Inr T"
    unfolding T_def using xy2g whg ocg by (rule tf_concat_last3)
  have Tg: "wf_grid B H W T"
    unfolding T_def by (intro wf_grid_zip_cells xy2g whg ocg)
  have idx: "py_index (anchors h) (int i) = Inr (anchors h ! i)"
    using a by (simp add: py_index_def)
  have cell: "T ! b ! y ! x' = decode_box h i y x' (x ! b ! y ! x')"
    if b: "b < B" "y < H" "x' < W" for b y x'
  proof -
    define c where "c = x ! b ! y ! x'"
    define r where "r = chunk_at 3 i c"
    have lc: "length c = 3 * K" unfolding c_def using x b by (rule chans_nth)
    have lr: "length r = K" unfolding r_def using lc i by (simp add: length_chunk_at)
    have r_eq: "raw ! b ! y ! x' = r"
      unfolding raw_def r_def c_def using g b by (rule tmap_nth)
    have s_eq: "sg ! b ! y ! x' = map sigmoid r"
      unfolding sg_eq using rg b r_eq by (simp add: tmap_nth)
    have "T ! b ! y ! x' = xy2 ! b ! y ! x' @ wh ! b ! y ! x' @ oc ! b ! y ! x'"
      unfolding T_def using xy2g whg ocg b
      by (simp add: zip_cells_nth [where B = B and H = H and W = W] wf_grid_zip_cells)
    moreover have "xy2 ! b ! y ! x' = map2 (+) (xy1 ! b ! y ! x') [fst (grid_coord h ! y ! x'), snd (grid_coord h ! y ! x')]"
      unfolding xy2_def using xy1g gl fits_rows [OF f] b by (rule add_grid_nth)
    moreover have "xy1 ! b ! y ! x' = map2 (*) (map s (take 2 (map sigmoid r))) [fst (inver_grid_wh h), snd (inver_grid_wh h)]"
      using sgg b s_eq by (simp add: xy1_def xy0_def mul_pair_def tmap_nth)
    moreover have "wh ! b ! y ! x' = map2 (*) (map2 (*) (map exp (take 2 (drop 2 r))) [fst (anchors h ! i), snd (anchors h ! i)]) [fst (inver_image_wh h), snd (inver_image_wh h)]"
      using rg b by (simp add: wh_def mul_pair_def tmap_nth flip: r_eq)
    moreover have "oc ! b ! y ! x' = drop 4 (map sigmoid r)"
      using sgg b s_eq by (simp add: oc_def tmap_nth)
    ultimately have "T ! b ! y ! x' =
        [s (sigmoid (r ! 0)) * fst (inver_grid_wh h) + fst (grid_coord h ! y ! x'),
         s (sigmoid (r ! 1)) * snd (inver_grid_wh h) + snd (grid_coord h ! y ! x'),
         exp (r ! 2) * fst (anchors h ! i) * fst (inver_image_wh h),
         exp (r ! 3) * snd (anchors h ! i) * snd (inver_image_wh h)] @ map sigmoid (drop 4 r)"
      using cell_decode [OF lr K] by simp
    then show ?thesis
      by (simp add: decode_box_def Let_def s_def r_def c_def)
  qed
  have Tc: "chans K T"
  proof -
    have "length (T ! b ! y ! x') = K" if "b < B" "y < H" "x' < W" for b y x'
      using cell [OF that] length_decode_box [OF chans_nth [OF x that] K i] by simp
    then show ?thesis by (simp add: chans_def cells_all_nth [OF Tg])
  qed
  have Twf: "wf_tensor B H W K T" using Tg Tc by (simp add: wf_tensor_def)
  have rs: "return_shape h = (H * W, K)" using f by (simp add: fits_def)
  have resh: "tf_reshape T (return_shape h) = Inr (map concat T)"
    unfolding rs using Twf K HW by (intro tf_reshape_wf) simp_all
  have s1: "tf_split_2_2_rest sg = Inr (xy0, tmap (\<lambda>c. take 2 (drop 2 c)) sg, oc)"
    unfolding xy0_def oc_def using sg_wf K by (rule tf_split_2_2_rest_wf)
  have s2: "tf_split_2_2_rest raw = Inr (tmap (take 2) raw, tmap (\<lambda>c. take 2 (drop 2 c)) raw, tmap (drop 4) raw)"
    using raw_wf K by (rule tf_split_2_2_rest_wf)
  have "head_anchor h (map (\<lambda>j. tmap (chunk_at 3 j) x) [0..<3])
          (map (\<lambda>j. tmap (chunk_at 3 j) (tmap (map sigmoid) x)) [0..<3]) i = Inr (map concat T)"
    apply (simp only: head_anchor_def sel_raw sel_sg s1 s2 bind_err_def sum.case prod.case Let_def scale)
    apply (simp only: xy1_def [symmetric] wh_def [symmetric] add sum.case idx cat resh)
    done
  then show ?thesis using Twf cell by blast
qed

lemma map_err_all_ok:
  assumes "\<And>v. v \<in> set xs \<Longrightarrow> f v = Inr (g v)"
  shows "map_err f xs = Inr (map g xs)"
  using assms by (induction xs) simp_all

lemma cell_index_bound: "y < H \<Longrightarrow> x < W \<Longrightarrow> y * W + x < H * (W::nat)"
proof -
  assume a: "y < H" "x < W"
  then have "y * W + x < Suc y * W" by simp
  also have "\<dots> \<le> H * W" using a(1) by (metis Suc_leI mult_le_mono1)
  finally show ?thesis .
qed

lemma tf_concat_axis1_uniform:
  assumes "ts \<noteq> []" and "\<And>t. t \<in> set ts \<Longrightarrow> length t = B"
    and "\<And>t img r. t \<in> set ts \<Longrightarrow> img \<in> set t \<Longrightarrow> r \<in> set img \<Longrightarrow> length r = K"
  shows "tf_concat_axis1 ts = Inr (map (\<lambda>b. concat (map (\<lambda>u. u ! b) ts)) [0..<B])"
proof -
  obtain t us where ts: "ts = t # us" using assms(1) by (cases ts) auto
  have "length (remdups (map length (concat (concat ts)))) \<le> 1"
    using assms(3) by (intro length_remdups_const [where k = K]) auto
  moreover have "list_all (\<lambda>u. length u = length t) us"
    using assms(2) ts by (auto simp: list_all_iff)
  moreover have "length t = B" using assms(2) ts by simp
  ultimately show ?thesis by (simp add: tf_concat_axis1_def ts)
qed

lemma call_decodes:
  assumes x: "wf_tensor B H W (3 * K) x" and K: "4 \<le> K" and HW: "0 < H" "0 < W"
    and f: "fits h H W K" and a: "3 \<le> length (anchors h)"
  shows "\<exists>out. YOLOv3Head_call h x = Inr out \<and> length out = B
           \<and> (\<forall>b<B. length (out ! b) = 3 * (H * W)
                \<and> (\<forall>i<3. \<forall>y<H. \<forall>x'<W.
                      out ! b ! (i * (H * W) + (y * W + x')) = decode_box h i y x' (x ! b ! y ! x')))"
proof -
  define RS where "RS = map (\<lambda>j. tmap (chunk_at 3 j) x) [0..<3]"
  define SS where "SS = map (\<lambda>j. tmap (chunk_at 3 j) (tmap (map sigmoid) x)) [0..<3]"
  have sx: "wf_tensor B H W (3 * K) (tmap (map sigmoid) x)"
    by (intro wf_tensor_tmap [OF x]) simp
  have r: "tf_split 3 x = Inr RS"
    unfolding RS_def using x by (intro tf_split_wf) simp_all
  have s: "tf_split 3 (tmap (map sigmoid) x) = Inr SS"
    unfolding SS_def using sx by (intro tf_split_wf) simp_all
  have "\<forall>i. \<exists>T. i < 3 \<longrightarrow> head_anchor h RS SS i = Inr (map concat T) \<and> wf_tensor B H W K T
           \<and> (\<forall>b<B. \<forall>y<H. \<forall>x'<W. T ! b ! y ! x' = decode_box h i y x' (x ! b ! y ! x'))"
    unfolding RS_def SS_def using head_anchor_decodes [OF x K HW f] a by fastforce
  then obtain Tf where Tf: "\<And>i. i < 3 \<Longrightarrow> head_anchor h RS SS i = Inr (map concat (Tf i))"
      "\<And>i. i < 3 \<Longrightarrow> wf_tensor B H W K (Tf i)"
      "\<And>i b y x'. i < 3 \<Longrightarrow> b < B \<Longrightarrow> y < H \<Longrightarrow> x' < W \<Longrightarrow>
           Tf i ! b ! y ! x' = decode_box h i y x' (x ! b ! y ! x')"
    by metis
  define ts where "ts = map (\<lambda>i. map concat (Tf i)) [0..<3]"
  have loop: "map_err (head_anchor h RS SS) [0..<3] = Inr ts"
    unfolding ts_def using Tf(1) by (intro map_err_all_ok) simp
  have Tg: "wf_grid B H W (Tf i)" if "i < 3" for i
    using Tf(2) [OF that] by (simp add: wf_tensor_def)
  have img_len: "length (concat (Tf i ! b)) = H * W" if "i < 3" "b < B" for i b
  proof -
    have "length (Tf i ! b) = H" using Tg that by (simp add: wf_grid_iff)
    moreover have "\<And>row. row \<in> set (Tf i ! b) \<Longrightarrow> length row = W"
      using Tg [OF that(1)] that(2) by (auto simp: wf_grid_iff in_set_conv_nth)
    ultimately show ?thesis using length_concat_uniform [of "Tf i ! b" W] by simp
  qed
  have box_len: "length r = K" if "i < 3" "img \<in> set (Tf i)" "r \<in> set (concat img)" for i img r
  proof -
    have "r \<in> set (cells (Tf i))" using that by (auto simp: cells_def)
    then show ?thesis using Tf(2) [OF that(1)] by (simp add: wf_tensor_def chans_def list_all_iff)
  qed
  have cat: "tf_concat_axis1 ts = Inr (map (\<lambda>b. concat (map (\<lambda>u. u ! b) ts)) [0..<B])"
  proof (rule tf_concat_axis1_uniform [where K = K])
    show "ts \<noteq> []" by (simp add: ts_def)
    show "length t = B" if "t \<in> set ts" for t
      using that Tg by (auto simp: ts_def wf_grid_iff)
    show "length r = K" if "t \<in> set ts" "img \<in> set t" "r \<in> set img" for t img r
      using that box_len by (auto simp: ts_def)
  qed
  define out where "out = map (\<lambda>b. concat (map (\<lambda>u. u ! b) ts)) [0..<B]"
  have call: "YOLOv3Head_call h x = Inr out"
    by (simp add: YOLOv3Head_call_def r s loop cat bind_err_def out_def)
  have ob: "out ! b = concat (map (\<lambda>i. concat (Tf i ! b)) [0..<3])" if "b < B" for b
  proof -
    have "map (\<lambda>u. u ! b) ts = map (\<lambda>i. concat (Tf i ! b)) [0..<3]"
      using that Tg by (simp add: ts_def wf_grid_iff del: upt_Suc)
    then show ?thesis using that by (simp add: out_def)
  qed
  have rows: "length r = H * W" if "r \<in> set (map (\<lambda>i. concat (Tf i ! b)) [0..<3])" "b < B" for r b
    using that img_len by auto
  have len_b: "length (out ! b) = 3 * (H * W)" if "b < B" for b
    using length_concat_uniform [of "map (\<lambda>i. concat (Tf i ! b)) [0..<3]" "H * W"] rows that
    by (simp add: ob del: upt_Suc)
  have box: "out ! b ! (i * (H * W) + (y * W + x')) = decode_box h i y x' (x ! b ! y ! x')"
    if "b < B" "i < 3" "y < H" "x' < W" for b i y x'
  proof -
    have "out ! b ! (i * (H * W) + (y * W + x')) = map (\<lambda>i. concat (Tf i ! b)) [0..<3] ! i ! (y * W + x')"
      unfolding ob [OF that(1)]
      using rows that cell_index_bound [OF that(3,4)]
      by (intro nth_concat_uniform) (simp_all del: upt_Suc)
    also have "\<dots> = concat (Tf i ! b) ! (y * W + x')"
      using that by (simp del: upt_Suc)
    also have "\<dots> = Tf i ! b ! y ! x'"
      using Tg [OF that(2)] that
      by (intro nth_concat_uniform) (auto simp: wf_grid_iff in_set_conv_nth)
    finally show ?thesis using Tf(3) that by simp
  qed
  have "length out = B" by (simp add: out_def)
  then show ?thesis using call len_b box by blast
qed

section \<open>The decoder in closed form\<close>

lemma sigmoid_pos: "0 < sigmoid v"
  by (simp add: sigmoid_def add_pos_pos)

lemma sigmoid_less_1: "sigmoid v < 1"
proof -
  have "1 < 1 + exp (- v)" by simp
  then show ?thesis unfolding sigmoid_def by (simp add: add_pos_pos)
qed

lemma build_succeeds:
  assumes "0 < H" and "0 < W"
  shows "\<exists>g. YOLOv3Head_build h (B, H, W, F) = Inr g"
  using assms by (simp add: YOLOv3Head_build_def)

lemma build_result:
  assumes "YOLOv3Head_build h (B, H, W, F) = Inr g"
  shows "0 < H" and "0 < W" and "fits g H W (F div 3)"
    and "anchors g = anchors h" and "inver_image_wh g = inver_image_wh h"
    and "scale_x_y g = scale_x_y h"
    and "inver_grid_wh g = (1 / real W, 1 / real H)"
    and "\<And>y x. y < H \<Longrightarrow> x < W \<Longrightarrow> grid_coord g ! y ! x = (real x / real W, real y / real H)"
  using assms
  by (auto simp: YOLOv3Head_build_def head.extend_def fits_def list_all_iff split: if_splits)

lemma box_index_split:
  assumes "j < 3 * (H * (W::nat))"
  shows "\<exists>i y x. i < 3 \<and> y < H \<and> x < W \<and> j = i * (H * W) + (y * W + x)"
proof -
  have "H * W \<noteq> 0"
  proof
    assume "H * W = 0"
    then show False using assms by (metis mult_0_right not_less0)
  qed
  then have W: "0 < W" and HW: "0 < H * W" by simp_all
  define i where "i = j div (H * W)"
  define r where "r = j mod (H * W)"
  have j: "j = i * (H * W) + r"
    unfolding i_def r_def by (simp only: div_mult_mod_eq)
  have r: "r < H * W" unfolding r_def using HW by (rule mod_less_divisor)
  have i: "i < 3" unfolding i_def using assms by (rule less_mult_imp_div_less)
  have y: "r div W < H" using r by (rule less_mult_imp_div_less)
  have x: "r mod W < W" using W by (rule mod_less_divisor)
  have "j = i * (H * W) + (r div W * W + r mod W)"
    using j by (simp only: div_mult_mod_eq)
  with i y x show ?thesis by blast
qed

lemma map_err_Inr:
  assumes "map_err f xs = Inr ys"
  shows "length ys = length xs \<and> (\<forall>i<length xs. f (xs ! i) = Inr (ys ! i))"
  using assms
proof (induction xs arbitrary: ys)
  case Nil
  then show ?case by simp
next
  case (Cons x xs)
  from Cons.prems obtain y ys' where y: "f x = Inr y" and r: "map_err f xs = Inr ys'"
    and ys: "ys = y # ys'"
    by (auto split: sum.splits)
  have "length ys' = length xs \<and> (\<forall>i<length xs. f (xs ! i) = Inr (ys' ! i))"
    using Cons.IH [OF r] .
  then show ?case using y ys by (auto simp: nth_Cons split: nat.splits)
qed

lemma init_result:
  assumes "YOLOv3Head_init config = Inr h"
  shows "length (anchors h) = length (cfg_mask config)"
    and "\<And>i. i < length (cfg_mask config) \<Longrightarrow>
           py_index (cfg_anchors config) (cfg_mask config ! i) = Inr (anchors h ! i)"
    and "inver_image_wh h = (1 / real_of_int (net_width config), 1 / real_of_int (net_height config))"
    and "scale_x_y h = cfg_scale_x_y config"
    and "net_width config \<noteq> 0" and "net_height config \<noteq> 0"
proof -
  from assms obtain sel where sel: "map_err (py_index (cfg_anchors config)) (cfg_mask config) = Inr sel"
    and nz: "net_width config \<noteq> 0 \<and> net_height config \<noteq> 0"
    and h: "h = \<lparr> anchors = sel,
                  inver_image_wh = (1 / real_of_int (net_width config), 1 / real_of_int (net_height config)),
                  scale_x_y = cfg_scale_x_y config \<rparr>"
    by (auto simp: YOLOv3Head_init_def split: sum.splits if_splits)
  show "length (anchors h) = length (cfg_mask config)"
    using map_err_Inr [OF sel] h by simp
  show "py_index (cfg_anchors config) (cfg_mask config ! i) = Inr (anchors h ! i)"
    if "i < length (cfg_mask config)" for i
    using map_err_Inr [OF sel] h that by simp
  show "inver_image_wh h = (1 / real_of_int (net_width config), 1 / real_of_int (net_height config))"
    and "scale_x_y h = cfg_scale_x_y config" and "net_width config \<noteq> 0" and "net_height config \<noteq> 0"
    using h nz by simp_all
qed

lemma chunk_at_take_drop: "length c = n * K \<Longrightarrow> 0 < n \<Longrightarrow> chunk_at n i c = take K (drop (i * K) c)"
  by (simp add: chunk_at_def)

lemma head_pipeline:
  assumes init: "YOLOv3Head_init config = Inr h"
    and build: "YOLOv3Head_build h (B', H, W, 3 * K) = Inr g"
    and x: "wf_tensor B H W (3 * K) x"
    and K: "4 \<le> K" and m: "3 \<le> length (cfg_mask config)"
  shows "\<exists>out. YOLOv3Head_call g x = Inr out \<and> length out = B
     \<and> (\<forall>b<B. length (out ! b) = 3 * (H * W)
          \<and> (\<forall>i<3. \<forall>cy<H. \<forall>cx<W.
                out ! b ! (i * (H * W) + (cy * W + cx)) =
                  (let raw = take K (drop (i * K) (x ! b ! cy ! cx));
                       s = (\<lambda>v. if cfg_scale_x_y config \<noteq> 1
                                 then (sigmoid v - 0.5) * cfg_scale_x_y config + 0.5
                                 else sigmoid v)
                   in [s (raw ! 0) * (1 / real W) + real cx / real W,
                       s (raw ! 1) * (1 / real H) + real cy / real H,
                       exp (raw ! 2) * fst (anchors h ! i) * (1 / real_of_int (net_width config)),
                       exp (raw ! 3) * snd (anchors h ! i) * (1 / real_of_int (net_height config))]
                      @ map sigmoid (drop 4 raw))))"
proof -
  note b = build_result [OF build]
  note i = init_result [OF init]
  have f: "fits g H W K" using b(3) by simp
  have a: "3 \<le> length (anchors g)" using b(4) i(1) m by simp
  obtain out where out: "YOLOv3Head_call g x = Inr out" "length out = B"
    and len: "\<And>b. b < B \<Longrightarrow> length (out ! b) = 3 * (H * W)"
    and box: "\<And>b i y x'. b < B \<Longrightarrow> i < 3 \<Longrightarrow> y < H \<Longrightarrow> x' < W \<Longrightarrow>
        out ! b ! (i * (H * W) + (y * W + x')) = decode_box g i y x' (x ! b ! y ! x')"
    using call_decodes [OF x K b(1,2) f a] by blast
  have "decode_box g i cy cx (x ! b ! cy ! cx) =
          (let raw = take K (drop (i * K) (x ! b ! cy ! cx));
               s = (\<lambda>v. if cfg_scale_x_y config \<noteq> 1
                         then (sigmoid v - 0.5) * cfg_scale_x_y config + 0.5
                         else sigmoid v)
           in [s (raw ! 0) * (1 / real W) + real cx / real W,
               s (raw ! 1) * (1 / real H) + real cy / real H,
               exp (raw ! 2) * fst (anchors h ! i) * (1 / real_of_int (net_width config)),
               exp (raw ! 3) * snd (anchors h ! i) * (1 / real_of_int (net_height config))]
              @ map sigmoid (drop 4 raw))"
    if "b < B" "i < 3" "cy < H" "cx < W" for b i cy cx
  proof -
    have "length (x ! b ! cy ! cx) = 3 * K"
      using x that(1,3,4) by (rule chans_nth)
    then have c: "chunk_at 3 i (x ! b ! cy ! cx) = take K (drop (i * K) (x ! b ! cy ! cx))"
      by (simp add: chunk_at_take_drop)
    show ?thesis
      unfolding decode_box_def c Let_def
      by (simp add: b(4,5,6,7) b(8) [OF that(3,4)] i(3,4))
  qed
  then show ?thesis using out len box by auto
qed

lemma cells_tmap: "cells (tmap f t) = map f (cells t)"
  by (simp add: cells_def tmap_def map_concat)

lemma map_err_cong:
  assumes "\<And>v. v \<in> set xs \<Longrightarrow> f v = g v"
  shows "map_err f xs = map_err g xs"
  using assms
proof (induction xs)
  case Nil
  then show ?case by simp
next
  case (Cons a xs)
  have "f a = g a" and "map_err f xs = map_err g xs"
    using Cons by simp_all
  then show ?case by (simp split: sum.splits)
qed

lemma tf_split_2_2_rest_tmap:
  "tf_split_2_2_rest (tmap (map f) t) =
     (case tf_split_2_2_rest t of
        Inl e \<Rightarrow> Inl e
      | Inr (a, b, c) \<Rightarrow> Inr (tmap (map f) a, tmap (map f) b, tmap (map f) c))"
  by (simp add: tf_split_2_2_rest_def cells_tmap list_all_iff tmap_tmap comp_def take_map drop_map)

lemma tf_split_tmap:
  "tf_split n (tmap (map f) x) =
     (case tf_split n x of Inl e \<Rightarrow> Inl e | Inr parts \<Rightarrow> Inr (map (tmap (map f)) parts))"
  by (simp add: tf_split_def cells_tmap list_all_iff tmap_tmap comp_def chunk_at_map)

lemma tf_split_length: "tf_split n x = Inr parts \<Longrightarrow> length parts = n"
  by (auto simp: tf_split_def split: if_splits)

lemma head_anchor_single_split_eq:
  assumes "i < length raw_split"
  shows "head_anchor h raw_split (map (tmap (map sigmoid)) raw_split) i
           = head_anchor_single_split h raw_split i"
proof (cases "tf_split_2_2_rest (raw_split ! i)")
  case (Inl e)
  then show ?thesis
    using assms
    by (simp add: head_anchor_def head_anchor_single_split_def bind_err_def tf_split_2_2_rest_tmap)
next
  case (Inr p)
  obtain a b c where p: "p = (a, b, c)" by (cases p) auto
  show ?thesis
    using assms Inr p
    by (simp add: head_anchor_def head_anchor_single_split_def bind_err_def tf_split_2_2_rest_tmap Let_def)
qed

lemma call_single_split_eq:
  "YOLOv3Head_call_single_split h x = YOLOv3Head_call h x"
proof (cases "tf_split 3 x")
  case (Inl e)
  then show ?thesis
    by (simp add: YOLOv3Head_call_single_split_def YOLOv3Head_call_def bind_err_def)
next
  case (Inr rs)
  have l: "length rs = 3" using Inr by (rule tf_split_length)
  have "map_err (head_anchor h rs (map (tmap (map sigmoid)) rs)) [0..<3]
          = map_err (head_anchor_single_split h rs) [0..<3]"
    using l by (intro map_err_cong head_anchor_single_split_eq) simp
  then show ?thesis
    using Inr
    by (simp add: YOLOv3Head_call_single_split_def YOLOv3Head_call_def bind_err_def tf_split_tmap)
qed

section \<open>The decoder at concrete inputs\<close>

lemmas eval_defs = bind_err_def tf_split_def tf_split_2_2_rest_def
  cells_def tmap_def chunk_at_def mul_pair_def add_grid_def bcast_ok_def bcast_def
  same_grid_def zip_cells_def tf_reshape_def chunks_def tf_concat_axis1_def py_index_def Let_def
  upt_conv_Cons

lemma scenario_init: "YOLOv3Head_init scenario_config = Inr scenario_head"
  by (simp add: YOLOv3Head_init_def scenario_config_def scenario_head_def py_index_def)

lemma one_cell_build: "YOLOv3Head_build scenario_head (1, 1, 1, 15) = Inr one_cell_head"
  by (simp add: YOLOv3Head_build_def one_cell_head_def)

lemma one_cell_call:
  "YOLOv3Head_call one_cell_head one_cell_raw =
     Inr [[[sigmoid 1, sigmoid (- 1), exp 2 * 10 / 416, 13 / 416, sigmoid 3],
           [sigmoid 0, sigmoid 2, exp (- 2) * 16 / 416, exp 1 * 30 / 416, sigmoid 0],
           [sigmoid (- 1), sigmoid 0, 33 / 416, exp 3 * 23 / 416, sigmoid 1]]]"
  by (simp add: YOLOv3Head_call_def head_anchor_def eval_defs one_cell_head_def scenario_head_def
      head.extend_def one_cell_raw_def)

lemma one_cell_single:
  "YOLOv3Head_call_single_split one_cell_head one_cell_raw =
     Inr [[[sigmoid 1, sigmoid (- 1), exp 2 * 10 / 416, 13 / 416, sigmoid 3],
           [sigmoid 0, sigmoid 2, exp (- 2) * 16 / 416, exp 1 * 30 / 416, sigmoid 0],
           [sigmoid (- 1), sigmoid 0, 33 / 416, exp 3 * 23 / 416, sigmoid 1]]]"
  by (simp add: YOLOv3Head_call_single_split_def head_anchor_single_split_def eval_defs one_cell_head_def scenario_head_def
      head.extend_def one_cell_raw_def)

lemma one_cell_conflated:
  "YOLOv3Head_call_conflated one_cell_head one_cell_raw =
     Inr [[[sigmoid 1, sigmoid (- 1), exp (sigmoid 2) * 10 / 416, exp (sigmoid 0) * 13 / 416, sigmoid 3],
           [sigmoid 0, sigmoid 2, exp (sigmoid (- 2)) * 16 / 416, exp (sigmoid 1) * 30 / 416, sigmoid 0],
           [sigmoid (- 1), sigmoid 0, exp (sigmoid 0) * 33 / 416, exp (sigmoid 3) * 23 / 416, sigmoid 1]]]"
  by (simp add: YOLOv3Head_call_conflated_def head_anchor_conflated_def eval_defs one_cell_head_def scenario_head_def
      head.extend_def one_cell_raw_def)

lemma one_cell_wf: "wf_tensor 1 1 1 (3 * 5) one_cell_raw"
  by (simp add: wf_tensor_def wf_grid_def chans_def cells_def one_cell_raw_def)

lemma zero_raw_wf: "wf_tensor 1 2 2 255 zero_raw"
  by (simp add: wf_tensor_def wf_grid_def chans_def cells_def zero_raw_def list_all_iff)

section \<open>Properties of the decoder\<close>

lemma built_pipeline:
  assumes build: "YOLOv3Head_build h (B', H, W, 3 * K) = Inr g"
    and x: "wf_tensor B H W (3 * K) x"
    and K: "4 \<le> K" and a: "3 \<le> length (anchors h)"
  shows "\<exists>out. YOLOv3Head_call g x = Inr out \<and> length out = B
     \<and> (\<forall>b<B. length (out ! b) = 3 * (H * W)
          \<and> (\<forall>i<3. \<forall>cy<H. \<forall>cx<W.
                out ! b ! (i * (H * W) + (cy * W + cx)) =
                  (let raw = take K (drop (i * K) (x ! b ! cy ! cx));
                       s = (\<lambda>v. if scale_x_y h \<noteq> 1
                                 then (sigmoid v - 0.5) * scale_x_y h + 0.5
                                 else sigmoid v)
                   in [s (raw ! 0) * (1 / real W) + real cx / real W,
                       s (raw ! 1) * (1 / real H) + real cy / real H,
                       exp (raw ! 2) * fst (anchors h ! i) * fst (inver_image_wh h),
                       exp (raw ! 3) * snd (anchors h ! i) * snd (inver_image_wh h)]
                      @ map sigmoid (drop 4 raw))))"
proof -
  note b = build_result [OF build]
  have f: "fits g H W K" using b(3) by simp
  have a': "3 \<le> length (anchors g)" using b(4) a by simp
  obtain out where out: "YOLOv3Head_call g x = Inr out" "length out = B"
    and len: "\<And>b. b < B \<Longrightarrow> length (out ! b) = 3 * (H * W)"
    and box: "\<And>b i y x'. b < B \<Longrightarrow> i < 3 \<Longrightarrow> y < H \<Longrightarrow> x' < W \<Longrightarrow>
        out ! b ! (i * (H * W) + (y * W + x')) = decode_box g i y x' (x ! b ! y ! x')"
    using call_decodes [OF x K b(1,2) f a'] by blast
  have "decode_box g i cy cx (x ! b ! cy ! cx) =
          (let raw = take K (drop (i * K) (x ! b ! cy ! cx));
               s = (\<lambda>v. if scale_x_y h \<noteq> 1
                         then (sigmoid v - 0.5) * scale_x_y h + 0.5
                         else sigmoid v)
           in [s (raw ! 0) * (1 / real W) + real cx / real W,
               s (raw ! 1) * (1 / real H) + real cy / real H,
               exp (raw ! 2) * fst (anchors h ! i) * fst (inver_image_wh h),
               exp (raw ! 3) * snd (anchors h ! i) * snd (inver_image_wh h)]
              @ map sigmoid (drop 4 raw))"
    if "b < B" "i < 3" "cy < H" "cx < W" for b i cy cx
  proof -
    have "length (x ! b ! cy ! cx) = 3 * K"
      using x that(1,3,4) by (rule chans_nth)
    then have c: "chunk_at 3 i (x ! b ! cy ! cx) = take K (drop (i * K) (x ! b ! cy ! cx))"
      by (simp add: chunk_at_take_drop)
    show ?thesis
      unfolding decode_box_def c Let_def
      by (simp add: b(4,5,6,7) b(8) [OF that(3,4)])
  qed
  then show ?thesis using out len box by auto
qed

lemma raw_block_length:
  assumes "length c = 3 * K" and "i < 3"
  shows "length (take K (drop (i * K) c)) = K"
  using length_chunk_at [of c 3 K i] chunk_at_take_drop [of c 3 K i] assms by simp

text \<open>
  C5.  For a head with \<^verbatim>\<open>scale_x_y = 1.0\<close> built for the grid of its input, every
  decoded x and y lies in \<open>[0, 1]\<close>: the value is a sigmoid output, strictly between
  0 and 1, times the inverse grid size plus the grid coordinate of its cell, so
  \<open>cx / W \<le> x \<le> (cx + 1) / W \<le> 1\<close>, and likewise for y.
\<close>

theorem decoded_xy_in_unit_interval:
  assumes s: "scale_x_y h = 1" and a: "3 \<le> length (anchors h)"
    and build: "YOLOv3Head_build h (B', H, W, 3 * K) = Inr g"
    and x: "wf_tensor B H W (3 * K) x" and K: "4 \<le> K"
  shows "\<exists>out. YOLOv3Head_call g x = Inr out \<and> length out = B
     \<and> (\<forall>b<B. length (out ! b) = 3 * (H * W)
          \<and> (\<forall>j<3 * (H * W). 0 \<le> out ! b ! j ! 0 \<and> out ! b ! j ! 0 \<le> 1
                              \<and> 0 \<le> out ! b ! j ! 1 \<and> out ! b ! j ! 1 \<le> 1)
          \<and> (\<forall>i<3. \<forall>cy<H. \<forall>cx<W.
                real cx / real W \<le> out ! b ! (i * (H * W) + (cy * W + cx)) ! 0
              \<and> out ! b ! (i * (H * W) + (cy * W + cx)) ! 0 \<le> (real cx + 1) / real W
              \<and> (real cx + 1) / real W \<le> 1
              \<and> real cy / real H \<le> out ! b ! (i * (H * W) + (cy * W + cx)) ! 1
              \<and> out ! b ! (i * (H * W) + (cy * W + cx)) ! 1 \<le> (real cy + 1) / real H
              \<and> (real cy + 1) / real H \<le> 1))"
proof -
  have HW: "0 < H" "0 < W" using build_result(1,2) [OF build] .
  obtain out where out: "YOLOv3Head_call g x = Inr out" "length out = B"
    and len: "\<And>b. b < B \<Longrightarrow> length (out ! b) = 3 * (H * W)"
    and box: "\<And>b i cy cx. b < B \<Longrightarrow> i < 3 \<Longrightarrow> cy < H \<Longrightarrow> cx < W \<Longrightarrow>
        out ! b ! (i * (H * W) + (cy * W + cx)) =
          (let raw = take K (drop (i * K) (x ! b ! cy ! cx));
               s = (\<lambda>v. if scale_x_y h \<noteq> 1
                         then (sigmoid v - 0.5) * scale_x_y h + 0.5
                         else sigmoid v)
           in [s (raw ! 0) * (1 / real W) + real cx / real W,
               s (raw ! 1) * (1 / real H) + real cy / real H,
               exp (raw ! 2) * fst (anchors h ! i) * fst (inver_image_wh h),
               exp (raw ! 3) * snd (anchors h ! i) * snd (inver_image_wh h)]
              @ map sigmoid (drop 4 raw))"
    using built_pipeline [OF build x K a] by blast
  have cell: "real cx / real W \<le> out ! b ! (i * (H * W) + (cy * W + cx)) ! 0
              \<and> out ! b ! (i * (H * W) + (cy * W + cx)) ! 0 \<le> (real cx + 1) / real W
              \<and> (real cx + 1) / real W \<le> 1
              \<and> real cy / real H \<le> out ! b ! (i * (H * W) + (cy * W + cx)) ! 1
              \<and> out ! b ! (i * (H * W) + (cy * W + cx)) ! 1 \<le> (real cy + 1) / real H
              \<and> (real cy + 1) / real H \<le> 1"
    if t: "b < B" "i < 3" "cy < H" "cx < W" for b i cy cx
  proof -
    define r where "r = take K (drop (i * K) (x ! b ! cy ! cx))"
    have e0: "out ! b ! (i * (H * W) + (cy * W + cx)) ! 0 = sigmoid (r ! 0) * (1 / real W) + real cx / real W"
      and e1: "out ! b ! (i * (H * W) + (cy * W + cx)) ! 1 = sigmoid (r ! 1) * (1 / real H) + real cy / real H"
      using box [OF t] s by (simp_all add: Let_def r_def)
    have p0: "0 < sigmoid (r ! 0)" "sigmoid (r ! 0) < 1" and p1: "0 < sigmoid (r ! 1)" "sigmoid (r ! 1) < 1"
      by (simp_all add: sigmoid_pos sigmoid_less_1)
    have w: "0 < real W" and hh: "0 < real H" using HW by simp_all
    have "sigmoid (r ! 0) * (1 / real W) + real cx / real W = (sigmoid (r ! 0) + real cx) / real W"
      by (simp add: add_divide_distrib)
    moreover have "real cx / real W \<le> (sigmoid (r ! 0) + real cx) / real W"
      using p0 w by (intro divide_right_mono) simp_all
    moreover have "(sigmoid (r ! 0) + real cx) / real W \<le> (real cx + 1) / real W"
      using p0 w by (intro divide_right_mono) simp_all
    moreover have "(real cx + 1) / real W \<le> 1"
      using t(4) w by simp
    moreover have "sigmoid (r ! 1) * (1 / real H) + real cy / real H = (sigmoid (r ! 1) + real cy) / real H"
      by (simp add: add_divide_distrib)
    moreover have "real cy / real H \<le> (sigmoid (r ! 1) + real cy) / real H"
      using p1 hh by (intro divide_right_mono) simp_all
    moreover have "(sigmoid (r ! 1) + real cy) / real H \<le> (real cy + 1) / real H"
      using p1 hh by (intro divide_right_mono) simp_all
    moreover have "(real cy + 1) / real H \<le> 1"
      using t(3) hh by simp
    ultimately show ?thesis using e0 e1 by simp
  qed
  have unit: "0 \<le> out ! b ! j ! 0 \<and> out ! b ! j ! 0 \<le> 1 \<and> 0 \<le> out ! b ! j ! 1 \<and> out ! b ! j ! 1 \<le> 1"
    if u: "b < B" "j < 3 * (H * W)" for b j
  proof -
    obtain i cy cx where d: "i < 3" "cy < H" "cx < W" "j = i * (H * W) + (cy * W + cx)"
      using box_index_split [OF u(2)] by blast
    have lo: "0 \<le> real cx / real W" "0 \<le> real cy / real H" by simp_all
    show ?thesis
      using cell [OF u(1) d(1,2,3)] lo unfolding d(4) by linarith
  qed
  show ?thesis using out len cell unit by blast
qed

lemma box_lengths:
  assumes x: "wf_tensor B H W (3 * K) x" and K: "4 \<le> K" and b: "b < B"
    and box: "\<And>i cy cx. i < 3 \<Longrightarrow> cy < H \<Longrightarrow> cx < W \<Longrightarrow>
        out ! b ! (i * (H * W) + (cy * W + cx)) =
          [p i cy cx, q i cy cx, r i cy cx, s i cy cx]
          @ map sigmoid (drop 4 (take K (drop (i * K) (x ! b ! cy ! cx))))"
    and j: "j < 3 * (H * W)"
  shows "length (out ! b ! j) = K"
proof -
  obtain i cy cx where d: "i < 3" "cy < H" "cx < W" "j = i * (H * W) + (cy * W + cx)"
    using box_index_split [OF j] by blast
  have "length (x ! b ! cy ! cx) = 3 * K" using x b d(2,3) by (rule chans_nth)
  then have "length (take K (drop (i * K) (x ! b ! cy ! cx))) = K"
    using d(1) by (rule raw_block_length)
  then show ?thesis using box [OF d(1,2,3)] K unfolding d(4) by simp
qed

text \<open>
  C2.  For a head constructed from a configuration and built for the grid of its input,
  the call succeeds with an output of shape \<open>(B, 3 * H * W, K)\<close>, and the box of
  anchor slot \<open>i\<close> at grid cell \<open>(cy, cx)\<close>, which is box number
  \<open>i * H * W + cy * W + cx\<close>, is
  \<open>x = s (sigmoid rawX) * (1 / W) + cx / W\<close>, \<open>y = s (sigmoid rawY) * (1 / H) + cy / H\<close>
  (\<open>s\<close> the optional \<^verbatim>\<open>scale_x_y\<close> step),
  \<open>w = exp rawW * anchorW * (1 / imageWidth)\<close>,
  \<open>h = exp rawH * anchorH * (1 / imageHeight)\<close>, followed by the sigmoid of the
  objectness and class channels; the anchor of slot \<open>i\<close> is the entry of the anchor
  table that mask entry \<open>i\<close> selects.  In particular, for every raw tensor of shape
  (1, 2, 2, 255), the anchors (10,13), (16,30), (33,23), \<^verbatim>\<open>scale_x_y = 1.0\<close> and image
  size 416 by 416 the output has shape (1, 12, 85) and its box 0 (cell (0,0), anchor 0)
  has x and y in \<open>[0, 1/2]\<close>, \<open>w = exp rawW * 10 / 416\<close> and
  \<open>h = exp rawH * 13 / 416\<close>.
\<close>

theorem decoded_box_formula:
  "(\<forall>config h g B' B H W K x.
      YOLOv3Head_init config = Inr h \<and> YOLOv3Head_build h (B', H, W, 3 * K) = Inr g
      \<and> wf_tensor B H W (3 * K) x \<and> 4 \<le> K \<and> 3 \<le> length (cfg_mask config) \<longrightarrow>
      (\<exists>out. YOLOv3Head_call g x = Inr out \<and> length out = B
         \<and> (\<forall>b<B. length (out ! b) = 3 * (H * W)
              \<and> (\<forall>j<3 * (H * W). length (out ! b ! j) = K)
              \<and> (\<forall>i<3. py_index (cfg_anchors config) (cfg_mask config ! i) = Inr (anchors h ! i)
                   \<and> (\<forall>cy<H. \<forall>cx<W.
                      out ! b ! (i * (H * W) + (cy * W + cx)) =
                        (let raw = take K (drop (i * K) (x ! b ! cy ! cx));
                             s = (\<lambda>v. if cfg_scale_x_y config \<noteq> 1
                                       then (sigmoid v - 0.5) * cfg_scale_x_y config + 0.5
                                       else sigmoid v)
                         in [s (raw ! 0) * (1 / real W) + real cx / real W,
                             s (raw ! 1) * (1 / real H) + real cy / real H,
                             exp (raw ! 2) * fst (anchors h ! i) * (1 / real_of_int (net_width config)),
                             exp (raw ! 3) * snd (anchors h ! i) * (1 / real_of_int (net_height config))]
                            @ map sigmoid (drop 4 raw)))))))
   \<and> (\<forall>x. wf_tensor 1 2 2 255 x \<longrightarrow>
        (\<exists>h g out. YOLOv3Head_init scenario_config = Inr h
           \<and> YOLOv3Head_build h (1, 2, 2, 255) = Inr g
           \<and> YOLOv3Head_call g x = Inr out
           \<and> length out = 1 \<and> length (out ! 0) = 12 \<and> (\<forall>j<12. length (out ! 0 ! j) = 85)
           \<and> 0 \<le> out ! 0 ! 0 ! 0 \<and> out ! 0 ! 0 ! 0 \<le> 1 / 2
           \<and> 0 \<le> out ! 0 ! 0 ! 1 \<and> out ! 0 ! 0 ! 1 \<le> 1 / 2
           \<and> out ! 0 ! 0 ! 2 = exp (x ! 0 ! 0 ! 0 ! 2) * 10 / 416
           \<and> out ! 0 ! 0 ! 3 = exp (x ! 0 ! 0 ! 0 ! 3) * 13 / 416))"
proof (intro conjI allI impI)
  fix config h g B' B H W K x
  assume asm: "YOLOv3Head_init config = Inr h \<and> YOLOv3Head_build h (B', H, W, 3 * K) = Inr g
      \<and> wf_tensor B H W (3 * K) x \<and> 4 \<le> K \<and> 3 \<le> length (cfg_mask config)"
  then have init: "YOLOv3Head_init config = Inr h"
    and build: "YOLOv3Head_build h (B', H, W, 3 * K) = Inr g"
    and x: "wf_tensor B H W (3 * K) x" and K: "4 \<le> K" and m: "3 \<le> length (cfg_mask config)"
    by simp_all
  obtain out where out: "YOLOv3Head_call g x = Inr out" "length out = B"
    and len: "\<And>b. b < B \<Longrightarrow> length (out ! b) = 3 * (H * W)"
    and box: "\<And>b i cy cx. b < B \<Longrightarrow> i < 3 \<Longrightarrow> cy < H \<Longrightarrow> cx < W \<Longrightarrow>
        out ! b ! (i * (H * W) + (cy * W + cx)) =
          (let raw = take K (drop (i * K) (x ! b ! cy ! cx));
               s = (\<lambda>v. if cfg_scale_x_y config \<noteq> 1
                         then (sigmoid v - 0.5) * cfg_scale_x_y config + 0.5
                         else sigmoid v)
           in [s (raw ! 0) * (1 / real W) + real cx / real W,
               s (raw ! 1) * (1 / real H) + real cy / real H,
               exp (raw ! 2) * fst (anchors h ! i) * (1 / real_of_int (net_width config)),
               exp (raw ! 3) * snd (anchors h ! i) * (1 / real_of_int (net_height config))]
              @ map sigmoid (drop 4 raw))"
    using head_pipeline [OF init build x K m] by blast
  have sel: "py_index (cfg_anchors config) (cfg_mask config ! i) = Inr (anchors h ! i)" if "i < 3" for i
    using init_result(2) [OF init, of i] that m by simp
  have bl: "length (out ! b ! j) = K" if "b < B" "j < 3 * (H * W)" for b j
    using x K that(1) _ that(2)
    by (rule box_lengths) (use box [OF that(1)] in \<open>simp add: Let_def\<close>)
  show "\<exists>out. YOLOv3Head_call g x = Inr out \<and> length out = B
         \<and> (\<forall>b<B. length (out ! b) = 3 * (H * W)
              \<and> (\<forall>j<3 * (H * W). length (out ! b ! j) = K)
              \<and> (\<forall>i<3. py_index (cfg_anchors config) (cfg_mask config ! i) = Inr (anchors h ! i)
                   \<and> (\<forall>cy<H. \<forall>cx<W.
                      out ! b ! (i * (H * W) + (cy * W + cx)) =
                        (let raw = take K (drop (i * K) (x ! b ! cy ! cx));
                             s = (\<lambda>v. if cfg_scale_x_y config \<noteq> 1
                                       then (sigmoid v - 0.5) * cfg_scale_x_y config + 0.5
                                       else sigmoid v)
                         in [s (raw ! 0) * (1 / real W) + real cx / real W,
                             s (raw ! 1) * (1 / real H) + real cy / real H,
                             exp (raw ! 2) * fst (anchors h ! i) * (1 / real_of_int (net_width config)),
                             exp (raw ! 3) * snd (anchors h ! i) * (1 / real_of_int (net_height config))]
                            @ map sigmoid (drop 4 raw)))))"
    using out len bl sel box by blast
next
  fix x :: tensor4
  assume x: "wf_tensor 1 2 2 255 x"
  then have x': "wf_tensor 1 2 2 (3 * 85) x" by simp
  obtain g where build: "YOLOv3Head_build scenario_head (1, 2, 2, 3 * 85) = Inr g"
    using build_succeeds [of 2 2 scenario_head 1 "3 * 85"] by auto
  have m: "3 \<le> length (cfg_mask scenario_config)" by (simp add: scenario_config_def)
  obtain out where out: "YOLOv3Head_call g x = Inr out" "length out = 1"
    and len: "\<And>b. b < 1 \<Longrightarrow> length (out ! b) = 3 * (2 * 2)"
    and box: "\<And>b i cy cx. b < 1 \<Longrightarrow> i < 3 \<Longrightarrow> cy < 2 \<Longrightarrow> cx < 2 \<Longrightarrow>
        out ! b ! (i * (2 * 2) + (cy * 2 + cx)) =
          (let raw = take 85 (drop (i * 85) (x ! b ! cy ! cx));
               s = (\<lambda>v. if cfg_scale_x_y scenario_config \<noteq> 1
                         then (sigmoid v - 0.5) * cfg_scale_x_y scenario_config + 0.5
                         else sigmoid v)
           in [s (raw ! 0) * (1 / real 2) + real cx / real 2,
               s (raw ! 1) * (1 / real 2) + real cy / real 2,
               exp (raw ! 2) * fst (anchors scenario_head ! i) * (1 / real_of_int (net_width scenario_config)),
               exp (raw ! 3) * snd (anchors scenario_head ! i) * (1 / real_of_int (net_height scenario_config))]
              @ map sigmoid (drop 4 raw))"
    using head_pipeline [OF scenario_init build x' _ m] by auto
  have bl: "length (out ! 0 ! j) = 85" if "j < 12" for j
  proof -
    have j: "j < 3 * (2 * 2)" using that by simp
    show ?thesis
      by (rule box_lengths [OF x' _ _ _ j, where b = 0]) (use box [of 0] in \<open>simp_all add: Let_def\<close>)
  qed
  have b0: "out ! 0 ! 0 =
      [sigmoid (x ! 0 ! 0 ! 0 ! 0) * (1 / 2), sigmoid (x ! 0 ! 0 ! 0 ! 1) * (1 / 2),
       exp (x ! 0 ! 0 ! 0 ! 2) * 10 * (1 / 416), exp (x ! 0 ! 0 ! 0 ! 3) * 13 * (1 / 416)]
      @ map sigmoid (drop 4 (take 85 (x ! 0 ! 0 ! 0)))"
    using box [of 0 0 0 0] by (simp add: Let_def scenario_config_def scenario_head_def)
  have s: "0 < sigmoid v \<and> sigmoid v < 1" for v
    by (simp add: sigmoid_pos sigmoid_less_1)
  have "0 \<le> out ! 0 ! 0 ! 0 \<and> out ! 0 ! 0 ! 0 \<le> 1 / 2
           \<and> 0 \<le> out ! 0 ! 0 ! 1 \<and> out ! 0 ! 0 ! 1 \<le> 1 / 2
           \<and> out ! 0 ! 0 ! 2 = exp (x ! 0 ! 0 ! 0 ! 2) * 10 / 416
           \<and> out ! 0 ! 0 ! 3 = exp (x ! 0 ! 0 ! 0 ! 3) * 13 / 416"
    using s [of "x ! 0 ! 0 ! 0 ! 0"] s [of "x ! 0 ! 0 ! 0 ! 1"] by (simp add: b0)
  then show "\<exists>h g out. YOLOv3Head_init scenario_config = Inr h
           \<and> YOLOv3Head_build h (1, 2, 2, 255) = Inr g
           \<and> YOLOv3Head_call g x = Inr out
           \<and> length out = 1 \<and> length (out ! 0) = 12 \<and> (\<forall>j<12. length (out ! 0 ! j) = 85)
           \<and> 0 \<le> out ! 0 ! 0 ! 0 \<and> out ! 0 ! 0 ! 0 \<le> 1 / 2
           \<and> 0 \<le> out ! 0 ! 0 ! 1 \<and> out ! 0 ! 0 ! 1 \<le> 1 / 2
           \<and> out ! 0 ! 0 ! 2 = exp (x ! 0 ! 0 ! 0 ! 2) * 10 / 416
           \<and> out ! 0 ! 0 ! 3 = exp (x ! 0 ! 0 ! 0 ! 3) * 13 / 416"
    using scenario_init build out len [of 0] bl by auto
qed

theorem decoded_box_formula_witness:
  "YOLOv3Head_init scenario_config = Inr scenario_head
   \<and> YOLOv3Head_build scenario_head (1, 1, 1, 3 * 5) = Inr one_cell_head
   \<and> wf_tensor 1 1 1 (3 * 5) one_cell_raw
   \<and> (\<exists>out. YOLOv3Head_call one_cell_head one_cell_raw = Inr out \<and> length out = 1
         \<and> length (out ! 0) = 3
         \<and> out ! 0 ! 0 = [sigmoid 1, sigmoid (- 1), exp 2 * 10 / 416, 13 / 416, sigmoid 3]
         \<and> out ! 0 ! 1 = [sigmoid 0, sigmoid 2, exp (- 2) * 16 / 416, exp 1 * 30 / 416, sigmoid 0]
         \<and> out ! 0 ! 2 = [sigmoid (- 1), sigmoid 0, 33 / 416, exp 3 * 23 / 416, sigmoid 1])
   \<and> wf_tensor 1 2 2 255 zero_raw
   \<and> (\<exists>h g out. YOLOv3Head_init scenario_config = Inr h
         \<and> YOLOv3Head_build h (1, 2, 2, 255) = Inr g
         \<and> YOLOv3Head_call g zero_raw = Inr out
         \<and> length out = 1 \<and> length (out ! 0) = 12
         \<and> out ! 0 ! 0 ! 2 = 10 / 416 \<and> out ! 0 ! 0 ! 3 = 13 / 416)"
proof -
  have i: "YOLOv3Head_init scenario_config = Inr scenario_head" by (rule scenario_init)
  have b: "YOLOv3Head_build scenario_head (1, 1, 1, 3 * 5) = Inr one_cell_head"
    using one_cell_build by simp
  have w: "wf_tensor 1 1 1 (3 * 5) one_cell_raw" by (rule one_cell_wf)
  have m: "3 \<le> length (cfg_mask scenario_config)" by (simp add: scenario_config_def)
  obtain out where out: "YOLOv3Head_call one_cell_head one_cell_raw = Inr out" "length out = 1"
      "length (out ! 0) = 3 * (1 * 1)"
    and box: "\<And>i. i < 3 \<Longrightarrow> out ! 0 ! (i * (1 * 1) + (0 * 1 + 0)) =
        (let raw = take 5 (drop (i * 5) (one_cell_raw ! 0 ! 0 ! 0));
             s = (\<lambda>v. if cfg_scale_x_y scenario_config \<noteq> 1
                       then (sigmoid v - 0.5) * cfg_scale_x_y scenario_config + 0.5
                       else sigmoid v)
         in [s (raw ! 0) * (1 / real 1) + real 0 / real 1,
             s (raw ! 1) * (1 / real 1) + real 0 / real 1,
             exp (raw ! 2) * fst (anchors scenario_head ! i) * (1 / real_of_int (net_width scenario_config)),
             exp (raw ! 3) * snd (anchors scenario_head ! i) * (1 / real_of_int (net_height scenario_config))]
            @ map sigmoid (drop 4 raw))"
    using decoded_box_formula [THEN conjunct1, rule_format, of scenario_config scenario_head 1 1 1 5 one_cell_head 1 one_cell_raw]
      i b w m by auto
  have "out ! 0 ! 0 = [sigmoid 1, sigmoid (- 1), exp 2 * 10 / 416, 13 / 416, sigmoid 3]"
    and "out ! 0 ! 1 = [sigmoid 0, sigmoid 2, exp (- 2) * 16 / 416, exp 1 * 30 / 416, sigmoid 0]"
    and "out ! 0 ! 2 = [sigmoid (- 1), sigmoid 0, 33 / 416, exp 3 * 23 / 416, sigmoid 1]"
    using box [of 0] box [of 1] box [of 2]
    by (simp_all add: Let_def scenario_config_def scenario_head_def one_cell_raw_def)
  then have first: "\<exists>out. YOLOv3Head_call one_cell_head one_cell_raw = Inr out \<and> length out = 1
         \<and> length (out ! 0) = 3
         \<and> out ! 0 ! 0 = [sigmoid 1, sigmoid (- 1), exp 2 * 10 / 416, 13 / 416, sigmoid 3]
         \<and> out ! 0 ! 1 = [sigmoid 0, sigmoid 2, exp (- 2) * 16 / 416, exp 1 * 30 / 416, sigmoid 0]
         \<and> out ! 0 ! 2 = [sigmoid (- 1), sigmoid 0, 33 / 416, exp 3 * 23 / 416, sigmoid 1]"
    using out by simp
  have z: "wf_tensor 1 2 2 255 zero_raw" by (rule zero_raw_wf)
  have "zero_raw ! 0 ! 0 ! 0 ! 2 = 0" and "zero_raw ! 0 ! 0 ! 0 ! 3 = 0"
    by (simp_all add: zero_raw_def)
  then have second: "\<exists>h g out. YOLOv3Head_init scenario_config = Inr h
         \<and> YOLOv3Head_build h (1, 2, 2, 255) = Inr g
         \<and> YOLOv3Head_call g zero_raw = Inr out
         \<and> length out = 1 \<and> length (out ! 0) = 12
         \<and> out ! 0 ! 0 ! 2 = 10 / 416 \<and> out ! 0 ! 0 ! 3 = 13 / 416"
    using decoded_box_formula [THEN conjunct2, rule_format, OF z] by auto
  show ?thesis using i b w first z second by blast
qed

theorem decoded_xy_in_unit_interval_witness:
  "scale_x_y scenario_head = 1 \<and> 3 \<le> length (anchors scenario_head)
   \<and> YOLOv3Head_build scenario_head (1, 1, 1, 3 * 5) = Inr one_cell_head
   \<and> wf_tensor 1 1 1 (3 * 5) one_cell_raw \<and> (4::nat) \<le> 5
   \<and> (\<exists>out. YOLOv3Head_call one_cell_head one_cell_raw = Inr out
         \<and> out ! 0 ! 0 ! 0 = sigmoid 1 \<and> 0 \<le> out ! 0 ! 0 ! 0 \<and> out ! 0 ! 0 ! 0 \<le> 1
         \<and> out ! 0 ! 0 ! 1 = sigmoid (- 1) \<and> 0 \<le> out ! 0 ! 0 ! 1 \<and> out ! 0 ! 0 ! 1 \<le> 1)"
proof -
  have s: "scale_x_y scenario_head = 1" and a: "3 \<le> length (anchors scenario_head)"
    by (simp_all add: scenario_head_def)
  have b: "YOLOv3Head_build scenario_head (1, 1, 1, 3 * 5) = Inr one_cell_head"
    using one_cell_build by simp
  have w: "wf_tensor 1 1 1 (3 * 5) one_cell_raw" by (rule one_cell_wf)
  have k: "(4::nat) \<le> 5" by simp
  obtain out where out: "YOLOv3Head_call one_cell_head one_cell_raw = Inr out"
    and u: "\<And>j. j < 3 * (1 * 1) \<Longrightarrow> 0 \<le> out ! 0 ! j ! 0 \<and> out ! 0 ! j ! 0 \<le> 1
                              \<and> 0 \<le> out ! 0 ! j ! 1 \<and> out ! 0 ! j ! 1 \<le> 1"
    using decoded_xy_in_unit_interval [OF s a b w k] by auto
  have "out ! 0 ! 0 ! 0 = sigmoid 1" and "out ! 0 ! 0 ! 1 = sigmoid (- 1)"
    using out by (auto simp: one_cell_call)
  then show ?thesis using s a b w k out u [of 0] by auto
qed

text \<open>
  C1, as amended.  The call takes x/y and the objectness and class scores from the split
  of the sigmoid-activated tensor and width/height from \<open>exp\<close> of the split of the raw
  tensor.  As sigmoid acts on each entry by itself, the result is, for every head and
  every input, equal to that of the single-split decoder that splits the raw tensor once
  and activates after splitting; it differs from the conflated decoder that takes
  width/height from the sigmoid-activated split.
\<close>

theorem dual_split_is_single_split:
  "(\<forall>h x. YOLOv3Head_call h x = YOLOv3Head_call_single_split h x)
   \<and> YOLOv3Head_call one_cell_head one_cell_raw \<noteq> YOLOv3Head_call_conflated one_cell_head one_cell_raw"
proof -
  have "sigmoid 2 \<noteq> 2" using sigmoid_less_1 [of 2] by simp
  then have "YOLOv3Head_call one_cell_head one_cell_raw \<noteq> YOLOv3Head_call_conflated one_cell_head one_cell_raw"
    by (simp add: one_cell_call one_cell_conflated)
  then show ?thesis by (simp add: call_single_split_eq)
qed

text \<open>The amended statement at the one-cell input.\<close>

theorem dual_split_is_single_split_witness:
  "YOLOv3Head_call_single_split one_cell_head one_cell_raw =
       Inr [[[sigmoid 1, sigmoid (- 1), exp 2 * 10 / 416, 13 / 416, sigmoid 3],
             [sigmoid 0, sigmoid 2, exp (- 2) * 16 / 416, exp 1 * 30 / 416, sigmoid 0],
             [sigmoid (- 1), sigmoid 0, 33 / 416, exp 3 * 23 / 416, sigmoid 1]]]"
  using dual_split_is_single_split [THEN conjunct1, rule_format, of one_cell_head one_cell_raw, symmetric]
    one_cell_call by simp

text \<open>
  C1 as stated fails: at the one-cell input the single-split decoder that activates after
  splitting returns the very tensor that the call returns.
\<close>

theorem dual_split_differs_counterexample:
  "YOLOv3Head_call one_cell_head one_cell_raw =
       Inr [[[sigmoid 1, sigmoid (- 1), exp 2 * 10 / 416, 13 / 416, sigmoid 3],
             [sigmoid 0, sigmoid 2, exp (- 2) * 16 / 416, exp 1 * 30 / 416, sigmoid 0],
             [sigmoid (- 1), sigmoid 0, 33 / 416, exp 3 * 23 / 416, sigmoid 1]]]
   \<and> YOLOv3Head_call_single_split one_cell_head one_cell_raw = YOLOv3Head_call one_cell_head one_cell_raw"
  by (simp add: one_cell_call one_cell_single)

section \<open>The scale correction in binary32 arithmetic\<close>

text \<open>
  Facts about the rounding: it leaves the numbers of the format as they are, it moves a
  number by at most half a unit in the last place, and it keeps positive normal numbers
  positive.
\<close>

lemma round_even_of_int: "round_even (of_int n) = n"
  by (simp add: round_even_def)

lemma round_even_error: "\<bar>of_int (round_even r) - r\<bar> \<le> 1 / 2"
  unfolding round_even_def Let_def by (simp; linarith)

lemma round_even_ge: "of_int n \<le> r \<Longrightarrow> n \<le> round_even r"
proof -
  assume "of_int n \<le> r"
  then have "n \<le> \<lfloor>r\<rfloor>" by (simp add: le_floor_iff)
  moreover have "\<lfloor>r\<rfloor> \<le> round_even r" by (simp add: round_even_def Let_def)
  ultimately show ?thesis by simp
qed

lemma pow2_shift: "2 ^ 23 * 2 powr (of_int k - 23) = (2::real) powr of_int k"
  by (simp add: powr_diff)

lemma fl32_zero: "fl32 0 = 0"
  by (simp add: fl32_def)

lemma fl32_exponent:
  assumes "2 powr of_int k \<le> \<bar>x\<bar>" "\<bar>x\<bar> < 2 powr of_int (k + 1)" "- 126 \<le> k"
  shows "fl32 x = of_int (round_even (x / 2 powr of_int (k - 23))) * 2 powr of_int (k - 23)"
proof -
  have "0 < \<bar>x\<bar>" using assms(1) by (smt (verit) powr_gt_zero)
  then have x: "x \<noteq> 0" by simp
  have "\<lfloor>log 2 \<bar>x\<bar>\<rfloor> = k"
    using assms(1,2) \<open>0 < \<bar>x\<bar>\<close> by (simp add: floor_log_eq_powr_iff)
  moreover have "max (k - 23) (- 149) = k - 23" using assms(3) by simp
  ultimately show ?thesis using x by (simp add: fl32_def)
qed

lemma fl32_error:
  assumes "\<bar>x\<bar> < 2 powr of_int (k + 1)" "- 126 \<le> k"
  shows "\<bar>fl32 x - x\<bar> \<le> 2 powr of_int (k - 24)"
proof (cases "x = 0")
  case True then show ?thesis by (simp add: fl32_def)
next
  case False
  define e where "e = max (\<lfloor>log 2 \<bar>x\<bar>\<rfloor> - 23) (- 149)"
  define r where "r = x / 2 powr of_int e"
  have "log 2 \<bar>x\<bar> < of_int (k + 1)"
    using assms(1) False by (simp add: log_less_iff)
  then have "\<lfloor>log 2 \<bar>x\<bar>\<rfloor> \<le> k" by linarith
  then have e: "e \<le> k - 23" using assms(2) by (simp add: e_def)
  have x: "x = r * 2 powr of_int e" by (simp add: r_def)
  have "fl32 x = of_int (round_even r) * 2 powr of_int e"
    using False by (simp add: fl32_def e_def r_def Let_def)
  then have "fl32 x - x = (of_int (round_even r) - r) * 2 powr of_int e"
    using x by (simp add: algebra_simps)
  then have "\<bar>fl32 x - x\<bar> = \<bar>of_int (round_even r) - r\<bar> * 2 powr of_int e"
    by (simp add: abs_mult)
  also have "\<dots> \<le> 1 / 2 * 2 powr of_int e"
    using round_even_error [of r] by (intro mult_right_mono) simp_all
  also have "\<dots> = 2 powr of_int (e - 1)"
    by (simp add: powr_diff)
  also have "\<dots> \<le> 2 powr of_int (k - 24)"
    using e by (intro powr_mono) simp_all
  finally show ?thesis .
qed

lemma fl32_ge:
  assumes "2 powr of_int a \<le> x" "- 126 \<le> a"
  shows "2 powr of_int a \<le> fl32 x"
proof -
  have x: "0 < x" using assms(1) by (smt (verit) powr_gt_zero)
  define k where "k = \<lfloor>log 2 x\<rfloor>"
  have b: "2 powr of_int k \<le> x" "x < 2 powr of_int (k + 1)"
    using x floor_log_eq_powr_iff [of x 2 k] by (simp_all add: k_def)
  have "of_int a \<le> log 2 x" using assms(1) x by (simp add: le_log_iff)
  then have ak: "a \<le> k" by (simp add: k_def le_floor_iff)
  have f: "fl32 x = of_int (round_even (x / 2 powr of_int (k - 23))) * 2 powr of_int (k - 23)"
    using fl32_exponent [of k x] b x ak assms(2) by simp
  have p: "(2 ^ 23 :: real) * 2 powr of_int (k - 23) = 2 powr of_int k"
    using pow2_shift [of k] by simp
  then have "2 ^ 23 \<le> x / 2 powr of_int (k - 23)"
    using b(1) by (simp add: pos_le_divide_eq)
  then have "of_int (2 ^ 23 :: int) \<le> x / 2 powr of_int (k - 23)"
    by simp
  then have "(2 ^ 23 :: int) \<le> round_even (x / 2 powr of_int (k - 23))"
    by (rule round_even_ge)
  then have "of_int (2 ^ 23 :: int) \<le> (of_int (round_even (x / 2 powr of_int (k - 23))) :: real)"
    by (simp only: of_int_le_iff)
  then have "(2 ^ 23 :: real) \<le> of_int (round_even (x / 2 powr of_int (k - 23)))"
    by simp
  then have "2 ^ 23 * 2 powr of_int (k - 23) \<le> fl32 x"
    unfolding f by (intro mult_right_mono) simp_all
  moreover note p
  moreover have "2 powr of_int a \<le> (2::real) powr of_int k"
    using ak by (intro powr_mono) simp_all
  ultimately show ?thesis by linarith
qed

lemma fl32_pow2:
  assumes "- 126 \<le> k"
  shows "fl32 (2 powr of_int k) = 2 powr of_int k" "fl32 (- (2 powr of_int k)) = - (2 powr of_int k)"
proof -
  have p: "(2 ^ 23 :: real) * 2 powr of_int (k - 23) = 2 powr of_int k"
    using pow2_shift [of k] by simp
  have e: "(2::real) powr of_int k / 2 powr of_int (k - 23) = of_int (2 ^ 23)"
    using p by (simp add: field_simps)
  have lt: "(2::real) powr of_int k < 2 powr of_int (k + 1)"
    by (intro powr_less_mono) simp_all
  have "fl32 (2 powr of_int k) = of_int (round_even (2 powr of_int k / 2 powr of_int (k - 23))) * 2 powr of_int (k - 23)"
    using fl32_exponent [of k "2 powr of_int k"] assms lt by simp
  also have "\<dots> = 2 ^ 23 * 2 powr of_int (k - 23)"
    unfolding e round_even_of_int by simp
  also have "\<dots> = 2 powr of_int k" by (rule p)
  finally show "fl32 (2 powr of_int k) = 2 powr of_int k" .
  have e': "- ((2::real) powr of_int k) / 2 powr of_int (k - 23) = of_int (- (2 ^ 23))"
    using e by simp
  have "fl32 (- (2 powr of_int k)) = of_int (round_even (- (2 powr of_int k) / 2 powr of_int (k - 23))) * 2 powr of_int (k - 23)"
    using fl32_exponent [of k "- (2 powr of_int k)"] assms lt by simp
  also have "\<dots> = - (2 ^ 23) * 2 powr of_int (k - 23)"
    unfolding e' round_even_of_int by simp
  also have "\<dots> = - (2 powr of_int k)" using p by simp
  finally show "fl32 (- (2 powr of_int k)) = - (2 powr of_int k)" .
qed

lemma fl32_one: "fl32 1 = 1"
  using fl32_pow2(1) [of 0] by simp

lemma fl32_half: "fl32 (1 / 2) = 1 / 2" "fl32 (- 1 / 2) = - 1 / 2" "fl32 (- (1 / 2)) = - (1 / 2)"
  using fl32_pow2 [of "- 1"] by (simp_all add: powr_minus_divide)

lemma fl32_near_minus_half:
  assumes "0 \<le> v" "v \<le> 1 / 2 ^ 29"
  shows "fl32 (v - 1 / 2) = - 1 / 2"
proof (cases "v = 0")
  case True then show ?thesis using fl32_half(2) by simp
next
  case False
  then have v: "0 < v" using assms(1) by simp
  have a: "\<bar>v - 1 / 2\<bar> = 1 / 2 - v" using assms by simp
  have p2: "(2::real) powr of_int (- 2) = 1 / 4" "(2::real) powr of_int (- 2 + 1) = 1 / 2"
    "(2::real) powr of_int (- 2 - 23) = 1 / 2 ^ 25"
    by (simp_all add: powr_minus_divide)
  have "fl32 (v - 1 / 2) = of_int (round_even ((v - 1 / 2) / 2 powr of_int (- 2 - 23))) * 2 powr of_int (- 2 - 23)"
  proof (rule fl32_exponent)
    show "2 powr of_int (- 2) \<le> \<bar>v - 1 / 2\<bar>" using assms by (simp only: a p2; simp)
    show "\<bar>v - 1 / 2\<bar> < 2 powr of_int (- 2 + 1)" using v by (simp only: a p2; simp)
    show "- 126 \<le> (- 2 :: int)" by simp
  qed
  moreover have "(v - 1 / 2) / (1 / 2 ^ 25) = v * 2 ^ 25 - 2 ^ 24"
    by (simp add: field_simps)
  moreover have "round_even (v * 2 ^ 25 - 2 ^ 24) = - (2 ^ 24)"
  proof -
    have b: "0 < v * 2 ^ 25" "v * 2 ^ 25 \<le> 1 / 16" using v assms(2) by simp_all
    have "\<lfloor>v * 2 ^ 25 - 2 ^ 24\<rfloor> = - (2 ^ 24)"
      using b by (intro floor_unique) simp_all
    then show ?thesis using b by (simp add: round_even_def)
  qed
  ultimately show ?thesis by (simp only: p2; simp)
qed

lemma scale_step_small:
  assumes "0 \<le> v" "v \<le> 1 / 2 ^ 29"
  shows "scale_step_f32 1 v = 0"
  using fl32_near_minus_half [OF assms] fl32_half
  by (simp add: scale_step_f32_def fl32_one fl32_zero)

lemma scale_step_tolerance:
  assumes "0 \<le> v" "v \<le> 1"
  shows "\<bar>scale_step_f32 1 v - v\<bar> \<le> 1 / 2 ^ 23"
proof -
  define a where "a = fl32 (v - 1 / 2)"
  define b where "b = fl32 a"
  define c where "c = fl32 (b + 1 / 2)"
  have p2: "(2::real) powr of_int (- 1 + 1) = 1" "(2::real) powr of_int (- 1 - 24) = 1 / 2 ^ 25"
    "(2::real) powr of_int (0 + 1) = 2" "(2::real) powr of_int (0 - 24) = 1 / 2 ^ 24"
    by (simp_all add: powr_minus_divide)
  have "\<bar>v - 1 / 2\<bar> < 2 powr of_int (- 1 + 1)" using assms by (simp only: p2; simp)
  then have ea: "\<bar>a - (v - 1 / 2)\<bar> \<le> 1 / 2 ^ 25"
    using fl32_error [of "v - 1 / 2" "- 1"] by (simp only: p2 a_def; simp)
  then have "\<bar>a\<bar> < 2 powr of_int (- 1 + 1)" using assms by (simp only: p2 abs_le_iff abs_less_iff; simp)
  then have eb: "\<bar>b - a\<bar> \<le> 1 / 2 ^ 25"
    using fl32_error [of a "- 1"] by (simp only: p2 b_def; simp)
  then have "\<bar>b + 1 / 2\<bar> < 2 powr of_int (0 + 1)" using ea assms by (simp only: p2 abs_le_iff abs_less_iff; simp)
  then have ec: "\<bar>c - (b + 1 / 2)\<bar> \<le> 1 / 2 ^ 24"
    using fl32_error [of "b + 1 / 2" 0] by (simp only: p2 c_def; simp)
  have "scale_step_f32 1 v = c"
    by (simp add: scale_step_f32_def fl32_one a_def b_def c_def)
  then show ?thesis using ea eb ec by (simp only: abs_le_iff; simp)
qed

lemma exp_30_bounds: "2 ^ 30 \<le> exp (30::real)" "exp (30::real) \<le> 3 ^ 30"
proof -
  have e: "exp (30::real) = exp 1 ^ 30" using exp_of_nat_mult [of 30 "1::real"] by simp
  have "(2::real) \<le> exp 1" using exp_ge_add_one_self [of "1::real"] by simp
  then show "2 ^ 30 \<le> exp (30::real)" unfolding e by (intro power_mono) simp_all
  show "exp (30::real) \<le> 3 ^ 30" unfolding e by (intro power_mono exp_le) simp
qed

lemma sigmoid_f32_small: "1 / 2 ^ 126 \<le> sigmoid_f32 (- 30)" "sigmoid_f32 (- 30) \<le> 1 / 2 ^ 29"
proof -
  have p2: "(2::real) powr of_int (- 126) = 1 / 2 ^ 126" "(2::real) powr of_int (- 31 + 1) = 1 / 2 ^ 30"
    "(2::real) powr of_int (- 31 - 24) = 1 / 2 ^ 55"
    by (simp_all add: powr_minus_divide)
  have s: "sigmoid (- 30) = 1 / (1 + exp 30)" by (simp add: sigmoid_def)
  have e: "0 < 1 + exp (30::real)" by (simp add: add_pos_pos)
  have "1 + exp (30::real) \<le> 2 ^ 126" using exp_30_bounds(2) by simp
  then have lo: "1 / 2 ^ 126 \<le> sigmoid (- 30)"
    unfolding s using e by (intro frac_le) simp_all
  have "(2::real) ^ 30 < 1 + exp 30" using exp_30_bounds(1) by simp
  then have hi: "sigmoid (- 30) < 1 / 2 ^ 30"
    unfolding s by (intro divide_strict_left_mono) simp_all
  have pos: "0 < sigmoid (- 30)" unfolding s using e by simp
  show "1 / 2 ^ 126 \<le> sigmoid_f32 (- 30)"
    using fl32_ge [of "- 126" "sigmoid (- 30)"] lo by (simp only: p2 sigmoid_f32_def; simp)
  have "\<bar>sigmoid (- 30)\<bar> < 2 powr of_int (- 31 + 1)" using hi pos by (simp only: p2; simp)
  then have "\<bar>sigmoid_f32 (- 30) - sigmoid (- 30)\<bar> \<le> 1 / 2 ^ 55"
    using fl32_error [of "sigmoid (- 30)" "- 31"] by (simp only: p2 sigmoid_f32_def; simp)
  then show "sigmoid_f32 (- 30) \<le> 1 / 2 ^ 29" using hi by (simp only: abs_le_iff; simp)
qed

lemma round_even_le: "r \<le> of_int n \<Longrightarrow> round_even r \<le> n"
proof -
  assume a: "r \<le> of_int n"
  show ?thesis
  proof (cases "r = of_int n")
    case True then show ?thesis by (simp add: round_even_of_int)
  next
    case False
    then have "r < of_int n" using a by simp
    then have "\<lfloor>r\<rfloor> < n" by (simp add: floor_less_iff)
    moreover have "round_even r \<le> \<lfloor>r\<rfloor> + 1" by (simp add: round_even_def Let_def)
    ultimately show ?thesis by simp
  qed
qed

lemma fl32_representable:
  assumes "\<bar>n\<bar> \<le> 2 ^ 24" "- 149 \<le> e"
  shows "fl32 (of_int n * 2 powr of_int e) = of_int n * 2 powr of_int e"
proof -
  consider "n = 0" | "\<bar>n\<bar> = 2 ^ 24" | "n \<noteq> 0" "\<bar>n\<bar> < 2 ^ 24" using assms(1) by linarith
  then show ?thesis
  proof cases
    case 1 then show ?thesis by (simp add: fl32_zero)
  next
    case 2
    have p: "(2 ^ 24 :: real) * 2 powr of_int e = 2 powr of_int (e + 24)"
      by (simp add: powr_add)
    have "n = 2 ^ 24 \<or> n = - (2 ^ 24)" using 2 by linarith
    then show ?thesis
    proof
      assume "n = 2 ^ 24"
      then show ?thesis using fl32_pow2(1) [of "e + 24"] assms(2) by (simp only: of_int_numeral of_int_power p; simp)
    next
      assume "n = - (2 ^ 24)"
      then show ?thesis using fl32_pow2(2) [of "e + 24"] assms(2)
        by (simp only: of_int_numeral of_int_power of_int_minus mult_minus_left p; simp)
    qed
  next
    case 3
    define x where "x = real_of_int n * 2 powr of_int e"
    define k where "k = \<lfloor>log 2 \<bar>x\<bar>\<rfloor>"
    define e' where "e' = max (k - 23) (- 149)"
    have x0: "x \<noteq> 0" using 3(1) by (simp add: x_def)
    then have b: "2 powr of_int k \<le> \<bar>x\<bar>" "\<bar>x\<bar> < 2 powr of_int (k + 1)"
      using floor_log_eq_powr_iff [of "\<bar>x\<bar>" 2 k] by (simp_all add: k_def)
    have ax: "\<bar>x\<bar> = of_int \<bar>n\<bar> * 2 powr of_int e" by (simp add: x_def abs_mult)
    have "real_of_int \<bar>n\<bar> < 2 ^ 24" using 3(2) by (metis of_int_less_iff of_int_numeral of_int_power)
    then have "\<bar>x\<bar> < 2 ^ 24 * 2 powr of_int e" unfolding ax by (intro mult_strict_right_mono) simp_all
    also have "\<dots> = 2 powr of_int (e + 24)" by (simp add: powr_add)
    finally have "2 powr of_int k < (2::real) powr of_int (e + 24)" using b(1) by linarith
    then have "k < e + 24" by simp
    then have le: "e' \<le> e" using assms(2) by (simp add: e'_def)
    define d where "d = nat (e - e')"
    have "2 powr of_int e = (2::real) powr (of_int e' + of_nat d)" using le by (simp add: d_def)
    also have "\<dots> = 2 powr of_int e' * 2 ^ d" by (simp add: powr_add powr_realpow)
    finally have pe: "(2::real) powr of_int e = 2 powr of_int e' * 2 ^ d" .
    have "x / 2 powr of_int e' = of_int (n * 2 ^ d)" by (simp add: x_def pe)
    then have "round_even (x / 2 powr of_int e') = n * 2 ^ d" by (simp only: round_even_of_int)
    then have "fl32 x = of_int (n * 2 ^ d) * 2 powr of_int e'"
      using x0 by (simp add: fl32_def e'_def k_def Let_def)
    also have "\<dots> = x" by (simp add: x_def pe)
    finally show ?thesis by (simp add: x_def)
  qed
qed

lemma fl32_in_format:
  "\<exists>n e. \<bar>n\<bar> \<le> 2 ^ 24 \<and> - 149 \<le> e \<and> fl32 x = of_int n * 2 powr of_int e"
proof (cases "x = 0")
  case True
  then have "\<bar>0::int\<bar> \<le> 2 ^ 24 \<and> - 149 \<le> (0::int) \<and> fl32 x = of_int 0 * 2 powr of_int 0"
    by (simp add: fl32_zero)
  then show ?thesis by blast
next
  case False
  define k where "k = \<lfloor>log 2 \<bar>x\<bar>\<rfloor>"
  define e where "e = max (k - 23) (- 149)"
  define r where "r = x / 2 powr of_int e"
  have b: "\<bar>x\<bar> < 2 powr of_int (k + 1)"
    using False floor_log_eq_powr_iff [of "\<bar>x\<bar>" 2 k] by (simp add: k_def)
  have "(2::real) powr of_int (k + 1) \<le> 2 powr of_int (e + 24)"
    by (intro powr_mono) (simp_all add: e_def)
  also have "\<dots> = 2 ^ 24 * 2 powr of_int e" by (simp add: powr_add)
  finally have "\<bar>x\<bar> < 2 ^ 24 * 2 powr of_int e" using b by linarith
  then have "\<bar>x\<bar> / 2 powr of_int e < 2 ^ 24" by (simp add: pos_divide_less_eq)
  then have "\<bar>r\<bar> < 2 ^ 24" by (simp add: r_def)
  then have "r \<le> of_int (2 ^ 24)" "of_int (- (2 ^ 24)) \<le> r" by simp_all
  then have "round_even r \<le> 2 ^ 24" "- (2 ^ 24) \<le> round_even r"
    using round_even_le round_even_ge by blast+
  then have "\<bar>round_even r\<bar> \<le> 2 ^ 24" by linarith
  moreover have "- 149 \<le> e" by (simp add: e_def)
  moreover have "fl32 x = of_int (round_even r) * 2 powr of_int e"
    using False by (simp add: fl32_def e_def k_def r_def Let_def)
  ultimately show ?thesis by blast
qed

lemma fl32_idem: "fl32 (fl32 x) = fl32 x"
  using fl32_in_format [of x] fl32_representable by auto

lemma fl32_int: "\<bar>n\<bar> \<le> 2 ^ 24 \<Longrightarrow> fl32 (of_int n) = of_int n"
  using fl32_representable [of n 0] by simp

lemma fl32_small_ints: "fl32 10 = 10" "fl32 13 = 13" "fl32 16 = 16" "fl32 30 = 30" "fl32 33 = 33" "fl32 23 = 23"
  using fl32_int [of 10] fl32_int [of 13] fl32_int [of 16] fl32_int [of 30] fl32_int [of 33] fl32_int [of 23]
  by simp_all

lemma sigmoid_f32_zero: "sigmoid_f32 0 = 1 / 2"
  using fl32_half(1) by (simp add: sigmoid_f32_def sigmoid_def)

lemma exp_f32_zero: "exp_f32 0 = 1"
  by (simp add: exp_f32_def fl32_one)

lemma scale_step_half: "scale_step_f32 1 (1 / 2) = 1 / 2"
  using fl32_half(1) by (simp add: scale_step_f32_def fl32_zero fl32_one)

lemma scale_step_saturated: "scale_step_f32 1 (sigmoid_f32 (- 30)) = 0"
  using sigmoid_f32_small by (intro scale_step_small) simp_all

lemma sigmoid_f32_idem: "fl32 (sigmoid_f32 v) = sigmoid_f32 v"
  by (simp add: sigmoid_f32_def fl32_idem)

lemma fl32_minus_half_exact:
  assumes f: "fl32 v = v" and lo: "1 / 4 \<le> v" and hi: "v \<le> 1"
  shows "fl32 (v - 1 / 2) = v - 1 / 2"
proof -
  have pos: "0 < v" using lo by simp
  define k where "k = \<lfloor>log 2 v\<rfloor>"
  have b: "2 powr of_int k \<le> v" "v < 2 powr of_int (k + 1)"
    using pos floor_log_eq_powr_iff [of v 2 k] by (simp_all add: k_def)
  have "of_int (- 2) \<le> log 2 v" using lo pos by (simp add: le_log_iff powr_minus_divide)
  then have k1: "- 2 \<le> k" by (simp add: k_def le_floor_iff)
  have "log 2 v \<le> 0" using hi pos by (simp add: log_le_zero_cancel_iff)
  then have k2: "k \<le> 0" unfolding k_def by linarith
  define e where "e = k - 23"
  define n where "n = round_even (v / 2 powr of_int e)"
  have v: "v = of_int n * 2 powr of_int e"
    using fl32_exponent [of k v] b pos k1 f by (simp add: e_def n_def)
  define d where "d = nat (- 1 - e)"
  have d: "d \<le> 24" using k1 by (simp add: d_def e_def)
  have "(2::real) powr of_int (- 1) = 2 powr (of_int e + of_nat d)"
    using k2 by (simp add: d_def e_def)
  also have "\<dots> = 2 powr of_int e * 2 ^ d" by (simp add: powr_add powr_realpow)
  finally have half: "1 / 2 = (2::real) powr of_int e * 2 ^ d" by (simp add: powr_minus_divide)
  have eq: "v - 1 / 2 = of_int (n - 2 ^ d) * 2 powr of_int e"
    using v half by (simp add: algebra_simps)
  have "\<bar>v - 1 / 2\<bar> \<le> 1 / 2" using lo hi by (simp only: abs_le_iff; simp)
  then have "\<bar>real_of_int (n - 2 ^ d)\<bar> * 2 powr of_int e \<le> 2 ^ d * 2 powr of_int e"
    unfolding eq using half by (simp add: abs_mult mult.commute)
  then have "\<bar>real_of_int (n - 2 ^ d)\<bar> \<le> 2 ^ d" by simp
  also have "\<dots> \<le> (2::real) ^ 24" using d by (intro power_increasing) simp_all
  finally have "real_of_int \<bar>n - 2 ^ d\<bar> \<le> real_of_int (2 ^ 24)" by simp
  then have bound: "\<bar>n - 2 ^ d\<bar> \<le> 2 ^ 24" by (simp only: of_int_le_iff)
  have "- 149 \<le> e" using k1 by (simp add: e_def)
  then show ?thesis unfolding eq using bound by (rule fl32_representable [rotated])
qed

lemma scale_step_exact:
  assumes "fl32 v = v" "1 / 4 \<le> v" "v \<le> 1"
  shows "scale_step_f32 1 v = v"
  using fl32_minus_half_exact [OF assms] assms(1)
  by (simp add: scale_step_f32_def fl32_one)

lemma fl32_le_one:
  assumes "1 / 4 \<le> x" "x < 1"
  shows "fl32 x \<le> 1"
proof -
  have pos: "0 < x" using assms(1) by simp
  define k where "k = \<lfloor>log 2 x\<rfloor>"
  have b: "2 powr of_int k \<le> x" "x < 2 powr of_int (k + 1)"
    using pos floor_log_eq_powr_iff [of x 2 k] by (simp_all add: k_def)
  have "of_int (- 2) \<le> log 2 x" using assms(1) pos by (simp add: le_log_iff powr_minus_divide)
  then have k1: "- 2 \<le> k" by (simp add: k_def le_floor_iff)
  have "log 2 x < 0" using assms(2) pos by simp
  then have k2: "k \<le> - 1" unfolding k_def by linarith
  have f: "fl32 x = of_int (round_even (x / 2 powr of_int (k - 23))) * 2 powr of_int (k - 23)"
    using fl32_exponent [of k x] b pos k1 by simp
  have p: "(2 ^ 23 :: real) * 2 powr of_int (k - 23) = 2 powr of_int k"
    using pow2_shift [of k] by simp
  have "x < 2 * 2 powr of_int k" using b(2) by (simp add: powr_add)
  also have "\<dots> = 2 ^ 24 * 2 powr of_int (k - 23)" using p by simp
  finally have "x / 2 powr of_int (k - 23) \<le> of_int (2 ^ 24)"
    by (simp add: pos_divide_le_eq)
  then have "round_even (x / 2 powr of_int (k - 23)) \<le> 2 ^ 24" by (rule round_even_le)
  then have "real_of_int (round_even (x / 2 powr of_int (k - 23))) \<le> real_of_int (2 ^ 24)"
    by (simp only: of_int_le_iff)
  then have "fl32 x \<le> 2 ^ 24 * 2 powr of_int (k - 23)"
    unfolding f by (intro mult_right_mono) simp_all
  also have "\<dots> = 2 * 2 powr of_int k" using p by simp
  also have "\<dots> = 2 powr of_int (k + 1)" by (simp add: powr_add)
  also have "\<dots> \<le> 2 powr of_int 0" using k2 by (intro powr_mono) simp_all
  finally show ?thesis by simp
qed

lemma sigmoid_ge_quarter:
  assumes "- 1 \<le> r"
  shows "1 / 4 \<le> sigmoid r"
proof -
  have "exp (- r) \<le> exp 1" using assms by simp
  then have "1 + exp (- r) \<le> 4" using exp_le by linarith
  moreover have "0 < 1 + exp (- r)" by (simp add: add_pos_pos)
  ultimately show ?thesis unfolding sigmoid_def by (intro frac_le) simp_all
qed

lemma scale_step_sigmoid:
  assumes "- 1 \<le> r"
  shows "scale_step_f32 1 (sigmoid_f32 r) = sigmoid_f32 r"
proof (rule scale_step_exact)
  show "fl32 (sigmoid_f32 r) = sigmoid_f32 r" by (rule sigmoid_f32_idem)
  have q: "1 / 4 \<le> sigmoid r" using assms by (rule sigmoid_ge_quarter)
  have "(2::real) powr of_int (- 2) = 1 / 4" by (simp add: powr_minus_divide)
  then show "1 / 4 \<le> sigmoid_f32 r"
    using fl32_ge [of "- 2" "sigmoid r"] q by (simp add: sigmoid_f32_def)
  show "sigmoid_f32 r \<le> 1"
    unfolding sigmoid_f32_def using q sigmoid_less_1 [of r] by (rule fl32_le_one)
qed

lemma tmap_fixed:
  assumes "\<And>c. c \<in> set (cells t) \<Longrightarrow> f c = c"
  shows "tmap f t = t"
proof -
  have "map (map (map f)) t = map (map (map (\<lambda>c. c))) t"
    using assms by (intro map_cong refl) (auto simp: cells_def)
  then show ?thesis by (simp add: tmap_def)
qed

lemma head_anchor_f32_forced_eq:
  assumes s: "scale_x_y h = 1"
    and e: "\<And>c v. c \<in> set (cells (sig_split ! i)) \<Longrightarrow> v \<in> set c \<Longrightarrow> scale_step_f32 1 v = v"
  shows "head_anchor_f32 True h raw_split sig_split i = head_anchor_f32 False h raw_split sig_split i"
proof (cases "tf_split_2_2_rest (sig_split ! i)")
  case (Inl err)
  then show ?thesis by (simp add: head_anchor_f32_def bind_err_def)
next
  case (Inr parts)
  obtain xy wh oc where parts: "parts = (xy, wh, oc)" by (cases parts)
  have xy: "xy = tmap (take 2) (sig_split ! i)"
    using Inr parts by (auto simp: tf_split_2_2_rest_def split: if_splits)
  have "tmap (map (scale_step_f32 1)) xy = xy"
  proof (rule tmap_fixed)
    fix c assume "c \<in> set (cells xy)"
    then obtain c' where c': "c' \<in> set (cells (sig_split ! i))" and c: "c = take 2 c'"
      by (auto simp: xy cells_tmap)
    have "\<And>v. v \<in> set c \<Longrightarrow> scale_step_f32 1 v = v"
      using e [OF c'] c by (auto dest: in_set_takeD)
    then show "map (scale_step_f32 1) c = c" by (simp add: map_idI)
  qed
  then show ?thesis using Inr parts s
    by (simp add: head_anchor_f32_def bind_err_def Let_def split: sum.splits prod.splits)
qed

lemma call_f32_forced_eq:
  assumes s: "scale_x_y h = 1"
    and r: "\<And>c v. c \<in> set (cells x) \<Longrightarrow> v \<in> set c \<Longrightarrow> - 1 \<le> v"
  shows "YOLOv3Head_call_f32 True h x = YOLOv3Head_call_f32 False h x"
proof -
  have sig: "scale_step_f32 1 v = v"
    if cm: "c \<in> set (cells (tmap (map sigmoid_f32) x))" and vm: "v \<in> set c" for c v
  proof -
    from cm obtain c' where c': "c' \<in> set (cells x)" and c: "c = map sigmoid_f32 c'"
      by (auto simp: cells_tmap)
    then obtain r' where "r' \<in> set c'" "v = sigmoid_f32 r'" using vm by auto
    then show ?thesis using r [OF c'] scale_step_sigmoid by simp
  qed
  have "head_anchor_f32 True h rs ss i = head_anchor_f32 False h rs ss i"
    if ss: "tf_split 3 (tmap (map sigmoid_f32) x) = Inr ss" and i: "i \<in> set [0..<3]" for rs ss i
  proof (rule head_anchor_f32_forced_eq [OF s])
    fix c v assume c: "c \<in> set (cells (ss ! i))" and v: "v \<in> set c"
    have "ss ! i = tmap (chunk_at 3 i) (tmap (map sigmoid_f32) x)"
      using ss i by (auto simp: tf_split_def split: if_splits)
    then obtain c' where c': "c' \<in> set (cells (tmap (map sigmoid_f32) x))" and cc: "c = chunk_at 3 i c'"
      using c by (auto simp: cells_tmap)
    have "v \<in> set c'" using v cc by (auto simp: chunk_at_def dest: in_set_takeD in_set_dropD)
    then show "scale_step_f32 1 v = v" using sig [OF c'] by simp
  qed
  then have "map_err (head_anchor_f32 True h rs ss) [0..<3] = map_err (head_anchor_f32 False h rs ss) [0..<3]"
    if "tf_split 3 (tmap (map sigmoid_f32) x) = Inr ss" for rs ss
    using that by (intro map_err_cong) blast
  then show ?thesis
    by (auto simp: YOLOv3Head_call_f32_def bind_err_def split: sum.splits)
qed

lemmas eval_f32 = YOLOv3Head_call_f32_def head_anchor_f32_def mul_pair_f32_def add_grid_f32_def
  bind_err_def tf_split_def tf_split_2_2_rest_def
  cells_def tmap_def chunk_at_def bcast_ok_def bcast_def
  same_grid_def zip_cells_def tf_reshape_def chunks_def tf_concat_axis1_def py_index_def Let_def
  upt_conv_Cons one_cell_head_def scenario_head_def head.extend_def saturated_raw_def
  fl32_one fl32_zero fl32_small_ints sigmoid_f32_zero exp_f32_zero scale_step_half
  scale_step_saturated sigmoid_f32_idem fl32_half

lemma saturated_call:
  "YOLOv3Head_call_f32 False one_cell_head saturated_raw =
     Inr [[[sigmoid_f32 (- 30), 1 / 2, fl32 (10 * fl32 (1 / 416)), fl32 (13 * fl32 (1 / 416)), 1 / 2],
           [1 / 2, 1 / 2, fl32 (16 * fl32 (1 / 416)), fl32 (30 * fl32 (1 / 416)), 1 / 2],
           [1 / 2, 1 / 2, fl32 (33 * fl32 (1 / 416)), fl32 (23 * fl32 (1 / 416)), 1 / 2]]]"
  by (simp add: eval_f32)

lemma saturated_call_forced:
  "YOLOv3Head_call_f32 True one_cell_head saturated_raw =
     Inr [[[0, 1 / 2, fl32 (10 * fl32 (1 / 416)), fl32 (13 * fl32 (1 / 416)), 1 / 2],
           [1 / 2, 1 / 2, fl32 (16 * fl32 (1 / 416)), fl32 (30 * fl32 (1 / 416)), 1 / 2],
           [1 / 2, 1 / 2, fl32 (33 * fl32 (1 / 416)), fl32 (23 * fl32 (1 / 416)), 1 / 2]]]"
  by (simp add: eval_f32)

lemma sigmoid_f32_saturated_pos: "0 < sigmoid_f32 (- 30)"
proof -
  have "(0::real) < 1 / 2 ^ 126" by simp
  then show ?thesis using sigmoid_f32_small(1) by linarith
qed

lemma zero_cell_call:
  "YOLOv3Head_call_f32 False one_cell_head zero_cell_raw =
     Inr [[[1 / 2, 1 / 2, fl32 (10 * fl32 (1 / 416)), fl32 (13 * fl32 (1 / 416)), 1 / 2],
           [1 / 2, 1 / 2, fl32 (16 * fl32 (1 / 416)), fl32 (30 * fl32 (1 / 416)), 1 / 2],
           [1 / 2, 1 / 2, fl32 (33 * fl32 (1 / 416)), fl32 (23 * fl32 (1 / 416)), 1 / 2]]]"
  by (simp add: eval_f32 zero_cell_raw_def)

text \<open>
  C4, as amended.  For a head with \<^verbatim>\<open>scale_x_y = 1.0\<close> the call skips the scale
  correction.  In binary32 arithmetic the result is the same as that of the decoder with
  the correction forcibly evaluated as \<open>(xy - 0.5) * 1.0 + 0.5\<close> for every input whose
  raw entries are all at least \<open>-1\<close>: the forced arithmetic returns every number \<open>v\<close>
  of the format with \<open>1 / 4 \<le> v \<le> 1\<close> as it is.  It is not the same for every
  input; the two agree only up to rounding.  The forced arithmetic changes a sigmoid
  output \<open>v\<close> between 0 and 1 by at most \<open>1 / 2 ^ 23\<close>, and it returns 0 for every \<open>v\<close>
  with \<open>0 < v \<le> 1 / 2 ^ 29\<close>.  At the one-cell input whose first raw entry is \<open>-30\<close>
  the call returns the x coordinate \<open>sigmoid_f32 (-30)\<close>, which is positive, and the
  decoder with the forced correction returns the x coordinate 0; all other entries of
  the two results are equal.  The statements about \<open>v\<close> hold for every real \<open>v\<close> in
  the range, so they do not depend on how the library rounds the sigmoid.
\<close>

theorem scale_one_skip_agrees_up_to_rounding:
  "(\<forall>(h :: built_head) x. scale_x_y h = 1 \<and> (\<forall>c \<in> set (cells x). \<forall>v \<in> set c. - 1 \<le> v) \<longrightarrow>
      YOLOv3Head_call_f32 True h x = YOLOv3Head_call_f32 False h x)
   \<and> (\<forall>v. fl32 v = v \<and> 1 / 4 \<le> v \<and> v \<le> 1 \<longrightarrow> scale_step_f32 1 v = v)
   \<and> (\<forall>v. 0 \<le> v \<and> v \<le> 1 \<longrightarrow> \<bar>scale_step_f32 1 v - v\<bar> \<le> 1 / 2 ^ 23)
   \<and> (\<forall>v. 0 < v \<and> v \<le> 1 / 2 ^ 29 \<longrightarrow> scale_step_f32 1 v = 0)
   \<and> scale_x_y one_cell_head = 1
   \<and> 0 < sigmoid_f32 (- 30)
   \<and> YOLOv3Head_call_f32 False one_cell_head saturated_raw =
       Inr [[[sigmoid_f32 (- 30), 1 / 2, fl32 (10 * fl32 (1 / 416)), fl32 (13 * fl32 (1 / 416)), 1 / 2],
             [1 / 2, 1 / 2, fl32 (16 * fl32 (1 / 416)), fl32 (30 * fl32 (1 / 416)), 1 / 2],
             [1 / 2, 1 / 2, fl32 (33 * fl32 (1 / 416)), fl32 (23 * fl32 (1 / 416)), 1 / 2]]]
   \<and> YOLOv3Head_call_f32 True one_cell_head saturated_raw =
       Inr [[[0, 1 / 2, fl32 (10 * fl32 (1 / 416)), fl32 (13 * fl32 (1 / 416)), 1 / 2],
             [1 / 2, 1 / 2, fl32 (16 * fl32 (1 / 416)), fl32 (30 * fl32 (1 / 416)), 1 / 2],
             [1 / 2, 1 / 2, fl32 (33 * fl32 (1 / 416)), fl32 (23 * fl32 (1 / 416)), 1 / 2]]]"
proof (intro conjI allI impI)
  fix h :: built_head and x :: tensor4
  assume "scale_x_y h = 1 \<and> (\<forall>c \<in> set (cells x). \<forall>v \<in> set c. - 1 \<le> v)"
  then show "YOLOv3Head_call_f32 True h x = YOLOv3Head_call_f32 False h x"
    by (intro call_f32_forced_eq) blast+
next
  fix v :: real
  assume "fl32 v = v \<and> 1 / 4 \<le> v \<and> v \<le> 1"
  then show "scale_step_f32 1 v = v"
    by (intro scale_step_exact) blast+
next
  fix v :: real
  assume "0 \<le> v \<and> v \<le> 1"
  then show "\<bar>scale_step_f32 1 v - v\<bar> \<le> 1 / 2 ^ 23"
    using scale_step_tolerance [of v] by blast
next
  fix v :: real
  assume "0 < v \<and> v \<le> 1 / 2 ^ 29"
  then show "scale_step_f32 1 v = 0"
    using scale_step_small [of v] by simp
next
  show "scale_x_y one_cell_head = 1"
    by (simp add: one_cell_head_def scenario_head_def head.extend_def)
  show "0 < sigmoid_f32 (- 30)" by (rule sigmoid_f32_saturated_pos)
qed (rule saturated_call saturated_call_forced)+

text \<open>
  The amended statement at the all-zero input of one cell, and at the sigmoid outputs
  \<open>1 / 2\<close> and \<open>1 / 2 ^ 30\<close>.
\<close>

theorem scale_one_skip_agrees_up_to_rounding_witness:
  "YOLOv3Head_call_f32 True one_cell_head zero_cell_raw =
       Inr [[[1 / 2, 1 / 2, fl32 (10 * fl32 (1 / 416)), fl32 (13 * fl32 (1 / 416)), 1 / 2],
             [1 / 2, 1 / 2, fl32 (16 * fl32 (1 / 416)), fl32 (30 * fl32 (1 / 416)), 1 / 2],
             [1 / 2, 1 / 2, fl32 (33 * fl32 (1 / 416)), fl32 (23 * fl32 (1 / 416)), 1 / 2]]]
   \<and> fl32 (1 / 2) = 1 / 2
   \<and> scale_step_f32 1 (1 / 2) = 1 / 2
   \<and> \<bar>scale_step_f32 1 (1 / 2) - 1 / 2\<bar> \<le> 1 / 2 ^ 23
   \<and> scale_step_f32 1 (1 / 2 ^ 30) = 0"
proof -
  note t = scale_one_skip_agrees_up_to_rounding
  have s: "scale_x_y one_cell_head = 1"
    by (simp add: one_cell_head_def scenario_head_def head.extend_def)
  have z: "\<forall>c \<in> set (cells zero_cell_raw). \<forall>v \<in> set c. - 1 \<le> v"
    by (simp add: cells_def zero_cell_raw_def)
  have "YOLOv3Head_call_f32 True one_cell_head zero_cell_raw
          = YOLOv3Head_call_f32 False one_cell_head zero_cell_raw"
    using t [THEN conjunct1, rule_format, of one_cell_head zero_cell_raw] s z by blast
  then have a: "YOLOv3Head_call_f32 True one_cell_head zero_cell_raw =
       Inr [[[1 / 2, 1 / 2, fl32 (10 * fl32 (1 / 416)), fl32 (13 * fl32 (1 / 416)), 1 / 2],
             [1 / 2, 1 / 2, fl32 (16 * fl32 (1 / 416)), fl32 (30 * fl32 (1 / 416)), 1 / 2],
             [1 / 2, 1 / 2, fl32 (33 * fl32 (1 / 416)), fl32 (23 * fl32 (1 / 416)), 1 / 2]]]"
    by (simp only: zero_cell_call)
  have h: "fl32 (1 / 2) = 1 / 2" by (rule fl32_half(1))
  have b: "scale_step_f32 1 (1 / 2) = 1 / 2"
    using t [THEN conjunct2, THEN conjunct1, rule_format, of "1 / 2"] h by simp
  have c: "\<bar>scale_step_f32 1 (1 / 2) - 1 / 2\<bar> \<le> 1 / 2 ^ 23"
    using t [THEN conjunct2, THEN conjunct2, THEN conjunct1, rule_format, of "1 / 2"] by simp
  have d: "scale_step_f32 1 (1 / 2 ^ 30) = 0"
    using t [THEN conjunct2, THEN conjunct2, THEN conjunct2, THEN conjunct1, rule_format, of "1 / 2 ^ 30"]
    by simp
  show ?thesis using a h b c d by blast
qed

text \<open>
  C4 as stated fails in the arithmetic of the program: for the head of the scenario,
  whose \<^verbatim>\<open>scale_x_y\<close> is 1, built for one grid cell, the call and the decoder with the
  forced correction return different tensors at the input whose first raw entry is
  \<open>-30\<close>.
\<close>

theorem scale_one_skip_not_identical_counterexample:
  "YOLOv3Head_build scenario_head (1, 1, 1, 15) = Inr one_cell_head
   \<and> scale_x_y one_cell_head = 1
   \<and> YOLOv3Head_call_f32 False one_cell_head saturated_raw
       \<noteq> YOLOv3Head_call_f32 True one_cell_head saturated_raw"
proof -
  have "sigmoid_f32 (- 30) \<noteq> 0" using sigmoid_f32_saturated_pos by simp
  then have "YOLOv3Head_call_f32 False one_cell_head saturated_raw
       \<noteq> YOLOv3Head_call_f32 True one_cell_head saturated_raw"
    by (simp add: saturated_call saturated_call_forced)
  moreover have "scale_x_y one_cell_head = 1"
    by (simp add: one_cell_head_def scenario_head_def head.extend_def)
  ultimately show ?thesis using one_cell_build by simp
qed

section \<open>Routes with groups: partition and slice\<close>

lemma concat_blocks:
  "length c = n * K \<Longrightarrow> concat (map (\<lambda>j. take K (drop (j * K) c)) [0..<n]) = c"
proof (induction n arbitrary: c)
  case 0
  then show ?case by simp
next
  case (Suc n)
  have l: "length (drop K c) = n * K" using Suc.prems by simp
  have "concat (map (\<lambda>j. take K (drop (j * K) c)) [0..<Suc n])
          = take K c @ concat (map (\<lambda>j. take K (drop (j * K) (drop K c))) [0..<n])"
    by (simp add: map_upt_Suc add.commute del: upt_Suc)
  also have "\<dots> = take K c @ drop K c"
    using Suc.IH [OF l] by simp
  finally show ?case by simp
qed

lemma tmap_cong_cells:
  assumes "\<And>c. c \<in> set (cells t) \<Longrightarrow> f c = g c"
  shows "tmap f t = tmap g t"
  using assms by (auto simp: tmap_def cells_def)

lemma py_index_nat: "i < length xs \<Longrightarrow> py_index xs (int i) = Inr (xs ! i)"
  by (simp add: py_index_def)

text \<open>
  C7.  For a route with \<^verbatim>\<open>groups\<close> on a tensor whose channel depth \<open>C\<close> is a multiple
  of \<open>groups\<close>, the split yields \<open>groups\<close> parts of \<open>C / groups\<close> channels each,
  the parts of every cell, put one after the other, are the channels of that cell (every
  channel is covered exactly once), and \<^verbatim>\<open>_split_and_get\<close> with \<open>group_id\<close> returns the
  part that equals the direct channel slice
  \<open>[group_id * C / groups : (group_id + 1) * C / groups]\<close> of the source tensor.
\<close>

theorem route_groups_partition:
  assumes x: "wf_tensor B H W (nat groups * K) x" and g: "0 < groups"
    and id: "0 \<le> group_id" "group_id < groups"
  shows "\<exists>parts. tf_split (nat groups) x = Inr parts \<and> length parts = nat groups
           \<and> (\<forall>j<nat groups. wf_tensor B H W K (parts ! j))
           \<and> (\<forall>b<B. \<forall>y<H. \<forall>x'<W.
                 concat (map (\<lambda>p. p ! b ! y ! x') parts) = x ! b ! y ! x')
           \<and> split_and_get groups group_id x = Inr (parts ! nat group_id)
           \<and> parts ! nat group_id
               = tmap (channel_slice (nat group_id * K) ((nat group_id + 1) * K)) x"
proof -
  define n where "n = nat groups"
  define parts where "parts = map (\<lambda>j. tmap (chunk_at n j) x) [0..<n]"
  have n: "0 < n" using g by (simp add: n_def)
  have x': "wf_tensor B H W (n * K) x" using x by (simp add: n_def)
  have gr: "wf_grid B H W x" using x' by (simp add: wf_tensor_def)
  have split: "tf_split n x = Inr parts"
    unfolding parts_def using x' n by (rule tf_split_wf)
  have len: "length parts = n" by (simp add: parts_def)
  have chunk: "chunk_at n j c = take K (drop (j * K) c)" if "length c = n * K" for j c
    using that n by (rule chunk_at_take_drop)
  have wf: "wf_tensor B H W K (parts ! j)" if "j < n" for j
  proof -
    have "wf_tensor B H W K (tmap (chunk_at n j) x)"
      using x' that n by (intro wf_tensor_tmap [OF x']) (simp add: length_chunk_at)
    then show ?thesis using that by (simp add: parts_def)
  qed
  have cover: "concat (map (\<lambda>p. p ! b ! y ! x') parts) = x ! b ! y ! x'"
    if t: "b < B" "y < H" "x' < W" for b y x'
  proof -
    have lc: "length (x ! b ! y ! x') = n * K" using x' t by (rule chans_nth)
    have "map (\<lambda>p. p ! b ! y ! x') parts = map (\<lambda>j. take K (drop (j * K) (x ! b ! y ! x'))) [0..<n]"
      using gr t lc by (simp add: parts_def tmap_nth chunk)
    then show ?thesis using concat_blocks [OF lc] by simp
  qed
  have gid: "nat group_id < n" using id g by (simp add: n_def)
  have sel: "split_and_get groups group_id x = Inr (parts ! nat group_id)"
    using gid id(1) py_index_nat [of "nat group_id" parts]
    by (simp add: split_and_get_def split bind_err_def len flip: n_def)
  have "tmap (chunk_at n (nat group_id)) x
          = tmap (channel_slice (nat group_id * K) ((nat group_id + 1) * K)) x"
  proof (rule tmap_cong_cells)
    fix c assume "c \<in> set (cells x)"
    then have "length c = n * K"
      using x' by (simp add: wf_tensor_def chans_def list_all_iff)
    then show "chunk_at n (nat group_id) c = channel_slice (nat group_id * K) ((nat group_id + 1) * K) c"
      by (simp add: chunk channel_slice_def drop_take)
  qed
  then have slice: "parts ! nat group_id
      = tmap (channel_slice (nat group_id * K) ((nat group_id + 1) * K)) x"
    using gid by (simp add: parts_def)
  show ?thesis
    using split len wf cover sel slice unfolding n_def by blast
qed

theorem route_groups_partition_witness:
  "wf_tensor 1 1 2 (nat 2 * 3) two_cell_raw \<and> (0::int) < 2 \<and> (0::int) \<le> 1 \<and> (1::int) < 2
   \<and> tf_split (nat 2) two_cell_raw = Inr [[[[[1, 2, 3], [7, 8, 9]]]], [[[[4, 5, 6], [10, 11, 12]]]]]
   \<and> split_and_get 2 1 two_cell_raw = Inr [[[[4, 5, 6], [10, 11, 12]]]]
   \<and> tmap (channel_slice 3 6) two_cell_raw = [[[[4, 5, 6], [10, 11, 12]]]]"
proof -
  have w: "wf_tensor 1 1 2 (nat 2 * 3) two_cell_raw"
    by (simp add: wf_tensor_def wf_grid_def chans_def cells_def two_cell_raw_def)
  obtain parts where p: "tf_split (nat 2) two_cell_raw = Inr parts"
    and s: "split_and_get 2 1 two_cell_raw = Inr (parts ! nat 1)"
    and c: "parts ! nat 1 = tmap (channel_slice (nat 1 * 3) ((nat 1 + 1) * 3)) two_cell_raw"
    using route_groups_partition [OF w, of 1] by auto
  have e: "tf_split (nat 2) two_cell_raw = Inr [[[[[1, 2, 3], [7, 8, 9]]]], [[[[4, 5, 6], [10, 11, 12]]]]]"
    by (simp add: tf_split_def cells_def tmap_def chunk_at_def two_cell_raw_def upt_conv_Cons)
  have "parts ! nat 1 = [[[[4, 5, 6], [10, 11, 12]]]]"
    using p e by auto
  then show ?thesis using w e s c by simp
qed

section \<open>The layer graph: grouped routes and returned outputs\<close>

lemma py_index_take1: "py_index (take (Suc 0) xs) 0 = py_index xs 0"
  by (cases xs) (simp_all add: py_index_def)

lemma layer_step_trim: "layer_step ml x (trim_grouped opt) st = layer_step ml x opt st"
  by (cases st) (simp add: layer_step_def trim_grouped_def py_index_take1 Let_def)

lemma run_layers_trim:
  "run_layers ml x (map trim_grouped opts) st = run_layers ml x opts st"
  by (induction opts arbitrary: st) (simp_all add: layer_step_trim bind_err_def split: sum.splits)

lemma map_of_trim: "map_of (trim_config config) k = map_option trim_grouped (map_of config k)"
  by (induction config) (auto simp: trim_config_def)

lemma trim_grouped_fields:
  "opt_anchors (trim_grouped opt) = opt_anchors opt"
  "opt_mask (trim_grouped opt) = opt_mask opt"
  "opt_scale_x_y (trim_grouped opt) = opt_scale_x_y opt"
  "opt_width (trim_grouped opt) = opt_width opt"
  "opt_height (trim_grouped opt) = opt_height opt"
  "opt_decay (trim_grouped opt) = opt_decay opt"
  by (simp_all add: trim_grouped_def)

lemma head_config_of_trim: "head_config_of (trim_config config) name = head_config_of config name"
  by (cases "map_of config name"; cases "map_of config ''net''")
    (simp_all add: head_config_of_def map_of_trim trim_grouped_fields split: sum.splits)

lemma init_step_trim:
  "init_step lib (trim_config config) (name, trim_grouped opt) st = init_step lib config (name, opt) st"
proof (cases "opt_type opt = ''route'' \<and> opt_groups opt \<noteq> None")
  case True
  then show ?thesis
    by (cases st) (auto simp: init_step_def trim_grouped_def)
next
  case False
  then have "trim_grouped opt = opt" by (auto simp: trim_grouped_def)
  then show ?thesis
    by (cases st) (auto simp: init_step_def head_config_of_trim map_of_trim trim_grouped_def
        split: option.splits)
qed

lemma init_loop_trim:
  "init_loop lib (trim_config config) (trim_config items) st = init_loop lib config items st"
proof (induction items arbitrary: st)
  case Nil
  then show ?case by (simp add: trim_config_def)
next
  case (Cons item items)
  obtain name opt where item: "item = (name, opt)" by (cases item)
  have "trim_config (item # items) = (name, trim_grouped opt) # trim_config items"
    by (simp add: trim_config_def item)
  then show ?case using Cons.IH by (simp add: item init_step_trim bind_err_def split: sum.splits)
qed

lemma map_snd_trim: "map snd (trim_config config) = map trim_grouped (map snd config)"
  by (induction config) (auto simp: trim_config_def)

lemma run_layers_trim_config:
  "run_layers ml x (map snd (trim_config config)) st = run_layers ml x (map snd config) st"
  unfolding map_snd_trim by (rule run_layers_trim)

lemma model_trim:
  "bind_err (YOLOv4Model_init lib (trim_config config)) (\<lambda>m. YOLOv4Model_call m x)
     = bind_err (YOLOv4Model_init lib config) (\<lambda>m. YOLOv4Model_call m x)"
proof (cases "init_loop lib config config (None, [])")
  case (Inl e)
  then show ?thesis by (simp add: YOLOv4Model_init_def init_loop_trim bind_err_def)
next
  case (Inr st)
  obtain l2 ml where st: "st = (l2, ml)" by (cases st)
  show ?thesis
    using Inr st
    by (simp add: YOLOv4Model_init_def YOLOv4Model_call_def init_loop_trim bind_err_def
        run_layers_trim_config)
qed




section \<open>The layer graph under consecutive numbering\<close>






lemma head_items_executed: "map snd (head_items config) = executed_heads (map snd config)"
  by (induction config) (auto simp: head_items_def executed_heads_def)










section \<open>The tflite front end: reshape by the first spatial dimension\<close>

lemma predict_reshape_grid:
  assumes wf: "wf_ndarray c" and sh: "shape c = b # h # rest" and b: "0 < b"
  shows "predict_reshape c =
           (if h = 0 \<or> (h * prod_list rest) mod (h * h * 3) \<noteq> 0 then Inl ShapeError
            else Inr \<lparr> shape = [1, h * h * 3, (h * prod_list rest) div (h * h * 3)],
                       entries = take (h * prod_list rest) (entries c) \<rparr>)"
  using b by (auto simp: predict_reshape_def bind_err_def py_index_def sh np_first_def
      np_reshape_1_n_rest_def Let_def)

lemma predict_reshape_grid3:
  assumes wf: "wf_ndarray c" and sh: "shape c = b # h # w # rest"
    and pos: "0 < b" "0 < h"
  shows "predict_reshape c =
           (if (h * (w * prod_list rest)) mod (h * h * 3) = 0
            then Inr \<lparr> shape = [1, h * h * 3, (h * (w * prod_list rest)) div (h * h * 3)],
                       entries = take (h * (w * prod_list rest)) (entries c) \<rparr>
            else Inl ShapeError)"
  using predict_reshape_grid [OF wf sh pos(1)] pos(2) by simp

lemma predict_reshape_square_take:
  assumes wf: "wf_ndarray c" and sh: "shape c = b # h # h # rest"
    and pos: "0 < b" "0 < h" and r: "prod_list rest = 3 * D"
  shows "predict_reshape c = Inr \<lparr> shape = [1, h * h * 3, D],
                                     entries = take (h * (h * prod_list rest)) (entries c) \<rparr>"
proof -
  have "h * (h * prod_list rest) = (h * h * 3) * D" using r by simp
  moreover have "0 < h * h * 3" using pos(2) by simp
  ultimately have "(h * (h * prod_list rest)) mod (h * h * 3) = 0"
    and "(h * (h * prod_list rest)) div (h * h * 3) = D"
    by simp_all
  then show ?thesis using predict_reshape_grid3 [OF wf sh pos] by simp
qed

text \<open>
  C10.  \<^verbatim>\<open>predict\<close> reshapes an output of shape \<open>(b, h, w, \<dots>)\<close> from its first spatial
  dimension alone, to \<open>(1, h * h * 3, -1)\<close>.  The box count \<open>h * h * 3\<close> is the true
  count \<open>h * w * 3\<close> exactly when the grid is square, and then the result is right; an
  output on a grid that is not square is rejected or reshaped to the wrong box count.
\<close>

theorem predict_reshape_assumes_square_grid:
  assumes wf: "wf_ndarray c" and sh: "shape c = b # h # w # rest"
    and pos: "0 < b" "0 < h" "0 < w"
  shows "predict_reshape c =
           (if (h * (w * prod_list rest)) mod (h * h * 3) = 0
            then Inr \<lparr> shape = [1, h * h * 3, (h * (w * prod_list rest)) div (h * h * 3)],
                       entries = take (h * (w * prod_list rest)) (entries c) \<rparr>
            else Inl ShapeError)
       \<and> (h * h * 3 = h * w * 3 \<longleftrightarrow> h = w)
       \<and> (h = w \<and> prod_list rest = 3 * D \<longrightarrow>
            predict_reshape c = Inr \<lparr> shape = [1, h * w * 3, D],
                                     entries = take (h * (w * prod_list rest)) (entries c) \<rparr>)
       \<and> (h \<noteq> w \<longrightarrow>
            predict_reshape c = Inl ShapeError
            \<or> (\<exists>r. predict_reshape c = Inr r \<and> shape r ! 1 = h * h * 3 \<and> shape r ! 1 \<noteq> h * w * 3))"
proof -
  note r = predict_reshape_grid3 [OF wf sh pos(1,2)]
  have sq: "h * h * 3 = h * w * 3 \<longleftrightarrow> h = w" using pos(2) by simp
  have ok: "predict_reshape c = Inr \<lparr> shape = [1, h * w * 3, D],
                                     entries = take (h * (w * prod_list rest)) (entries c) \<rparr>"
    if "h = w" "prod_list rest = 3 * D"
    using predict_reshape_square_take [OF wf sh [unfolded that(1) [symmetric]] pos(1,2) that(2)] that(1)
    by simp
  have bad: "predict_reshape c = Inl ShapeError
            \<or> (\<exists>r. predict_reshape c = Inr r \<and> shape r ! 1 = h * h * 3 \<and> shape r ! 1 \<noteq> h * w * 3)"
    if "h \<noteq> w"
    using r that sq by (cases "(h * (w * prod_list rest)) mod (h * h * 3) = 0") simp_all
  show ?thesis using r sq ok bad by blast
qed

theorem predict_reshape_assumes_square_grid_witness:
  "wf_ndarray square_candidate \<and> shape square_candidate = 1 # 2 # 2 # [3, 1]
   \<and> predict_reshape square_candidate
       = Inr \<lparr> shape = [1, 12, 1], entries = [1, 2, 3, 4, 5, 6, 7, 8, 9, 10, 11, 12] \<rparr>
   \<and> wf_ndarray wide_candidate \<and> shape wide_candidate = 1 # 1 # 2 # [3, 1]
   \<and> predict_reshape wide_candidate = Inr \<lparr> shape = [1, 3, 2], entries = [1, 2, 3, 4, 5, 6] \<rparr>
   \<and> wf_ndarray tall_candidate \<and> shape tall_candidate = 1 # 2 # 1 # [3, 1]
   \<and> predict_reshape tall_candidate = Inl ShapeError"
proof -
  have w1: "wf_ndarray square_candidate" and s1: "shape square_candidate = 1 # 2 # 2 # [3, 1]"
    and w2: "wf_ndarray wide_candidate" and s2: "shape wide_candidate = 1 # 1 # 2 # [3, 1]"
    and w3: "wf_ndarray tall_candidate" and s3: "shape tall_candidate = 1 # 2 # 1 # [3, 1]"
    by (simp_all add: wf_ndarray_def square_candidate_def wide_candidate_def tall_candidate_def)
  have "predict_reshape square_candidate
       = Inr \<lparr> shape = [1, 12, 1], entries = [1, 2, 3, 4, 5, 6, 7, 8, 9, 10, 11, 12] \<rparr>"
    using predict_reshape_assumes_square_grid [OF w1 s1, THEN conjunct1]
    by (simp add: square_candidate_def)
  moreover have "predict_reshape wide_candidate = Inr \<lparr> shape = [1, 3, 2], entries = [1, 2, 3, 4, 5, 6] \<rparr>"
    using predict_reshape_assumes_square_grid [OF w2 s2, THEN conjunct1]
    by (simp add: wide_candidate_def)
  moreover have "predict_reshape tall_candidate = Inl ShapeError"
    using predict_reshape_assumes_square_grid [OF w3 s3, THEN conjunct1]
    by simp
  ultimately show ?thesis using w1 s1 w2 s2 w3 s3 by simp
qed




section \<open>The example graphs, evaluated\<close>

lemmas graph_defs = YOLOv4Model_init_def YOLOv4Model_call_def init_step_def layer_step_def
  head_config_of_def bind_err_def py_index_def Let_def identity_layer_def
  plain_option_def net_item_def conv_item_def yolo_item_def example_lib_def

lemma yolo_item_head:
  "YOLOv3Head_init \<lparr> cfg_anchors = [(10, 13), (16, 30), (33, 23)], cfg_mask = [0, 1, 2],
       cfg_scale_x_y = 1, net_width = 416, net_height = 416 \<rparr> = Inr scenario_head"
  using scenario_init by (simp add: scenario_config_def)

lemma keras_head_one_cell:
  "keras_head scenario_head (One (Inl one_cell_raw)) =
     Inr (Inr [[[sigmoid 1, sigmoid (- 1), exp 2 * 10 / 416, 13 / 416, sigmoid 3],
                [sigmoid 0, sigmoid 2, exp (- 2) * 16 / 416, exp 1 * 30 / 416, sigmoid 0],
                [sigmoid (- 1), sigmoid 0, 33 / 416, exp 3 * 23 / 416, sigmoid 1]]])"
proof -
  have "shape4 one_cell_raw = (1, 1, 1, 15)" by (simp add: shape4_def one_cell_raw_def)
  then show ?thesis
    using one_cell_build by (simp add: keras_head_def one_cell_call bind_err_def)
qed















lemma keras_split_two_group:
  "keras_split 2 1 (One (Inl two_group_raw)) = Inr (Inl one_cell_raw)"
  by (simp add: keras_split_def split_and_get_def tf_split_def bind_err_def py_index_def cells_def
      tmap_def chunk_at_def two_group_raw_def one_cell_raw_def upt_conv_Cons)

lemma grouped_graph:
  "bind_err (YOLOv4Model_init example_lib grouped_config)
       (\<lambda>m. YOLOv4Model_call m (Inl two_group_raw)) = Inr [Inr one_cell_decoded]"
  by (simp add: YOLOv4Model_init_def YOLOv4Model_call_def init_step_def layer_step_def
      head_config_of_def bind_err_def py_index_def Let_def identity_layer_def
      plain_option_def net_item_def conv_item_def yolo_item_def example_lib_def grouped_config_def
      grouped_route_def
      yolo_item_head keras_split_two_group keras_head_one_cell one_cell_decoded_def)

text \<open>
  C9.  At a route with \<^verbatim>\<open>groups\<close> the walk computes
  \<^verbatim>\<open>layer_function(output[layers[0]])\<close>: only the first entry of \<^verbatim>\<open>layers\<close> is read.
  Hence two configurations that differ only in the further entries of the
  \<^verbatim>\<open>layers\<close> lists of their grouped routes give the same graph output
  (construction followed by the call), for every layer library and every input.
\<close>

theorem grouped_route_reads_first_source:
  "(\<forall>ml x (opt :: layer_option) outs return_val.
      opt_type opt = ''route'' \<and> opt_groups opt \<noteq> None \<and> opt_count opt \<noteq> - 1 \<longrightarrow>
      layer_step ml x opt (outs, return_val) =
        bind_err (py_index ml (opt_count opt)) (\<lambda>layer_function.
        bind_err (py_index (opt_layers opt) 0) (\<lambda>index.
        bind_err (py_index outs index) (\<lambda>src.
        bind_err (layer_function (One src)) (\<lambda>r. Inr (outs @ [r], return_val))))))
   \<and> (\<forall>lib config config' x.
        trim_config config = trim_config config' \<longrightarrow>
        bind_err (YOLOv4Model_init lib config) (\<lambda>m. YOLOv4Model_call m x)
          = bind_err (YOLOv4Model_init lib config') (\<lambda>m. YOLOv4Model_call m x))"
proof (intro conjI allI impI)
  fix ml :: "'a layer_fn list" and x and opt :: layer_option and outs return_val
  assume "opt_type opt = ''route'' \<and> opt_groups opt \<noteq> None \<and> opt_count opt \<noteq> - 1"
  then show "layer_step ml x opt (outs, return_val) =
        bind_err (py_index ml (opt_count opt)) (\<lambda>layer_function.
        bind_err (py_index (opt_layers opt) 0) (\<lambda>index.
        bind_err (py_index outs index) (\<lambda>src.
        bind_err (layer_function (One src)) (\<lambda>r. Inr (outs @ [r], return_val)))))"
    by (simp add: layer_step_def Let_def)
next
  fix lib :: "'b layer_lib" and config config' x
  assume "trim_config config = trim_config config'"
  then show "bind_err (YOLOv4Model_init lib config) (\<lambda>m. YOLOv4Model_call m x)
          = bind_err (YOLOv4Model_init lib config') (\<lambda>m. YOLOv4Model_call m x)"
    using model_trim [of lib config x] model_trim [of lib config' x] by simp
qed

theorem grouped_route_reads_first_source_witness:
  "opt_type grouped_route = ''route'' \<and> opt_groups grouped_route \<noteq> None
   \<and> opt_count grouped_route \<noteq> - 1 \<and> opt_layers grouped_route = [0, 5, 7]
   \<and> layer_step [identity_layer, keras_split 2 1] (Inl two_group_raw) grouped_route
         ([Inl two_group_raw], [])
       = Inr ([Inl two_group_raw, Inl one_cell_raw], [])
   \<and> trim_config grouped_config
       = [net_item, conv_item, (''route_1'', grouped_route \<lparr> opt_layers := [0] \<rparr>),
          yolo_item ''yolo_2'' 2]
   \<and> trim_config grouped_config = trim_config (trim_config grouped_config)
   \<and> bind_err (YOLOv4Model_init example_lib grouped_config)
        (\<lambda>m. YOLOv4Model_call m (Inl two_group_raw)) = Inr [Inr one_cell_decoded]
   \<and> bind_err (YOLOv4Model_init example_lib (trim_config grouped_config))
        (\<lambda>m. YOLOv4Model_call m (Inl two_group_raw)) = Inr [Inr one_cell_decoded]"
proof -
  have r: "opt_type grouped_route = ''route'' \<and> opt_groups grouped_route \<noteq> None
      \<and> opt_count grouped_route \<noteq> - 1"
    and l: "opt_layers grouped_route = [0, 5, 7]" and c: "opt_count grouped_route = 1"
    by (simp_all add: grouped_route_def plain_option_def)
  have "layer_step [identity_layer, keras_split 2 1] (Inl two_group_raw) grouped_route
         ([Inl two_group_raw], [])
       = bind_err (py_index [identity_layer, keras_split 2 1] (opt_count grouped_route))
           (\<lambda>layer_function.
              bind_err (py_index (opt_layers grouped_route) 0) (\<lambda>index.
              bind_err (py_index [Inl two_group_raw] index) (\<lambda>src.
              bind_err (layer_function (One src)) (\<lambda>r. Inr ([Inl two_group_raw] @ [r], [])))))"
    using grouped_route_reads_first_source [THEN conjunct1, rule_format, OF r] .
  then have step: "layer_step [identity_layer, keras_split 2 1] (Inl two_group_raw) grouped_route
         ([Inl two_group_raw], [])
       = Inr ([Inl two_group_raw, Inl one_cell_raw], [])"
    by (simp add: l c bind_err_def py_index_def keras_split_two_group)
  have t: "trim_config grouped_config
       = [net_item, conv_item, (''route_1'', grouped_route \<lparr> opt_layers := [0] \<rparr>),
          yolo_item ''yolo_2'' 2]"
    by (simp add: trim_config_def trim_grouped_def grouped_config_def grouped_route_def
        net_item_def conv_item_def yolo_item_def plain_option_def)
  have i: "trim_config grouped_config = trim_config (trim_config grouped_config)"
    unfolding t
    by (simp add: trim_config_def trim_grouped_def grouped_route_def net_item_def conv_item_def
        yolo_item_def plain_option_def)
  have "bind_err (YOLOv4Model_init example_lib grouped_config)
            (\<lambda>m. YOLOv4Model_call m (Inl two_group_raw))
          = bind_err (YOLOv4Model_init example_lib (trim_config grouped_config))
              (\<lambda>m. YOLOv4Model_call m (Inl two_group_raw))"
    using grouped_route_reads_first_source [THEN conjunct2, rule_format, OF i] .
  then show ?thesis using r l step t i grouped_graph by simp
qed

section \<open>What the head checks, and when\<close>

lemma head_anchor_index_error:
  assumes x: "wf_tensor B H W (3 * K) x" and K: "4 \<le> K"
    and f: "fits h H W K" and i: "i < 3" and a: "length (anchors h) \<le> i"
  shows "head_anchor h (map (\<lambda>j. tmap (chunk_at 3 j) x) [0..<3])
           (map (\<lambda>j. tmap (chunk_at 3 j) (tmap (map sigmoid) x)) [0..<3]) i = Inl IndexError"
proof -
  define raw where "raw = tmap (chunk_at 3 i) x"
  define sg where "sg = tmap (chunk_at 3 i) (tmap (map sigmoid) x)"
  define s where "s = (\<lambda>v. if scale_x_y h \<noteq> 1 then (v - 0.5) * scale_x_y h + 0.5 else v)"
  have raw_wf: "wf_tensor B H W K raw"
    unfolding raw_def using x i by (intro wf_tensor_tmap [OF x]) (simp add: length_chunk_at)
  have sg_eq: "sg = tmap (map sigmoid) raw"
    by (simp add: sg_def raw_def tmap_tmap chunk_at_map comp_def)
  have sg_wf: "wf_tensor B H W K sg"
    unfolding sg_eq by (intro wf_tensor_tmap [OF raw_wf]) simp
  have sel_raw: "map (\<lambda>j. tmap (chunk_at 3 j) x) [0..<3] ! i = raw"
    using i by (simp add: raw_def del: upt_Suc)
  have sel_sg: "map (\<lambda>j. tmap (chunk_at 3 j) (tmap (map sigmoid) x)) [0..<3] ! i = sg"
    using i by (simp add: sg_def del: upt_Suc)
  define xy0 where "xy0 = tmap (take 2) sg"
  define xy1 where "xy1 = mul_pair (tmap (map s) xy0) (inver_grid_wh h)"
  define xy2 where "xy2 = map (\<lambda>img. map2 (map2 (\<lambda>v g. map2 (+) v [fst g, snd g])) img (grid_coord h)) xy1"
  have sgg: "wf_grid B H W sg" using sg_wf by (simp add: wf_tensor_def)
  have scale: "(if scale_x_y h \<noteq> 1 then tmap (map (\<lambda>v. (v - 0.5) * scale_x_y h + 0.5)) xy0 else xy0)
                 = tmap (map s) xy0"
    by (simp add: s_def tmap_def)
  have xy1g: "wf_grid B H W xy1"
    using sgg by (simp add: xy1_def xy0_def mul_pair_def)
  have gl: "length (grid_coord h) = H" using f by (simp add: fits_def)
  have add: "add_grid xy1 (grid_coord h) = Inr xy2"
    unfolding xy2_def using xy1g gl fits_rows [OF f] by (rule add_grid_wf)
  have idx: "py_index (anchors h) (int i) = Inl IndexError"
    using a by (simp add: py_index_def)
  have s1: "tf_split_2_2_rest sg = Inr (xy0, tmap (\<lambda>c. take 2 (drop 2 c)) sg, tmap (drop 4) sg)"
    unfolding xy0_def using sg_wf K by (rule tf_split_2_2_rest_wf)
  have s2: "tf_split_2_2_rest raw = Inr (tmap (take 2) raw, tmap (\<lambda>c. take 2 (drop 2 c)) raw, tmap (drop 4) raw)"
    using raw_wf K by (rule tf_split_2_2_rest_wf)
  show ?thesis
    apply (simp only: head_anchor_def sel_raw sel_sg s1 s2 bind_err_def sum.case prod.case Let_def scale)
    apply (simp only: xy1_def [symmetric] add sum.case idx)
    done
qed

lemma map_err_first_error:
  assumes "\<And>u. u \<in> set pre \<Longrightarrow> \<exists>r. f u = Inr r" and "f v = Inl e"
  shows "map_err f (pre @ v # post) = Inl e"
  using assms
proof (induction pre)
  case Nil
  then show ?case by simp
next
  case (Cons u pre)
  obtain r where "f u = Inr r" using Cons.prems(1) by auto
  moreover have "map_err f (pre @ v # post) = Inl e" using Cons by simp
  ultimately show ?case by simp
qed

lemma call_index_error:
  assumes x: "wf_tensor B H W (3 * K) x" and K: "4 \<le> K" and HW: "0 < H" "0 < W"
    and f: "fits h H W K" and a: "length (anchors h) < 3"
  shows "YOLOv3Head_call h x = Inl IndexError"
proof -
  define n where "n = length (anchors h)"
  define RS where "RS = map (\<lambda>j. tmap (chunk_at 3 j) x) [0..<3]"
  define SS where "SS = map (\<lambda>j. tmap (chunk_at 3 j) (tmap (map sigmoid) x)) [0..<3]"
  have sx: "wf_tensor B H W (3 * K) (tmap (map sigmoid) x)"
    by (intro wf_tensor_tmap [OF x]) simp
  have r: "tf_split 3 x = Inr RS"
    unfolding RS_def using x by (intro tf_split_wf) simp_all
  have s: "tf_split 3 (tmap (map sigmoid) x) = Inr SS"
    unfolding SS_def using sx by (intro tf_split_wf) simp_all
  have n: "n < 3" using a by (simp add: n_def)
  have ok: "\<exists>r. head_anchor h RS SS u = Inr r" if "u \<in> set [0..<n]" for u
  proof -
    have "u < 3" "u < length (anchors h)" using that n by (simp_all add: n_def)
    then show ?thesis
      unfolding RS_def SS_def using head_anchor_decodes [OF x K HW f] by blast
  qed
  have bad: "head_anchor h RS SS n = Inl IndexError"
    unfolding RS_def SS_def using x K f n by (rule head_anchor_index_error) (simp add: n_def)
  have "[0..<3] = [0..<n] @ n # [Suc n..<3]"
    using n upt_add_eq_append [of 0 n "3 - n"] by (simp add: upt_conv_Cons)
  then have "map_err (head_anchor h RS SS) [0..<3] = Inl IndexError"
    using map_err_first_error [of "[0..<n]" "head_anchor h RS SS" n IndexError "[Suc n..<3]"] ok bad
    by simp
  then show ?thesis
    by (simp add: YOLOv3Head_call_def r s bind_err_def)
qed

lemma call_channel_error:
  assumes x: "wf_tensor B H W C x" and pos: "0 < B" "0 < H" "0 < W" and c: "C mod 3 \<noteq> 0"
  shows "YOLOv3Head_call h x = Inl ShapeError"
proof -
  have g: "wf_grid B H W x" using x by (simp add: wf_tensor_def)
  have "length (x ! 0 ! 0 ! 0) = C" using x pos by (rule chans_nth)
  then have "\<not> list_all (\<lambda>c. length c mod 3 = 0) (cells x)"
    unfolding cells_all_nth [OF g] using pos c by auto
  then show ?thesis
    by (simp add: YOLOv3Head_call_def tf_split_def bind_err_def)
qed

lemma head_anchor_take3:
  assumes "3 \<le> length (anchors h)" and "i < 3"
  shows "head_anchor (h \<lparr> anchors := take 3 (anchors h) \<rparr>) rs ss i = head_anchor h rs ss i"
proof -
  have "py_index (take 3 (anchors h)) (int i) = py_index (anchors h) (int i)"
    using assms by (simp add: py_index_def)
  then show ?thesis by (simp add: head_anchor_def cong: if_cong)
qed

lemma call_take3:
  assumes "3 \<le> length (anchors h)"
  shows "YOLOv3Head_call (h \<lparr> anchors := take 3 (anchors h) \<rparr>) x = YOLOv3Head_call h x"
proof -
  have "map_err (head_anchor (h \<lparr> anchors := take 3 (anchors h) \<rparr>) rs ss) [0..<3]
          = map_err (head_anchor h rs ss) [0..<3]" for rs ss
    using assms by (intro map_err_cong head_anchor_take3) simp_all
  then show ?thesis by (simp add: YOLOv3Head_call_def)
qed

lemma init_any_count:
  assumes m: "\<And>i. i \<in> set (cfg_mask config) \<Longrightarrow>
                - int (length (cfg_anchors config)) \<le> i \<and> i < int (length (cfg_anchors config))"
    and nz: "net_width config \<noteq> 0" "net_height config \<noteq> 0"
  shows "\<exists>h. YOLOv3Head_init config = Inr h \<and> length (anchors h) = length (cfg_mask config)"
proof -
  define g where "g = (\<lambda>i. if 0 \<le> i then cfg_anchors config ! nat i
                            else cfg_anchors config ! nat (int (length (cfg_anchors config)) + i))"
  have "py_index (cfg_anchors config) i = Inr (g i)" if "i \<in> set (cfg_mask config)" for i
    using m [OF that] by (auto simp: py_index_def g_def)
  then have "map_err (py_index (cfg_anchors config)) (cfg_mask config) = Inr (map g (cfg_mask config))"
    by (rule map_err_all_ok)
  then show ?thesis using nz by (simp add: YOLOv3Head_init_def)
qed

lemma four_anchor_init: "YOLOv3Head_init four_anchor_config = Inr four_anchor_head"
  by (simp add: YOLOv3Head_init_def four_anchor_config_def four_anchor_head_def py_index_def)

lemma one_cell_geometry_build:
  "YOLOv3Head_build h (1, 1, 1, F) = Inr (one_cell_geometry h (F div 3))"
  by (simp add: YOLOv3Head_build_def one_cell_geometry_def)

lemma four_anchor_call:
  "YOLOv3Head_call (one_cell_geometry four_anchor_head 5) one_cell_raw = Inr one_cell_decoded"
  by (simp add: YOLOv3Head_call_def head_anchor_def eval_defs one_cell_geometry_def
      four_anchor_head_def head.extend_def one_cell_raw_def one_cell_decoded_def)

lemma sixteen_wf: "wf_tensor 1 1 1 16 sixteen_channel_raw"
  by (simp add: wf_tensor_def wf_grid_def chans_def cells_def sixteen_channel_raw_def)

text \<open>
  C6, as amended.  The head validates neither the number of anchors nor the channel count
  before the call: \<^verbatim>\<open>__init__\<close> succeeds for a mask of any length whose entries index
  the anchor table, and \<^verbatim>\<open>build\<close> succeeds for any channel count.  An input whose
  channel count is not a multiple of 3 fails in \<^verbatim>\<open>call\<close>, at the 3-way split that is its
  first operation; a head with fewer than 3 anchors fails in \<^verbatim>\<open>call\<close> with an
  IndexError; a head with more than 3 anchors decodes without error and uses its first
  three anchors.
\<close>

theorem head_validates_nothing_before_call:
  "(\<forall>config.
      (\<forall>i \<in> set (cfg_mask config).
          - int (length (cfg_anchors config)) \<le> i \<and> i < int (length (cfg_anchors config)))
      \<and> net_width config \<noteq> 0 \<and> net_height config \<noteq> 0 \<longrightarrow>
      (\<exists>h. YOLOv3Head_init config = Inr h \<and> length (anchors h) = length (cfg_mask config)))
   \<and> (\<forall>h B H W F. 0 < H \<and> 0 < W \<longrightarrow> (\<exists>g. YOLOv3Head_build h (B, H, W, F) = Inr g))
   \<and> (\<forall>g B H W C x.
        wf_tensor B H W C x \<and> 0 < B \<and> 0 < H \<and> 0 < W \<and> C mod 3 \<noteq> 0 \<longrightarrow>
        YOLOv3Head_call g x = Inl ShapeError)
   \<and> (\<forall>h B' B H W K g x.
        YOLOv3Head_build h (B', H, W, 3 * K) = Inr g \<and> wf_tensor B H W (3 * K) x \<and> 4 \<le> K
        \<and> length (anchors h) < 3 \<longrightarrow>
        YOLOv3Head_call g x = Inl IndexError)
   \<and> (\<forall>h B' B H W K g x.
        YOLOv3Head_build h (B', H, W, 3 * K) = Inr g \<and> wf_tensor B H W (3 * K) x \<and> 4 \<le> K
        \<and> 3 < length (anchors h) \<longrightarrow>
        (\<exists>out. YOLOv3Head_call g x = Inr out
           \<and> YOLOv3Head_call (g \<lparr> anchors := take 3 (anchors g) \<rparr>) x = Inr out))"
proof (intro conjI allI impI)
  fix config :: head_config
  assume "(\<forall>i \<in> set (cfg_mask config).
          - int (length (cfg_anchors config)) \<le> i \<and> i < int (length (cfg_anchors config)))
      \<and> net_width config \<noteq> 0 \<and> net_height config \<noteq> 0"
  then show "\<exists>h. YOLOv3Head_init config = Inr h \<and> length (anchors h) = length (cfg_mask config)"
    by (intro init_any_count) blast+
next
  fix h :: head and B H W F :: nat
  assume "0 < H \<and> 0 < W"
  then show "\<exists>g. YOLOv3Head_build h (B, H, W, F) = Inr g"
    using build_succeeds [of H W h B F] by blast
next
  fix g :: built_head and B H W C :: nat and x :: tensor4
  assume "wf_tensor B H W C x \<and> 0 < B \<and> 0 < H \<and> 0 < W \<and> C mod 3 \<noteq> 0"
  then show "YOLOv3Head_call g x = Inl ShapeError"
    by (intro call_channel_error [of B H W C]) blast+
next
  fix h :: head and B' B H W K :: nat and g :: built_head and x :: tensor4
  assume a: "YOLOv3Head_build h (B', H, W, 3 * K) = Inr g \<and> wf_tensor B H W (3 * K) x \<and> 4 \<le> K
        \<and> length (anchors h) < 3"
  then have b: "YOLOv3Head_build h (B', H, W, 3 * K) = Inr g" by blast
  note r = build_result [OF b]
  have "fits g H W K" using r(3) by simp
  moreover have "length (anchors g) < 3" using r(4) a by simp
  ultimately show "YOLOv3Head_call g x = Inl IndexError"
    using a r(1,2) by (intro call_index_error [of B H W K]) blast+
next
  fix h :: head and B' B H W K :: nat and g :: built_head and x :: tensor4
  assume a: "YOLOv3Head_build h (B', H, W, 3 * K) = Inr g \<and> wf_tensor B H W (3 * K) x \<and> 4 \<le> K
        \<and> 3 < length (anchors h)"
  then have b: "YOLOv3Head_build h (B', H, W, 3 * K) = Inr g"
    and x: "wf_tensor B H W (3 * K) x" and K: "4 \<le> K" by blast+
  note r = build_result [OF b]
  have f: "fits g H W K" using r(3) by simp
  have l: "3 \<le> length (anchors g)" using r(4) a by simp
  obtain out where "YOLOv3Head_call g x = Inr out"
    using call_decodes [OF x K r(1,2) f l] by blast
  then show "\<exists>out. YOLOv3Head_call g x = Inr out
           \<and> YOLOv3Head_call (g \<lparr> anchors := take 3 (anchors g) \<rparr>) x = Inr out"
    using call_take3 [OF l] by simp
qed

theorem head_validates_nothing_before_call_witness:
  "(\<exists>h. YOLOv3Head_init four_anchor_config = Inr h \<and> length (anchors h) = 4)
   \<and> (\<exists>g. YOLOv3Head_build scenario_head (1, 1, 1, 16) = Inr g)
   \<and> wf_tensor 1 1 1 16 sixteen_channel_raw
   \<and> YOLOv3Head_call (one_cell_geometry scenario_head 5) sixteen_channel_raw = Inl ShapeError
   \<and> YOLOv3Head_build two_anchor_head (1, 1, 1, 3 * 5) = Inr (one_cell_geometry two_anchor_head 5)
   \<and> wf_tensor 1 1 1 (3 * 5) one_cell_raw
   \<and> YOLOv3Head_call (one_cell_geometry two_anchor_head 5) one_cell_raw = Inl IndexError
   \<and> YOLOv3Head_build four_anchor_head (1, 1, 1, 3 * 5) = Inr (one_cell_geometry four_anchor_head 5)
   \<and> YOLOv3Head_call (one_cell_geometry four_anchor_head 5) one_cell_raw = Inr one_cell_decoded
   \<and> YOLOv3Head_call ((one_cell_geometry four_anchor_head 5)
          \<lparr> anchors := take 3 (anchors (one_cell_geometry four_anchor_head 5)) \<rparr>) one_cell_raw
        = Inr one_cell_decoded"
proof -
  note t = head_validates_nothing_before_call
  have m: "(\<forall>i \<in> set (cfg_mask four_anchor_config).
          - int (length (cfg_anchors four_anchor_config)) \<le> i
          \<and> i < int (length (cfg_anchors four_anchor_config)))
      \<and> net_width four_anchor_config \<noteq> 0 \<and> net_height four_anchor_config \<noteq> 0"
    and l: "length (cfg_mask four_anchor_config) = 4"
    by (simp_all add: four_anchor_config_def)
  obtain h4 where "YOLOv3Head_init four_anchor_config = Inr h4"
    and "length (anchors h4) = length (cfg_mask four_anchor_config)"
    using t [THEN conjunct1, rule_format, OF m] by blast
  then have c1: "\<exists>h. YOLOv3Head_init four_anchor_config = Inr h \<and> length (anchors h) = 4"
    using l by auto
  have c2: "\<exists>g. YOLOv3Head_build scenario_head (1, 1, 1, 16) = Inr g"
    using t [THEN conjunct2, THEN conjunct1, rule_format, of 1 1 scenario_head 1 16] by simp
  have w16: "wf_tensor 1 1 1 16 sixteen_channel_raw" by (rule sixteen_wf)
  have c3: "YOLOv3Head_call (one_cell_geometry scenario_head 5) sixteen_channel_raw = Inl ShapeError"
    using t [THEN conjunct2, THEN conjunct2, THEN conjunct1, rule_format,
        of 1 1 1 16 sixteen_channel_raw "one_cell_geometry scenario_head 5"] w16
    by simp
  have b2: "YOLOv3Head_build two_anchor_head (1, 1, 1, 3 * 5) = Inr (one_cell_geometry two_anchor_head 5)"
    and b4: "YOLOv3Head_build four_anchor_head (1, 1, 1, 3 * 5) = Inr (one_cell_geometry four_anchor_head 5)"
    using one_cell_geometry_build [of _ 15] by simp_all
  have w: "wf_tensor 1 1 1 (3 * 5) one_cell_raw" by (rule one_cell_wf)
  have c4: "YOLOv3Head_call (one_cell_geometry two_anchor_head 5) one_cell_raw = Inl IndexError"
    using t [THEN conjunct2, THEN conjunct2, THEN conjunct2, THEN conjunct1, rule_format,
        of two_anchor_head 1 1 1 5 "one_cell_geometry two_anchor_head 5" 1 one_cell_raw] b2 w
    by (simp add: two_anchor_head_def)
  obtain out where o: "YOLOv3Head_call (one_cell_geometry four_anchor_head 5) one_cell_raw = Inr out"
    "YOLOv3Head_call ((one_cell_geometry four_anchor_head 5)
          \<lparr> anchors := take 3 (anchors (one_cell_geometry four_anchor_head 5)) \<rparr>) one_cell_raw = Inr out"
    using t [THEN conjunct2, THEN conjunct2, THEN conjunct2, THEN conjunct2, rule_format,
        of four_anchor_head 1 1 1 5 "one_cell_geometry four_anchor_head 5" 1 one_cell_raw] b4 w
    by (auto simp: four_anchor_head_def)
  have "out = one_cell_decoded" using o(1) four_anchor_call by simp
  then show ?thesis using c1 c2 w16 c3 b2 w c4 b4 o by simp
qed

text \<open>
  C6 as stated fails: a head whose mask selects four anchors is constructed, built and
  called without any failure; and a head built for sixteen channels is built without
  failure and fails only in the call.
\<close>

theorem head_fails_fast_counterexample:
  "YOLOv3Head_init four_anchor_config = Inr four_anchor_head
   \<and> length (anchors four_anchor_head) = 4
   \<and> YOLOv3Head_build four_anchor_head (1, 1, 1, 15) = Inr (one_cell_geometry four_anchor_head 5)
   \<and> YOLOv3Head_call (one_cell_geometry four_anchor_head 5) one_cell_raw = Inr one_cell_decoded
   \<and> YOLOv3Head_init scenario_config = Inr scenario_head
   \<and> YOLOv3Head_build scenario_head (1, 1, 1, 16) = Inr (one_cell_geometry scenario_head 5)
   \<and> YOLOv3Head_call (one_cell_geometry scenario_head 5) sixteen_channel_raw = Inl ShapeError"
proof -
  have "YOLOv3Head_call (one_cell_geometry scenario_head 5) sixteen_channel_raw = Inl ShapeError"
    by (simp add: YOLOv3Head_call_def tf_split_def bind_err_def cells_def sixteen_channel_raw_def)
  then show ?thesis
    using four_anchor_init four_anchor_call scenario_init one_cell_geometry_build [of _ 15]
      one_cell_geometry_build [of _ 16]
    by (simp add: four_anchor_head_def)
qed

end
